theory Spec2Isabelle
  imports Main "HOL-Library.AList"
begin


section \<open>Errors and results\<close>

text \<open>
  The analyzer reports a user error by throwing \<open>FormattedError(node, ErrorCode::Exxxx, ...)\<close>;
  the first throw aborts the analysis. A fallible operation of the model returns
  \<open>failure + 'a\<close>: \<open>Inl\<close> carries what was thrown, \<open>Inr\<close> the result of a normal return.

  \<open>FeatureNotSupported\<close> stands for the error of \<open>ThrowIfFeatureNotSupported\<close>, whose body is
  not part of the sources at hand. \<open>UndefinedBehaviour\<close> is returned where the C++ has no
  defined result: \<open>top()\<close> or \<open>pop()\<close> of an empty \<open>std::stack\<close>, a vector index out of range,
  a null \<open>currentVariableReferenceScope_\<close>, dereferencing \<open>end()\<close>, overflow of a signed \<open>int\<close>.
  \<open>assert\<close> is compiled out of a release build and is not modelled: every run that a debug
  build completes is a run of the model with the same result.
\<close>

datatype ErrorCode =
    E0001 | E0002 | E0003 | E0004 | E0005 | E0006 | E0007 | E0008 | E0009
  | E0051 | E0052 | E0053 | E0054 | E0060 | E0109 | E0110 | E0111 | E0113

datatype Feature =
    G011 | G012 | G013 | G030 | G032 | G048 | G049 | G050 | G060 | G061 | G074

datatype failure = Thrown ErrorCode | FeatureNotSupported Feature | UndefinedBehaviour

definition andThen :: "failure + 'a \<Rightarrow> ('a \<Rightarrow> failure + 'b) \<Rightarrow> failure + 'b" where
  "andThen m f = (case m of Inl e \<Rightarrow> Inl e | Inr x \<Rightarrow> f x)"

text \<open>A range-for loop whose body may throw: the first failure ends the loop.\<close>

fun forEach :: "('a \<Rightarrow> 's \<Rightarrow> failure + 's) \<Rightarrow> 'a list \<Rightarrow> 's \<Rightarrow> failure + 's" where
  "forEach f [] s = Inr s"
| "forEach f (x # xs) s = andThen (f x s) (forEach f xs)"

text \<open>C++ \<open>int\<close> is taken to be 32 bits wide; arithmetic that leaves the range is undefined.\<close>

definition INT_MAX :: int where
  "INT_MAX = 2147483647"

definition INT_MIN :: int where
  "INT_MIN = - 2147483648"

definition checkedInt :: "int \<Rightarrow> failure + int" where
  "checkedInt x = (if INT_MIN \<le> x \<and> x \<le> INT_MAX then Inr x else Inl UndefinedBehaviour)"

section \<open>Domain types (graph_pattern_context.h, aux_data.h)\<close>

datatype GraphPatternVariableType = Node | Edge | Path | Subpath

datatype VariableDegreeOfExposure =
    UnconditionalSingleton
  | ConditionalSingleton
  | EffectivelyBoundedGroup
  | EffectivelyUnboundedGroup

text \<open>\<open>ast::InputPosition\<close>: a (line, column) pair, or unset (\<open>IsSet()\<close> is false).\<close>

type_synonym InputPosition = "(nat \<times> nat) option"

text \<open>
  A \<open>std::unordered_map\<close> is an association list with distinct keys. The C++ leaves the
  iteration order open; the list fixes one (insertion order). \<open>find\<close> is \<open>map_of\<close>,
  \<open>emplace\<close>/\<open>insert\<close> of an absent key appends, \<open>m[k] = v\<close> is \<open>AList.update\<close>.
\<close>

type_synonym ('k, 'v) unordered_map = "('k \<times> 'v) list"

type_synonym CountedVariableDeclarations = "(string, int) unordered_map"

text \<open>\<open>m[k]\<close> read on a counter map: the value, 0 when the key is absent.\<close>

definition countOf :: "CountedVariableDeclarations \<Rightarrow> string \<Rightarrow> int" where
  "countOf m k = (case map_of m k of None \<Rightarrow> 0 | Some c \<Rightarrow> c)"

text \<open>\<open>m[k] += c\<close> (and \<open>m[k]++\<close> with \<open>c = 1\<close>).\<close>

definition addCount :: "string \<Rightarrow> int \<Rightarrow> CountedVariableDeclarations \<Rightarrow> CountedVariableDeclarations" where
  "addCount k c m = AList.update k (countOf m k + c) m"

text \<open>\<open>for (auto& v : src) dst[v.first] += v.second;\<close>\<close>

definition addCounts :: "CountedVariableDeclarations \<Rightarrow> CountedVariableDeclarations \<Rightarrow> CountedVariableDeclarations" where
  "addCounts src dst = fold (\<lambda>v m. addCount (fst v) (snd v) m) src dst"

text \<open>\<open>struct GraphPatternContext::Variable\<close> and \<open>ExposedVariable : Variable\<close>.\<close>

record Variable =
  type :: GraphPatternVariableType
  declarationPosition :: InputPosition
  isTemp :: bool
  degree :: VariableDegreeOfExposure

record ExposedVariable = Variable +
  isStrictInterior :: bool

text \<open>Copying an \<open>ExposedVariable\<close> into a \<open>Variable\<close> slices the derived part off.\<close>

definition slice :: "ExposedVariable \<Rightarrow> Variable" where
  "slice v = \<lparr>type = type v, declarationPosition = declarationPosition v,
     isTemp = isTemp v, degree = degree v\<rparr>"

type_synonym ExposedVariables = "(string, ExposedVariable) unordered_map"

record VariableScope =
  parent :: "nat option"
  localVariables :: "(string, Variable) unordered_map"

record VariableDeclaration =
  declType :: GraphPatternVariableType
  declarationOrder :: int
  firstDeclarationPosition :: InputPosition

text \<open>\<open>GraphPatternAuxData::Variable\<close> of aux_data.h, the entry type of \<open>declaredVariables\<close>.\<close>

record AuxVariable =
  auxType :: GraphPatternVariableType
  degreeOfExposure :: VariableDegreeOfExposure
  auxIsTemp :: bool

record PathVariableReferenceScopeAuxData =
  declaredVariables :: "(string, AuxVariable) unordered_map"

record PathPatternAuxData =
  joinableVariables :: "string list"

section \<open>The pattern AST\<close>

text \<open>
  The node types are declared in \<open>gql/ast/ast.h\<close>, which is not among the sources at hand;
  they are modelled from their uses in path_pattern.cpp, element_pattern_where.cpp,
  element_property_predicate.cpp and match_utils.cpp, and from the data model of the
  specification. Input positions are kept only on variable declarations, the one place where
  the analyzer stores them. A label expression is reduced to what the analyzer reads of it:
  whether it contains a wildcard. The direction of an edge pattern is read by none of the
  functions modelled here and is left out.

  A value expression can contain a path pattern again (\<open>EXISTS {MATCH ...}\<close>, as in the first
  case of rewrite_unittest.cpp). \<open>OtherValueExpression\<close> stands for every expression without a
  path pattern inside (a literal, a parameter).
\<close>

datatype PathMode = WALK | TRAIL | SIMPLE | ACYCLIC

datatype Op = Concat | Union

datatype CompOp = Equals

datatype BinaryOp = BoolAnd

record ElementVariableDeclaration =
  varName :: string
  varIsTemp :: bool
  varPosition :: InputPosition

record SubpathVariable =
  subpathName :: string
  subpathPosition :: InputPosition

datatype LabelExpression = LabelExpression (hasWildcard: bool)

datatype Quantifier =
    NoQuantifier
  | Optional
  | GraphPatternQuantifier (lower: nat) (upper: "nat option")

datatype 'e ElementPatternPredicate =
    ElementPatternWhereClause 'e
  | ElementPropertySpecification "(string \<times> 'e) list"

datatype ValueExpression =
    BindingVariableReference string
  | PropertyReference ValueExpression string
  | Comparison CompOp ValueExpression ValueExpression
  | Binary BinaryOp ValueExpression ValueExpression
  | ExistsPredicate PathPatternExpression
  | OtherValueExpression string
and ElementPatternFiller =
    ElementPatternFiller
      (var: "ElementVariableDeclaration option")
      (labelExpr: "LabelExpression option")
      (predicate: "ValueExpression ElementPatternPredicate option")
and ElementPattern =
    NodePattern ElementPatternFiller
  | EdgePattern ElementPatternFiller
and PathPrimary =
    ElementPatternPrimary ElementPattern
  | ParenthesizedPathPatternExpression
      (subpathVar: "SubpathVariable option")
      (pathMode: PathMode)
      (innerPattern: PathPatternExpression)
      (whereClause: "ValueExpression option")
  | SimplifiedPathPatternExpression
and PathFactor = PathFactor (quantifier: Quantifier) (pattern: PathPrimary)
and PathPatternExpression = PathPatternExpression (terms: "PathFactor list list") (op: Op)

section \<open>The state of GraphPatternContext (graph_pattern_context.h)\<close>

text \<open>
  A \<open>std::stack\<close> is a list with the top at the head. \<open>variableScopes_\<close> is a \<open>std::list\<close> that
  only grows at the back, so a \<open>VariableScope*\<close> is the index of the scope in it. The
  \<open>PathVariableReferenceScopeAuxData\<close> records are owned by AST nodes; the model keeps them in
  \<open>auxStore\<close> in the order of their creation, and \<open>currentVariableReferenceScope_\<close> is an
  index into that store (\<open>None\<close> for \<open>nullptr\<close>). Member names lose their trailing underscore.
\<close>

record SearchConditionScope =
  condition :: ValueExpression
  variableScope :: "nat option"
  scope :: "string list option"
  inaccessibleVariables :: CountedVariableDeclarations

record UnionFrame =
  indexOfFirstSearchConditionScopeInOperands :: "nat list"
  declarationsInOperands :: "CountedVariableDeclarations list"

definition isFirstOperand :: "UnionFrame \<Rightarrow> bool" where
  "isFirstOperand u = (declarationsInOperands u = [])"

record GraphPatternContext =
  isInsideQuantifiedPathPrimary :: bool
  isInsideSelectivePattern :: bool
  differentEdgesMatchMode :: bool
  isRestrictivePathMode :: "bool list"
  variableScopes :: "VariableScope list"
  variableScopeStack :: "nat list"
  exposedVariables :: "ExposedVariables list"
  variableDeclarations :: "(string, VariableDeclaration) unordered_map"
  lastVariableDeclarationPosition :: InputPosition
  declarationsInUnions :: "CountedVariableDeclarations list"
  searchConditionScopes :: "SearchConditionScope list"
  indexOfFirstSearchConditionScopeInPathPattern :: nat
  expectingLeftBoundaryVariable :: bool
  leftBoundaryVariable :: "string option"
  possibleRightBoundaryVariable :: "string option"
  pathPatternUnion :: "UnionFrame list"
  minimumPathLength :: "int list"
  nonZeroNodeCount :: "bool list"
  currentVariableReferenceScope :: "nat option"
  auxStore :: "PathVariableReferenceScopeAuxData list"

section \<open>The operations of GraphPatternContext (graph_pattern_context.cpp)\<close>

definition EnterVariableScope :: "GraphPatternContext \<Rightarrow> GraphPatternContext" where
  "EnterVariableScope s =
     s\<lparr>exposedVariables := [] # exposedVariables s,
       variableScopes := variableScopes s @
         [\<lparr>parent = (case variableScopeStack s of [] \<Rightarrow> None | p # _ \<Rightarrow> Some p),
           localVariables = []\<rparr>],
       variableScopeStack := length (variableScopes s) # variableScopeStack s\<rparr>"

text \<open>The constructor \<open>GraphPatternContext(bool differentEdgesMatchMode)\<close>.\<close>

definition newGraphPatternContext :: "bool \<Rightarrow> GraphPatternContext" where
  "newGraphPatternContext dem =
     EnterVariableScope
       \<lparr>isInsideQuantifiedPathPrimary = False,
        isInsideSelectivePattern = False,
        differentEdgesMatchMode = dem,
        isRestrictivePathMode = [False],
        variableScopes = [],
        variableScopeStack = [],
        exposedVariables = [[]],
        variableDeclarations = [],
        lastVariableDeclarationPosition = None,
        declarationsInUnions = [[]],
        searchConditionScopes = [],
        indexOfFirstSearchConditionScopeInPathPattern = 0,
        expectingLeftBoundaryVariable = False,
        leftBoundaryVariable = None,
        possibleRightBoundaryVariable = None,
        pathPatternUnion = [],
        minimumPathLength = [0],
        nonZeroNodeCount = [False],
        currentVariableReferenceScope = None,
        auxStore = []\<rparr>"

definition ExposeVariable ::
  "string \<Rightarrow> ExposedVariable \<Rightarrow> GraphPatternContext \<Rightarrow> failure + GraphPatternContext" where
  "ExposeVariable name variable s =
     (case exposedVariables s of
        [] \<Rightarrow> Inl UndefinedBehaviour
      | currentExposedVariables # rest \<Rightarrow>
          (case map_of currentExposedVariables name of
             None \<Rightarrow>
               Inr (s\<lparr>exposedVariables := (currentExposedVariables @ [(name, variable)]) # rest\<rparr>)
           | Some existingVar \<Rightarrow>
               if degree variable \<noteq> UnconditionalSingleton \<or>
                  degree existingVar \<noteq> UnconditionalSingleton
               then Inl (Thrown E0008)
               else if isStrictInterior variable \<or> isStrictInterior existingVar
               then Inl (Thrown E0009)
               else Inr s))"

definition ExposeNewVariable ::
  "string \<Rightarrow> ExposedVariable \<Rightarrow> GraphPatternContext \<Rightarrow> failure + GraphPatternContext" where
  "ExposeNewVariable name variable s =
     andThen (ExposeVariable name variable s) (\<lambda>s1.
       if type variable = Node \<or> type variable = Edge then
         (case currentVariableReferenceScope s1 of
            None \<Rightarrow> Inl UndefinedBehaviour
          | Some p \<Rightarrow>
              if p < length (auxStore s1) then
                Inr (s1\<lparr>auxStore := (auxStore s1)
                  [p := (auxStore s1 ! p)\<lparr>declaredVariables :=
                     AList.update name
                       \<lparr>auxType = type variable, degreeOfExposure = degree variable,
                         auxIsTemp = False\<rparr>
                       (declaredVariables (auxStore s1 ! p))\<rparr>]\<rparr>)
              else Inl UndefinedBehaviour)
       else Inr s1)"

definition AppendExposedVariables :: "GraphPatternContext \<Rightarrow> failure + GraphPatternContext" where
  "AppendExposedVariables s =
     (case exposedVariables s of
        [] \<Rightarrow> Inl UndefinedBehaviour
      | newExposedVariables # rest \<Rightarrow>
          forEach (\<lambda>v. ExposeVariable (fst v) (snd v)) newExposedVariables
            (s\<lparr>exposedVariables := rest\<rparr>))"

definition ExitVariableScope :: "GraphPatternContext \<Rightarrow> failure + GraphPatternContext" where
  "ExitVariableScope s =
     (case (exposedVariables s, variableScopeStack s) of
        (topFrame # _, p # ps) \<Rightarrow>
          if p < length (variableScopes s) then
            AppendExposedVariables
              (s\<lparr>variableScopes := (variableScopes s)
                   [p := (variableScopes s ! p)\<lparr>localVariables :=
                      fold (\<lambda>v m. AList.update (fst v) (slice (snd v)) m) topFrame
                        (localVariables (variableScopes s ! p))\<rparr>],
                 variableScopeStack := ps\<rparr>)
          else Inl UndefinedBehaviour
      | _ \<Rightarrow> Inl UndefinedBehaviour)"

definition IsInsideRestrictiveSearch :: "GraphPatternContext \<Rightarrow> failure + bool" where
  "IsInsideRestrictiveSearch s =
     (case isRestrictivePathMode s of [] \<Rightarrow> Inl UndefinedBehaviour | r # _ \<Rightarrow> Inr r)"

definition DeclareVariable ::
  "string \<Rightarrow> InputPosition \<Rightarrow> GraphPatternVariableType \<Rightarrow> bool \<Rightarrow>
   GraphPatternContext \<Rightarrow> failure + GraphPatternContext" where
  "DeclareVariable name pos ty temp s =
     (let s1 = (if lastVariableDeclarationPosition s = None
                then s\<lparr>lastVariableDeclarationPosition := pos\<rparr> else s)
      in andThen
        (case map_of (variableDeclarations s1) name of
           None \<Rightarrow>
             Inr (s1\<lparr>variableDeclarations := variableDeclarations s1 @
               [(name, \<lparr>declType = ty,
                         declarationOrder = int (length (variableDeclarations s1)),
                         firstDeclarationPosition = pos\<rparr>)]\<rparr>)
         | Some d \<Rightarrow>
             if declType d \<noteq> ty then Inl (Thrown E0001)
             else (case ty of
                     Path \<Rightarrow> Inl (Thrown E0002)
                   | Subpath \<Rightarrow> Inl (Thrown E0003)
                   | Node \<Rightarrow> Inr s1
                   | Edge \<Rightarrow> Inr s1))
        (\<lambda>s2. andThen
           (ExposeNewVariable name
              \<lparr>type = ty, declarationPosition = pos, isTemp = temp,
                degree = UnconditionalSingleton, isStrictInterior = False\<rparr> s2)
           (\<lambda>s3. case declarationsInUnions s3 of
                    [] \<Rightarrow> Inl UndefinedBehaviour
                  | d # ds \<Rightarrow> Inr (s3\<lparr>declarationsInUnions := addCount name 1 d # ds\<rparr>))))"

definition DeclareSubpathVariable ::
  "SubpathVariable \<Rightarrow> GraphPatternContext \<Rightarrow> failure + GraphPatternContext" where
  "DeclareSubpathVariable v s = DeclareVariable (subpathName v) (subpathPosition v) Subpath False s"

definition DeclareNodeVariable ::
  "ElementVariableDeclaration \<Rightarrow> GraphPatternContext \<Rightarrow> failure + GraphPatternContext" where
  "DeclareNodeVariable v s =
     andThen (DeclareVariable (varName v) (varPosition v) Node (varIsTemp v) s) (\<lambda>s1.
       let s2 = (if expectingLeftBoundaryVariable s1 \<and> \<not> varIsTemp v
                 then s1\<lparr>leftBoundaryVariable := Some (varName v),
                         expectingLeftBoundaryVariable := False\<rparr>
                 else s1)
       in Inr (s2\<lparr>possibleRightBoundaryVariable := Some (varName v)\<rparr>))"

definition DeclareEdgeVariable ::
  "ElementVariableDeclaration \<Rightarrow> GraphPatternContext \<Rightarrow> failure + GraphPatternContext" where
  "DeclareEdgeVariable v s = DeclareVariable (varName v) (varPosition v) Edge (varIsTemp v) s"

definition EnterPathPattern :: "bool \<Rightarrow> GraphPatternContext \<Rightarrow> GraphPatternContext" where
  "EnterPathPattern isSelectivePattern s =
     (let s1 = s\<lparr>isInsideSelectivePattern := isSelectivePattern,
                  expectingLeftBoundaryVariable := isSelectivePattern,
                  leftBoundaryVariable := None,
                  possibleRightBoundaryVariable := None,
                  exposedVariables := [] # exposedVariables s\<rparr>;
          s2 = (if isSelectivePattern
                then (EnterVariableScope s1)
                       \<lparr>indexOfFirstSearchConditionScopeInPathPattern :=
                          length (searchConditionScopes s1)\<rparr>
                else s1)
      in s2\<lparr>nonZeroNodeCount := False # nonZeroNodeCount s2\<rparr>)"

text \<open>\<open>searchConditionScopes_[i].scope = varSet\<close> for every \<open>i\<close> from \<open>first\<close> on.\<close>

definition setScopeFrom ::
  "nat \<Rightarrow> string list \<Rightarrow> SearchConditionScope list \<Rightarrow> SearchConditionScope list" where
  "setScopeFrom first varSet scs =
     take first scs @ map (\<lambda>c. c\<lparr>scope := Some varSet\<rparr>) (drop first scs)"

text \<open>16.6 Syntax Rule 5: what is not a boundary variable is a strict interior variable.\<close>

definition markStrictInterior ::
  "string option \<Rightarrow> string option \<Rightarrow> string \<times> ExposedVariable \<Rightarrow> string \<times> ExposedVariable" where
  "markStrictInterior left right v =
     (if left = Some (fst v) \<or> right = Some (fst v) then v
      else (fst v, (snd v)\<lparr>isStrictInterior := True\<rparr>))"

text \<open>16.7 Syntax Rule 22.h, applied to a variable on its way out of a path pattern.\<close>

definition boundedOnExit :: "ExposedVariable \<Rightarrow> ExposedVariable" where
  "boundedOnExit v =
     (if degree v = EffectivelyUnboundedGroup
      then v\<lparr>degree := EffectivelyBoundedGroup\<rparr> else v)"

text \<open>
  \<open>ExitPathPattern\<close> stores the auxiliary record in the \<open>PathPattern\<close> node; the model returns
  it beside the new state.
\<close>

definition ExitPathPattern ::
  "GraphPatternContext \<Rightarrow> failure + (PathPatternAuxData \<times> GraphPatternContext)" where
  "ExitPathPattern s =
     andThen
       (if isInsideSelectivePattern s then
          (case exposedVariables s of
             [] \<Rightarrow> Inl UndefinedBehaviour
           | topFrame # _ \<Rightarrow>
               andThen (ExitVariableScope s) (\<lambda>s1.
                 let s2 = s1\<lparr>searchConditionScopes :=
                            setScopeFrom (indexOfFirstSearchConditionScopeInPathPattern s1)
                              (map fst topFrame) (searchConditionScopes s1)\<rparr>
                 in (case exposedVariables s2 of
                       [] \<Rightarrow> Inl UndefinedBehaviour
                     | frame # rest \<Rightarrow>
                         Inr (s2\<lparr>exposedVariables :=
                           map (markStrictInterior (leftBoundaryVariable s2)
                                  (possibleRightBoundaryVariable s2)) frame # rest\<rparr>))))
        else Inr s)
       (\<lambda>s3. case exposedVariables s3 of
                [] \<Rightarrow> Inl UndefinedBehaviour
              | localExposedVariables # rest \<Rightarrow>
                  andThen
                    (forEach (\<lambda>v. ExposeVariable (fst v) (boundedOnExit (snd v)))
                       localExposedVariables (s3\<lparr>exposedVariables := rest\<rparr>))
                    (\<lambda>s4. case nonZeroNodeCount s4 of
                             [] \<Rightarrow> Inl UndefinedBehaviour
                           | nz # nzs \<Rightarrow>
                               if \<not> nz then Inl (Thrown E0109)
                               else Inr (\<lparr>joinableVariables =
                                           map fst (filter (\<lambda>v. degree (snd v) =
                                             UnconditionalSingleton) localExposedVariables)\<rparr>,
                                         s4\<lparr>nonZeroNodeCount := nzs\<rparr>)))"

definition EnterParenthesizedPathPatternExpression ::
  "GraphPatternContext \<Rightarrow> GraphPatternContext" where
  "EnterParenthesizedPathPatternExpression s =
     (let s1 = EnterVariableScope s in s1\<lparr>nonZeroNodeCount := False # nonZeroNodeCount s1\<rparr>)"

definition ExitParenthesizedPathPatternExpression ::
  "bool \<Rightarrow> GraphPatternContext \<Rightarrow> failure + GraphPatternContext" where
  "ExitParenthesizedPathPatternExpression hasSubpathVariable s =
     andThen (ExitVariableScope s) (\<lambda>s1.
       case nonZeroNodeCount s1 of
         [] \<Rightarrow> Inl UndefinedBehaviour
       | nz # outer \<Rightarrow>
           if hasSubpathVariable \<and> \<not> nz then Inl (Thrown E0110)
           else (case outer of
                   [] \<Rightarrow> Inl UndefinedBehaviour
                 | nzOuter # nzs \<Rightarrow> Inr (s1\<lparr>nonZeroNodeCount := (nzOuter \<or> nz) # nzs\<rparr>)))"

definition EnterPathMode :: "PathMode \<Rightarrow> GraphPatternContext \<Rightarrow> failure + GraphPatternContext" where
  "EnterPathMode mode s =
     (case isRestrictivePathMode s of
        [] \<Rightarrow> Inl UndefinedBehaviour
      | r # rs \<Rightarrow> Inr (s\<lparr>isRestrictivePathMode := (r \<or> mode \<noteq> WALK) # r # rs\<rparr>))"

definition ExitPathMode :: "GraphPatternContext \<Rightarrow> failure + GraphPatternContext" where
  "ExitPathMode s =
     (case isRestrictivePathMode s of
        [] \<Rightarrow> Inl UndefinedBehaviour
      | _ # rs \<Rightarrow> Inr (s\<lparr>isRestrictivePathMode := rs\<rparr>))"

definition EnterQuantifiedPathPrimary ::
  "bool \<Rightarrow> GraphPatternContext \<Rightarrow> failure + GraphPatternContext" where
  "EnterQuantifiedPathPrimary bounded s =
     (if isInsideQuantifiedPathPrimary s then Inl (Thrown E0004)
      else
        andThen (if bounded then Inr True else IsInsideRestrictiveSearch s) (\<lambda>restrictive.
          if \<not> bounded \<and> \<not> restrictive \<and> \<not> isInsideSelectivePattern s \<and>
             \<not> differentEdgesMatchMode s
          then Inl (Thrown E0005)
          else Inr (s\<lparr>isInsideQuantifiedPathPrimary := True,
                      expectingLeftBoundaryVariable := False,
                      minimumPathLength := 0 # minimumPathLength s,
                      nonZeroNodeCount := False # nonZeroNodeCount s,
                      exposedVariables := [] # exposedVariables s\<rparr>)))"

text \<open>16.7 Syntax Rule 22.e: the degree a variable leaves a quantified path primary with.\<close>

definition quantifiedDegree ::
  "bool \<Rightarrow> GraphPatternContext \<Rightarrow> ExposedVariable \<Rightarrow> failure + ExposedVariable" where
  "quantifiedDegree bounded s v =
     (if degree v \<noteq> EffectivelyUnboundedGroup then
        (if bounded then Inr (v\<lparr>degree := EffectivelyBoundedGroup\<rparr>)
         else andThen (IsInsideRestrictiveSearch s) (\<lambda>restrictive.
                Inr (v\<lparr>degree := (if restrictive then EffectivelyBoundedGroup
                                   else EffectivelyUnboundedGroup)\<rparr>)))
      else Inr v)"

definition ExitQuantifiedPathPrimary ::
  "bool \<Rightarrow> int \<Rightarrow> GraphPatternContext \<Rightarrow> failure + GraphPatternContext" where
  "ExitQuantifiedPathPrimary bounded lowerBound s =
     (case exposedVariables s of
        [] \<Rightarrow> Inl UndefinedBehaviour
      | localExposedVariables # rest \<Rightarrow>
          andThen
            (forEach
               (\<lambda>v st. andThen (quantifiedDegree bounded st (snd v))
                          (\<lambda>v'. ExposeNewVariable (fst v) v' st))
               localExposedVariables
               (s\<lparr>isInsideQuantifiedPathPrimary := False, exposedVariables := rest\<rparr>))
            (\<lambda>s1.
               let s2 = s1\<lparr>possibleRightBoundaryVariable := None\<rparr> in
               (case minimumPathLength s2 of
                  [] \<Rightarrow> Inl UndefinedBehaviour
                | m # ms \<Rightarrow>
                    if m = 0 then Inl (Thrown E0006)
                    else (case ms of
                            [] \<Rightarrow> Inl UndefinedBehaviour
                          | outer # ms' \<Rightarrow>
                              andThen (checkedInt (m * lowerBound)) (\<lambda>product.
                              andThen (checkedInt (outer + product)) (\<lambda>total.
                                (case nonZeroNodeCount s2 of
                                   nz # nzOuter # nzs \<Rightarrow>
                                     Inr (s2\<lparr>minimumPathLength := total # ms',
                                              nonZeroNodeCount :=
                                                (nzOuter \<or> (nz \<and> lowerBound > 0)) # nzs\<rparr>)
                                 | _ \<Rightarrow> Inl UndefinedBehaviour)))))))"

definition EnterQuestionedPathPrimary :: "GraphPatternContext \<Rightarrow> GraphPatternContext" where
  "EnterQuestionedPathPrimary s =
     s\<lparr>expectingLeftBoundaryVariable := False,
       minimumPathLength := 0 # minimumPathLength s,
       nonZeroNodeCount := False # nonZeroNodeCount s,
       exposedVariables := [] # exposedVariables s\<rparr>"

definition questionedDegree :: "ExposedVariable \<Rightarrow> ExposedVariable" where
  "questionedDegree v =
     (case degree v of
        EffectivelyBoundedGroup \<Rightarrow> v
      | EffectivelyUnboundedGroup \<Rightarrow> v
      | ConditionalSingleton \<Rightarrow> v
      | UnconditionalSingleton \<Rightarrow> v\<lparr>degree := ConditionalSingleton\<rparr>)"

definition ExitQuestionedPathPrimary :: "GraphPatternContext \<Rightarrow> failure + GraphPatternContext" where
  "ExitQuestionedPathPrimary s =
     (case exposedVariables s of
        [] \<Rightarrow> Inl UndefinedBehaviour
      | localExposedVariables # rest \<Rightarrow>
          andThen
            (forEach (\<lambda>v. ExposeNewVariable (fst v) (questionedDegree (snd v)))
               localExposedVariables (s\<lparr>exposedVariables := rest\<rparr>))
            (\<lambda>s1.
               let s2 = s1\<lparr>possibleRightBoundaryVariable := None\<rparr> in
               (case minimumPathLength s2 of
                  [] \<Rightarrow> Inl UndefinedBehaviour
                | m # ms \<Rightarrow>
                    if m = 0 then Inl (Thrown E0007)
                    else (case nonZeroNodeCount s2 of
                            [] \<Rightarrow> Inl UndefinedBehaviour
                          | _ # nzs \<Rightarrow>
                              Inr (s2\<lparr>minimumPathLength := ms, nonZeroNodeCount := nzs\<rparr>)))))"

definition EnterPathPatternUnion :: "GraphPatternContext \<Rightarrow> GraphPatternContext" where
  "EnterPathPatternUnion s =
     s\<lparr>exposedVariables := [] # exposedVariables s,
       expectingLeftBoundaryVariable := False,
       minimumPathLength := INT_MAX # minimumPathLength s,
       nonZeroNodeCount := True # nonZeroNodeCount s,
       pathPatternUnion :=
         \<lparr>indexOfFirstSearchConditionScopeInOperands = [length (searchConditionScopes s)],
          declarationsInOperands = []\<rparr> # pathPatternUnion s\<rparr>"

text \<open>
  The body of the innermost loops of \<open>ExitPathPatternUnion\<close>: the declarations of operand
  \<open>i\<close> are added to the \<open>inaccessibleVariables\<close> of the search condition scope \<open>k\<close>.
\<close>

definition addInaccessible ::
  "CountedVariableDeclarations \<Rightarrow> nat \<Rightarrow> SearchConditionScope list \<Rightarrow> SearchConditionScope list" where
  "addInaccessible declarations k scs =
     scs[k := (scs ! k)\<lparr>inaccessibleVariables :=
                 addCounts declarations (inaccessibleVariables (scs ! k))\<rparr>]"

definition fillInaccessible ::
  "UnionFrame \<Rightarrow> SearchConditionScope list \<Rightarrow> SearchConditionScope list" where
  "fillInaccessible currentUnion scs =
     (let n = length (declarationsInOperands currentUnion);
          idx = indexOfFirstSearchConditionScopeInOperands currentUnion
      in fold (\<lambda>i. fold (\<lambda>j acc.
                 if i = j then acc
                 else fold (addInaccessible (declarationsInOperands currentUnion ! i))
                        [idx ! j ..< idx ! (j + 1)] acc) [0 ..< n])
           [0 ..< n] scs)"

text \<open>
  The indices that \<open>fillInaccessible\<close> reads are in range: one boundary more than operands,
  and no boundary beyond the registered search condition scopes.
\<close>

definition unionIndicesInRange :: "UnionFrame \<Rightarrow> SearchConditionScope list \<Rightarrow> bool" where
  "unionIndicesInRange currentUnion scs =
     (length (indexOfFirstSearchConditionScopeInOperands currentUnion) =
        length (declarationsInOperands currentUnion) + 1 \<and>
      list_all (\<lambda>k. k \<le> length scs) (indexOfFirstSearchConditionScopeInOperands currentUnion))"

definition ExitPathPatternUnion :: "GraphPatternContext \<Rightarrow> failure + GraphPatternContext" where
  "ExitPathPatternUnion s =
     andThen (AppendExposedVariables s) (\<lambda>s1.
       let s2 = s1\<lparr>possibleRightBoundaryVariable := None\<rparr> in
       (case (minimumPathLength s2, nonZeroNodeCount s2, pathPatternUnion s2) of
          (m # outer # ms, nz # nzOuter # nzs, currentUnion # unions) \<Rightarrow>
            andThen (checkedInt (outer + m)) (\<lambda>total.
              if unionIndicesInRange currentUnion (searchConditionScopes s2) then
                Inr (s2\<lparr>minimumPathLength := total # ms,
                         nonZeroNodeCount := (nzOuter \<or> nz) # nzs,
                         searchConditionScopes :=
                           fillInaccessible currentUnion (searchConditionScopes s2),
                         pathPatternUnion := unions\<rparr>)
              else Inl UndefinedBehaviour)
        | _ \<Rightarrow> Inl UndefinedBehaviour))"

definition EnterPathPatternUnionOperand :: "GraphPatternContext \<Rightarrow> GraphPatternContext" where
  "EnterPathPatternUnionOperand s =
     s\<lparr>exposedVariables := [] # exposedVariables s,
       minimumPathLength := 0 # minimumPathLength s,
       nonZeroNodeCount := False # nonZeroNodeCount s,
       declarationsInUnions := [] # declarationsInUnions s\<rparr>"

text \<open>
  16.7 Syntax Rule 22.d. The first loop of \<open>ExitPathPatternUnionOperand\<close>, on one variable of
  the union's frame; \<open>operandVariables\<close> is the frame of the operand being left.
\<close>

definition demoteMissing ::
  "ExposedVariables \<Rightarrow> string \<times> ExposedVariable \<Rightarrow> string \<times> ExposedVariable" where
  "demoteMissing operandVariables v =
     (if degree (snd v) = UnconditionalSingleton \<and> map_of operandVariables (fst v) = None
      then (fst v, (snd v)\<lparr>degree := ConditionalSingleton\<rparr>) else v)"

text \<open>The degree written to an entry of the union when the operand exposes the name too.\<close>

definition mergedDegree ::
  "VariableDegreeOfExposure \<Rightarrow> VariableDegreeOfExposure \<Rightarrow> VariableDegreeOfExposure" where
  "mergedDegree operandDegree unionDegree =
     (if operandDegree = EffectivelyUnboundedGroup \<or> unionDegree = EffectivelyUnboundedGroup
      then EffectivelyUnboundedGroup
      else if operandDegree = EffectivelyBoundedGroup \<or> unionDegree = EffectivelyBoundedGroup
      then EffectivelyBoundedGroup
      else if operandDegree = ConditionalSingleton \<or> unionDegree = ConditionalSingleton
      then ConditionalSingleton
      else unionDegree)"

text \<open>The body of the second loop, on one variable of the operand's frame.\<close>

definition mergeOperandVariable ::
  "bool \<Rightarrow> string \<times> ExposedVariable \<Rightarrow> ExposedVariables \<Rightarrow> ExposedVariables" where
  "mergeOperandVariable firstOperand v unionExposedVariables =
     (case map_of unionExposedVariables (fst v) of
        None \<Rightarrow>
          unionExposedVariables @
            [(fst v,
              if \<not> firstOperand \<and> degree (snd v) = UnconditionalSingleton
              then (snd v)\<lparr>degree := ConditionalSingleton\<rparr> else snd v)]
      | Some existing \<Rightarrow>
          AList.update (fst v)
            (existing\<lparr>degree := mergedDegree (degree (snd v)) (degree existing)\<rparr>)
            unionExposedVariables)"

definition mergeOperand :: "bool \<Rightarrow> ExposedVariables \<Rightarrow> ExposedVariables \<Rightarrow> ExposedVariables" where
  "mergeOperand firstOperand operandVariables unionExposedVariables =
     fold (mergeOperandVariable firstOperand) operandVariables
       (map (demoteMissing operandVariables) unionExposedVariables)"

definition ExitPathPatternUnionOperand :: "GraphPatternContext \<Rightarrow> failure + GraphPatternContext" where
  "ExitPathPatternUnionOperand s =
     (case (exposedVariables s, minimumPathLength s, nonZeroNodeCount s) of
        (operandVariables # unionExposedVariables # frames, m # outer # ms,
         nz # nzOuter # nzs) \<Rightarrow>
          (case (pathPatternUnion s, declarationsInUnions s) of
             (currentUnion # unions, operandDeclarations # outerDeclarations # decls) \<Rightarrow>
               Inr (s\<lparr>exposedVariables :=
                        mergeOperand (isFirstOperand currentUnion) operandVariables
                          unionExposedVariables # frames,
                      minimumPathLength := min outer m # ms,
                      nonZeroNodeCount := (nz \<and> nzOuter) # nzs,
                      pathPatternUnion :=
                        currentUnion
                          \<lparr>indexOfFirstSearchConditionScopeInOperands :=
                             indexOfFirstSearchConditionScopeInOperands currentUnion @
                               [length (searchConditionScopes s)],
                           declarationsInOperands :=
                             declarationsInOperands currentUnion @ [operandDeclarations]\<rparr> # unions,
                      declarationsInUnions :=
                        addCounts operandDeclarations outerDeclarations # decls\<rparr>)
           | _ \<Rightarrow> Inl UndefinedBehaviour)
      | _ \<Rightarrow> Inl UndefinedBehaviour)"

definition EnterNodePattern :: "GraphPatternContext \<Rightarrow> failure + GraphPatternContext" where
  "EnterNodePattern s =
     (case nonZeroNodeCount s of
        [] \<Rightarrow> Inl UndefinedBehaviour
      | _ # nzs \<Rightarrow> Inr (s\<lparr>nonZeroNodeCount := True # nzs\<rparr>))"

definition EnterEdgePattern :: "GraphPatternContext \<Rightarrow> failure + GraphPatternContext" where
  "EnterEdgePattern s =
     (case minimumPathLength s of
        [] \<Rightarrow> Inl UndefinedBehaviour
      | m # ms \<Rightarrow>
          andThen (checkedInt (m + 1)) (\<lambda>m'.
            Inr (s\<lparr>expectingLeftBoundaryVariable := False,
                    possibleRightBoundaryVariable := None,
                    minimumPathLength := m' # ms\<rparr>)))"

definition AddSearchCondition ::
  "ValueExpression \<Rightarrow> GraphPatternContext \<Rightarrow> failure + GraphPatternContext" where
  "AddSearchCondition cond s =
     (case variableScopeStack s of
        [] \<Rightarrow> Inl UndefinedBehaviour
      | p # _ \<Rightarrow>
          Inr (s\<lparr>searchConditionScopes := searchConditionScopes s @
                 [\<lparr>condition = cond, variableScope = Some p, scope = None,
                   inaccessibleVariables = []\<rparr>]\<rparr>))"




text \<open>\<open>GraphPatternContext::variables()\<close>.\<close>

definition variables :: "GraphPatternContext \<Rightarrow> failure + (string, Variable) unordered_map" where
  "variables s =
     (case exposedVariables s of
        [] \<Rightarrow> Inl UndefinedBehaviour
      | topFrame # _ \<Rightarrow>
          forEach
            (\<lambda>d result.
               case map_of topFrame (fst d) of
                 None \<Rightarrow> Inl UndefinedBehaviour
               | Some varDef \<Rightarrow>
                   Inr (AList.update (fst d)
                          \<lparr>type = declType (snd d),
                            declarationPosition = firstDeclarationPosition (snd d),
                            isTemp = isTemp varDef, degree = degree varDef\<rparr> result))
            (variableDeclarations s) [])"

text \<open>The constructors and the destructor of \<open>VariableReferenceScope\<close>.\<close>

definition VariableReferenceScope_enter ::
  "GraphPatternContext \<Rightarrow> nat option \<times> GraphPatternContext" where
  "VariableReferenceScope_enter s =
     (currentVariableReferenceScope s,
      s\<lparr>auxStore := auxStore s @ [\<lparr>declaredVariables = []\<rparr>],
        currentVariableReferenceScope := Some (length (auxStore s))\<rparr>)"

definition VariableReferenceScope_exit ::
  "nat option \<Rightarrow> GraphPatternContext \<Rightarrow> GraphPatternContext" where
  "VariableReferenceScope_exit parentScopeAuxData s =
     s\<lparr>currentVariableReferenceScope := parentScopeAuxData\<rparr>"

section \<open>The driver: SyntaxAnalyzer::Process on a path pattern expression (path_pattern.cpp)\<close>

text \<open>
  Modelled from the spec: \<open>ThrowIfFeatureNotSupported\<close> is not among the sources at hand; the
  specification treats the feature gate as a boolean oracle, here the parameter \<open>supported\<close>.
\<close>

definition ThrowIfFeatureNotSupported :: "(Feature \<Rightarrow> bool) \<Rightarrow> Feature \<Rightarrow> failure + unit" where
  "ThrowIfFeatureNotSupported supported f =
     (if supported f then Inr () else Inl (FeatureNotSupported f))"

text \<open>
  \<open>static_cast<int>(value.lower)\<close>: the unsigned lower bound converted to a 32-bit \<open>int\<close>,
  modulo \<open>2^32\<close>.
\<close>

definition toInt :: "nat \<Rightarrow> int" where
  "toInt n = (let m = int (n mod 4294967296) in if m < 2147483648 then m else m - 4294967296)"

text \<open>
  The scope objects of the C++ (\<open>PathPatternUnionScope\<close>, \<open>QuantifiedPathPrimaryScope\<close>, ...)
  call the enter operation when they are constructed or activated and the exit operation in
  their destructor, in reverse order of construction, unless an exception is in flight. In
  the model every exit is written where the destructor runs, and a failure skips the rest.

  The recursion over the AST is in \<open>Process_PathPatternExpression\<close> below; the bodies of
  its cases come first, with the analysis of the sub-patterns as a parameter.
\<close>

type_synonym analysis = "GraphPatternContext \<Rightarrow> failure + GraphPatternContext"

text \<open>One term: the body of \<open>for (auto& term : pathPattern.terms)\<close>.\<close>

definition processTerm :: "bool \<Rightarrow> analysis list \<Rightarrow> analysis" where
  "processTerm unionActive factors s =
     andThen (forEach (\<lambda>factor. factor) factors
                (if unionActive then EnterPathPatternUnionOperand s else s))
       (\<lambda>s1. if unionActive then ExitPathPatternUnionOperand s1 else Inr s1)"

definition processExpression :: "(Feature \<Rightarrow> bool) \<Rightarrow> Op \<Rightarrow> analysis list list \<Rightarrow> analysis" where
  "processExpression supported oper termList s =
     andThen
       (if length termList > 1
        then ThrowIfFeatureNotSupported supported (if oper = Union then G032 else G030)
        else Inr ())
       (\<lambda>_. let (parentScopeAuxData, s1) = VariableReferenceScope_enter s;
                 s2 = (if length termList > 1 then EnterPathPatternUnion s1 else s1)
             in andThen (forEach (processTerm (length termList > 1)) termList s2) (\<lambda>s3.
                andThen (if length termList > 1 then ExitPathPatternUnion s3 else Inr s3) (\<lambda>s4.
                  Inr (VariableReferenceScope_exit parentScopeAuxData s4))))"

text \<open>One factor: the body of \<open>for (auto& factor : term)\<close>.\<close>

definition processFactor :: "(Feature \<Rightarrow> bool) \<Rightarrow> Quantifier \<Rightarrow> analysis \<Rightarrow> analysis" where
  "processFactor supported q primary s =
     (let (parentScopeAuxData, s1) = VariableReferenceScope_enter s
      in andThen
           (case q of
              NoQuantifier \<Rightarrow> Inr s1
            | Optional \<Rightarrow> Inr (EnterQuestionedPathPrimary s1)
            | GraphPatternQuantifier lo up \<Rightarrow>
                andThen (ThrowIfFeatureNotSupported supported
                           (if up \<noteq> None then G060 else G061))
                  (\<lambda>_. EnterQuantifiedPathPrimary (up \<noteq> None) s1))
           (\<lambda>s2. andThen (primary s2) (\<lambda>s3.
              andThen
                (case q of
                   NoQuantifier \<Rightarrow> Inr s3
                 | Optional \<Rightarrow> ExitQuestionedPathPrimary s3
                 | GraphPatternQuantifier lo up \<Rightarrow>
                     ExitQuantifiedPathPrimary (up \<noteq> None) (toInt lo) s3)
                (\<lambda>s4. Inr (VariableReferenceScope_exit parentScopeAuxData s4)))))"

text \<open>
  The lambda \<open>processFiller\<close>; \<open>ProcessFallback\<close> of a label expression reaches its wildcards.
  \<open>ExitNodePattern\<close> and \<open>ExitEdgePattern\<close> have empty bodies and do not appear below.
\<close>

definition processFiller :: "(Feature \<Rightarrow> bool) \<Rightarrow> ElementPatternFiller \<Rightarrow> failure + unit" where
  "processFiller supported filler =
     andThen
       (case labelExpr filler of
          None \<Rightarrow> Inr ()
        | Some l \<Rightarrow> if hasWildcard l then ThrowIfFeatureNotSupported supported G074 else Inr ())
       (\<lambda>_. if predicate filler \<noteq> None then Inl (Thrown E0111) else Inr ())"

definition processElementPattern :: "(Feature \<Rightarrow> bool) \<Rightarrow> ElementPattern \<Rightarrow> analysis" where
  "processElementPattern supported e s =
     (case e of
        NodePattern filler \<Rightarrow>
          andThen (EnterNodePattern s) (\<lambda>s1.
          andThen (case var filler of None \<Rightarrow> Inr s1 | Some v \<Rightarrow> DeclareNodeVariable v s1) (\<lambda>s2.
          andThen (processFiller supported filler) (\<lambda>_. Inr s2)))
      | EdgePattern filler \<Rightarrow>
          andThen (EnterEdgePattern s) (\<lambda>s1.
          andThen (case var filler of None \<Rightarrow> Inr s1 | Some v \<Rightarrow> DeclareEdgeVariable v s1) (\<lambda>s2.
          andThen (processFiller supported filler) (\<lambda>_. Inr s2))))"

text \<open>\<open>Process(ast::PathMode, ...)\<close>: the feature of a restrictive path mode.\<close>

definition processPathMode :: "(Feature \<Rightarrow> bool) \<Rightarrow> PathMode \<Rightarrow> failure + unit" where
  "processPathMode supported mode =
     (case mode of
        WALK \<Rightarrow> Inr ()
      | TRAIL \<Rightarrow> ThrowIfFeatureNotSupported supported G011
      | SIMPLE \<Rightarrow> ThrowIfFeatureNotSupported supported G012
      | ACYCLIC \<Rightarrow> ThrowIfFeatureNotSupported supported G013)"

definition processParenthesized ::
  "(Feature \<Rightarrow> bool) \<Rightarrow> SubpathVariable option \<Rightarrow> PathMode \<Rightarrow>
   ValueExpression option \<Rightarrow> analysis \<Rightarrow> analysis" where
  "processParenthesized supported v mode w inner s =
     andThen (if v \<noteq> None then ThrowIfFeatureNotSupported supported G048 else Inr ()) (\<lambda>_.
     andThen (if mode \<noteq> WALK then ThrowIfFeatureNotSupported supported G049 else Inr ()) (\<lambda>_.
     andThen (if w \<noteq> None then ThrowIfFeatureNotSupported supported G050 else Inr ()) (\<lambda>_.
     let s0 = EnterParenthesizedPathPatternExpression s in
     andThen (processPathMode supported mode) (\<lambda>_.
     andThen (case v of
                None \<Rightarrow> Inr s0
              | Some subpath \<Rightarrow> DeclareSubpathVariable subpath s0) (\<lambda>s1.
     andThen (EnterPathMode mode s1) (\<lambda>s2.
     andThen (inner s2) (\<lambda>s3.
     andThen (case w of None \<Rightarrow> Inr s3 | Some cond \<Rightarrow> AddSearchCondition cond s3) (\<lambda>s4.
     andThen (ExitPathMode s4) (\<lambda>s5.
       ExitParenthesizedPathPatternExpression (v \<noteq> None) s5)))))))))"

primrec Process_PathPatternExpression ::
    "(Feature \<Rightarrow> bool) \<Rightarrow> PathPatternExpression \<Rightarrow> analysis"
  and Process_PathFactor :: "(Feature \<Rightarrow> bool) \<Rightarrow> PathFactor \<Rightarrow> analysis"
  and Process_PathPrimary :: "(Feature \<Rightarrow> bool) \<Rightarrow> PathPrimary \<Rightarrow> analysis" where
  "Process_PathPatternExpression supported (PathPatternExpression ts oper) =
     processExpression supported oper (map (map (Process_PathFactor supported)) ts)"
| "Process_PathFactor supported (PathFactor q p) =
     processFactor supported q (Process_PathPrimary supported p)"
| "Process_PathPrimary supported (ElementPatternPrimary e) = processElementPattern supported e"
| "Process_PathPrimary supported (ParenthesizedPathPatternExpression v mode pat w) =
     processParenthesized supported v mode w (Process_PathPatternExpression supported pat)"
| "Process_PathPrimary supported SimplifiedPathPatternExpression = (\<lambda>s. Inl (Thrown E0060))"

section \<open>Resolving a variable reference (reference.cpp)\<close>

text \<open>
  \<open>ExecutionContext\<close> is declared outside the sources at hand; the model has the three
  members that \<open>ProcessBindingVariableReference\<close> reads. \<open>ast::ValueType\<close> is only copied, so
  it is a type parameter. A field list is a list of (name, type) pairs.
\<close>

datatype InaccessibleReason =
    ReferenceToTheAdjacentUnionOperand
  | NonLocalReferenceWithGroupDegreeOfReference
  | ReferenceFromSelectivePathPattern

record 't ExecutionContext =
  workingRecord :: "(string \<times> 't) list"
  workingTable :: "(string \<times> 't) list"
  contextInaccessibleVariables :: "(string, InaccessibleReason) unordered_map"

text \<open>
  Modelled from the spec: \<open>HasField\<close> is declared in type_helpers.h, which is not among the
  sources at hand. It returns the field of the given name, or null when the field list has
  none ("if the name exists in the working-table but not in the working-record").
\<close>

definition HasField :: "(string \<times> 't) list \<Rightarrow> string \<Rightarrow> (string \<times> 't) option" where
  "HasField fieldList name = find (\<lambda>f. fst f = name) fieldList"

definition ProcessBindingVariableReference ::
  "string \<Rightarrow> 't ExecutionContext \<Rightarrow> failure + 't" where
  "ProcessBindingVariableReference name context =
     (case HasField (workingRecord context) name of
        Some field \<Rightarrow> Inr (snd field)
      | None \<Rightarrow>
          (case map_of (contextInaccessibleVariables context) name of
             Some ReferenceToTheAdjacentUnionOperand \<Rightarrow> Inl (Thrown E0051)
           | Some NonLocalReferenceWithGroupDegreeOfReference \<Rightarrow> Inl (Thrown E0052)
           | Some ReferenceFromSelectivePathPattern \<Rightarrow> Inl (Thrown E0053)
           | None \<Rightarrow>
               if HasField (workingTable context) name \<noteq> None then Inl (Thrown E0113)
               else Inl (Thrown E0054)))"

section \<open>The rewriters (element_pattern_where.cpp, element_property_predicate.cpp)\<close>

text \<open>
  A walk over the tree with the state that the visitor captures by reference: it returns the
  rewritten node and the new state.
\<close>

type_synonym ('a, 'st) walk = "'st \<Rightarrow> 'a \<times> 'st"

definition walkReturn :: "'a \<Rightarrow> ('a, 'st) walk" where
  "walkReturn x st = (x, st)"

definition walkMap :: "('a \<Rightarrow> 'b) \<Rightarrow> ('a, 'st) walk \<Rightarrow> ('b, 'st) walk" where
  "walkMap f m st = (let (x, st1) = m st in (f x, st1))"

definition walkMap2 ::
  "('a \<Rightarrow> 'b \<Rightarrow> 'c) \<Rightarrow> ('a, 'st) walk \<Rightarrow> ('b, 'st) walk \<Rightarrow> ('c, 'st) walk" where
  "walkMap2 f m1 m2 st = (let (x, st1) = m1 st; (y, st2) = m2 st1 in (f x y, st2))"

fun walkAll :: "('a, 'st) walk list \<Rightarrow> ('a list, 'st) walk" where
  "walkAll [] = walkReturn []"
| "walkAll (m # ms) = walkMap2 (#) m (walkAll ms)"

definition walkOption :: "('a, 'st) walk option \<Rightarrow> ('a option, 'st) walk" where
  "walkOption m = (case m of None \<Rightarrow> walkReturn None | Some w \<Rightarrow> walkMap Some w)"

text \<open>
  Modelled from the spec: \<open>ForEachNodeOfType\<close> (gql/ast/algorithm.h) is not among the sources
  at hand. The specification has every rewrite make a full walk of the tree, over a generic
  pre-order traversal; a visitor that answers \<open>kSkipChildren\<close> keeps the traversal out of
  the children of the node it was called on (as in \<open>ForEachSimplyContainedDescendant\<close> of
  syntax_analyzer/helpers.h), and the first case of rewrite_unittest.cpp shows the
  traversal reaching the path patterns inside a value expression.

  Both rewriters pass a visitor of the same form: on an element pattern it may replace the
  node and answers \<open>kSkipChildren\<close>; every other path primary it leaves as it is and answers
  \<open>kContinue\<close>. In \<open>ForEachPathPrimary\<close> the parameter \<open>onElementPattern\<close> is what the visitor
  does to an element pattern. The walk does not go below an element pattern, whether the
  visitor has replaced it or not; it goes through the pattern and the condition of a
  parenthesized path pattern expression, and through value expressions.
\<close>

primrec ForEachPathPrimary_ValueExpression ::
    "(ElementPattern \<Rightarrow> (PathPrimary, 'st) walk) \<Rightarrow> ValueExpression \<Rightarrow>
     (ValueExpression, 'st) walk"
  and ForEachPathPrimary_PathPrimary ::
    "(ElementPattern \<Rightarrow> (PathPrimary, 'st) walk) \<Rightarrow> PathPrimary \<Rightarrow> (PathPrimary, 'st) walk"
  and ForEachPathPrimary_PathFactor ::
    "(ElementPattern \<Rightarrow> (PathPrimary, 'st) walk) \<Rightarrow> PathFactor \<Rightarrow> (PathFactor, 'st) walk"
  and ForEachPathPrimary ::
    "(ElementPattern \<Rightarrow> (PathPrimary, 'st) walk) \<Rightarrow> PathPatternExpression \<Rightarrow>
     (PathPatternExpression, 'st) walk" where
  "ForEachPathPrimary_ValueExpression onElementPattern (BindingVariableReference n) =
     walkReturn (BindingVariableReference n)"
| "ForEachPathPrimary_ValueExpression onElementPattern (PropertyReference element p) =
     walkMap (\<lambda>element'. PropertyReference element' p)
       (ForEachPathPrimary_ValueExpression onElementPattern element)"
| "ForEachPathPrimary_ValueExpression onElementPattern (Comparison c l r) =
     walkMap2 (Comparison c)
       (ForEachPathPrimary_ValueExpression onElementPattern l)
       (ForEachPathPrimary_ValueExpression onElementPattern r)"
| "ForEachPathPrimary_ValueExpression onElementPattern (Binary b l r) =
     walkMap2 (Binary b)
       (ForEachPathPrimary_ValueExpression onElementPattern l)
       (ForEachPathPrimary_ValueExpression onElementPattern r)"
| "ForEachPathPrimary_ValueExpression onElementPattern (ExistsPredicate pat) =
     walkMap ExistsPredicate (ForEachPathPrimary onElementPattern pat)"
| "ForEachPathPrimary_ValueExpression onElementPattern (OtherValueExpression x) =
     walkReturn (OtherValueExpression x)"
| "ForEachPathPrimary_PathPrimary onElementPattern (ElementPatternPrimary e) = onElementPattern e"
| "ForEachPathPrimary_PathPrimary onElementPattern
     (ParenthesizedPathPatternExpression v mode pat w) =
     walkMap2 (ParenthesizedPathPatternExpression v mode)
       (ForEachPathPrimary onElementPattern pat)
       (walkOption (map_option (ForEachPathPrimary_ValueExpression onElementPattern) w))"
| "ForEachPathPrimary_PathPrimary onElementPattern SimplifiedPathPatternExpression =
     walkReturn SimplifiedPathPatternExpression"
| "ForEachPathPrimary_PathFactor onElementPattern (PathFactor q p) =
     walkMap (PathFactor q) (ForEachPathPrimary_PathPrimary onElementPattern p)"
| "ForEachPathPrimary onElementPattern (PathPatternExpression ts oper) =
     walkMap (\<lambda>ts'. PathPatternExpression ts' oper)
       (walkAll (map walkAll (map (map (ForEachPathPrimary_PathFactor onElementPattern)) ts)))"

text \<open>\<open>variant_switch\<close> on an element pattern: its filler, and the pattern with another filler.\<close>

definition fillerOf :: "ElementPattern \<Rightarrow> ElementPatternFiller" where
  "fillerOf e = (case e of NodePattern f \<Rightarrow> f | EdgePattern f \<Rightarrow> f)"

definition withFiller :: "ElementPattern \<Rightarrow> ElementPatternFiller \<Rightarrow> ElementPattern" where
  "withFiller e f = (case e of NodePattern _ \<Rightarrow> NodePattern f | EdgePattern _ \<Rightarrow> EdgePattern f)"

text \<open>
  The node that both rewriters build: a default-constructed parenthesized path pattern
  expression (no subpath variable, path mode WALK) whose pattern has one term of one
  unquantified factor, the element pattern, and whose \<open>where\<close> holds the condition. The
  operator of a default-constructed pattern is set in \<open>gql/ast/ast.h\<close>; the first operator of
  the specification's data model is taken (with one term the operator is read nowhere).
  \<open>SetInputPositionRecursive\<close> touches only nodes without an input position, which the nodes
  that come from the parser are not: it changes no declaration of the tree.
\<close>

definition parenthesized :: "ElementPattern \<Rightarrow> ValueExpression \<Rightarrow> PathPrimary" where
  "parenthesized e cond =
     ParenthesizedPathPatternExpression None WALK
       (PathPatternExpression [[PathFactor NoQuantifier (ElementPatternPrimary e)]] Concat)
       (Some cond)"

text \<open>The visitor of \<open>RewriteElementPatternWhereClause\<close> on an element pattern.\<close>

definition liftWhereClause :: "ElementPattern \<Rightarrow> PathPrimary" where
  "liftWhereClause e =
     (case predicate (fillerOf e) of
        Some (ElementPatternWhereClause cond) \<Rightarrow>
          parenthesized
            (withFiller e (ElementPatternFiller (var (fillerOf e)) (labelExpr (fillerOf e)) None))
            cond
      | _ \<Rightarrow> ElementPatternPrimary e)"

text \<open>
  \<open>RewriteElementPatternWhereClause\<close>. The program is represented by the path pattern
  expression of its \<open>MATCH\<close>. The visitor captures nothing.
\<close>

definition RewriteElementPatternWhereClause :: "PathPatternExpression \<Rightarrow> PathPatternExpression" where
  "RewriteElementPatternWhereClause program =
     fst (ForEachPathPrimary (\<lambda>e. walkReturn (liftWhereClause e)) program ())"

text \<open>\<open>fmt::format("{}", n)\<close> for a number that is not negative: its decimal digits.\<close>

fun decimal :: "nat \<Rightarrow> string" where
  "decimal n =
     (if n < 10 then [char_of (48 + n)] else decimal (n div 10) @ [char_of (48 + n mod 10)])"

text \<open>
  The lambda \<open>generateId\<close>. The state is \<open>lastGeneratedId\<close>, a C++ \<open>int\<close> that starts at 0
  in every call of the rewriter; the model does not bound it (it leaves the range of \<open>int\<close>
  only after \<open>2^31 - 1\<close> generated names in one program).
\<close>

definition generateId :: "(string, int) walk" where
  "generateId lastGeneratedId =
     (''gql_gen_prop'' @ decimal (nat (lastGeneratedId + 1)), lastGeneratedId + 1)"

text \<open>One comparison \<open>v.p = value\<close> of the condition.\<close>

definition propertyEquals :: "string \<Rightarrow> string \<times> ValueExpression \<Rightarrow> ValueExpression" where
  "propertyEquals v prop =
     Comparison Equals (PropertyReference (BindingVariableReference v) (fst prop)) (snd prop)"

text \<open>
  The loop over the properties: the first comparison is the condition, every later one is
  joined to the right of the condition so far. Without a property the condition stays the
  default-constructed value expression, which \<open>gql/ast/ast.h\<close> determines; it is the
  parameter \<open>defaultExpression\<close>.
\<close>

definition conjunction ::
  "ValueExpression \<Rightarrow> string \<Rightarrow> (string \<times> ValueExpression) list \<Rightarrow> ValueExpression" where
  "conjunction defaultExpression v props =
     (case props of
        [] \<Rightarrow> defaultExpression
      | prop # rest \<Rightarrow>
          foldl (\<lambda>expr prop'. Binary BoolAnd expr (propertyEquals v prop'))
            (propertyEquals v prop) rest)"

text \<open>
  The visitor of \<open>RewriteElementPropertyPredicate\<close> on an element pattern. \<open>inputPosition\<close>
  stands for \<open>value.inputPosition()\<close> of the element pattern, which the model's AST does not
  hold: the generated declaration gets it.
\<close>

definition liftPropertySpecification ::
  "(ElementPattern \<Rightarrow> InputPosition) \<Rightarrow> ValueExpression \<Rightarrow> ElementPattern \<Rightarrow>
   (PathPrimary, int) walk" where
  "liftPropertySpecification inputPosition defaultExpression e lastGeneratedId =
     (case predicate (fillerOf e) of
        Some (ElementPropertySpecification props) \<Rightarrow>
          (let (declaration, lastGeneratedId') =
                 (case var (fillerOf e) of
                    None \<Rightarrow>
                      (let (name, n) = generateId lastGeneratedId
                       in (\<lparr>varName = name, varIsTemp = True, varPosition = inputPosition e\<rparr>,
                           n))
                  | Some v \<Rightarrow> (v, lastGeneratedId))
           in (parenthesized
                 (withFiller e
                    (ElementPatternFiller (Some declaration) (labelExpr (fillerOf e)) None))
                 (conjunction defaultExpression (varName declaration) props),
               lastGeneratedId'))
      | _ \<Rightarrow> (ElementPatternPrimary e, lastGeneratedId))"

definition RewriteElementPropertyPredicate ::
  "(ElementPattern \<Rightarrow> InputPosition) \<Rightarrow> ValueExpression \<Rightarrow> PathPatternExpression \<Rightarrow>
   PathPatternExpression" where
  "RewriteElementPropertyPredicate inputPosition defaultExpression program =
     fst (ForEachPathPrimary (liftPropertySpecification inputPosition defaultExpression) program 0)"

section \<open>Concrete states and patterns used as test inputs\<close>

text \<open>
  The state inside a bounded quantified path primary of a non-selective path pattern, as in
  \<open>MATCH ((...)+){1,2}\<close> when the analyzer reaches the inner quantifier: a fresh context, then
  \<open>EnterPathPattern(false)\<close> and \<open>EnterQuantifiedPathPrimary(node, true)\<close>.
\<close>

definition stateInsideQuantifier :: GraphPatternContext where
  "stateInsideQuantifier =
     (EnterPathPattern False (newGraphPatternContext False))
       \<lparr>isInsideQuantifiedPathPrimary := True,
        expectingLeftBoundaryVariable := False,
        minimumPathLength := [0, 0],
        nonZeroNodeCount := [False, False, False],
        exposedVariables := [[], [], [], []]\<rparr>"

text \<open>An exposed variable of the given kind and degree, with no position and no flags.\<close>

definition exposedAs :: "GraphPatternVariableType \<Rightarrow> VariableDegreeOfExposure \<Rightarrow> ExposedVariable" where
  "exposedAs ty d =
     \<lparr>type = ty, declarationPosition = None, isTemp = False, degree = d,
      isStrictInterior = False\<rparr>"

text \<open>
  What \<open>ExitPathPatternUnionOperand\<close> reads when the analyzer leaves the second operand of
  \<open>MATCH ((a)-[b]->){1,2} | (c)\<close>: the operand exposes \<open>c\<close>, the union so far exposes \<open>a\<close> and
  \<open>b\<close> as effectively bounded groups, one operand has been recorded.
\<close>

definition stateLeavingSecondOperand :: GraphPatternContext where
  "stateLeavingSecondOperand =
     (newGraphPatternContext False)
       \<lparr>exposedVariables :=
          [[(''c'', exposedAs Node UnconditionalSingleton)],
           [(''a'', exposedAs Node EffectivelyBoundedGroup),
            (''b'', exposedAs Edge EffectivelyBoundedGroup)],
           [], [], []],
        minimumPathLength := [0, 1, 0],
        nonZeroNodeCount := [True, True, False, False],
        declarationsInUnions := [[(''c'', 1)], [(''a'', 1), (''b'', 1)]],
        pathPatternUnion :=
          [\<lparr>indexOfFirstSearchConditionScopeInOperands = [0, 0],
            declarationsInOperands = [[(''a'', 1), (''b'', 1)]]\<rparr>]\<rparr>"






text \<open>
  A context in which the name \<open>x\<close> is a field of the working record and is recorded as
  inaccessible as well.
\<close>

definition contextWithShadowedName :: "nat ExecutionContext" where
  "contextWithShadowedName =
     \<lparr>workingRecord = [(''x'', 7)], workingTable = [],
      contextInaccessibleVariables = [(''x'', ReferenceToTheAdjacentUnionOperand)]\<rparr>"

text \<open>
  The context of a condition in the first operand of \<open>MATCH ((a)-[b]->(c) WHERE ...) | (a)-[d]->(e)\<close>
  when \<open>d\<close> and \<open>e\<close> are kept out of the working record and recorded as declared in the adjacent
  operand; \<open>t\<close> is a field of the working table only.
\<close>

definition contextInFirstOperand :: "nat ExecutionContext" where
  "contextInFirstOperand =
     \<lparr>workingRecord = [(''a'', 1), (''b'', 2), (''c'', 1)],
      workingTable = [(''t'', 3)],
      contextInaccessibleVariables =
        [(''d'', ReferenceToTheAdjacentUnionOperand),
         (''e'', ReferenceToTheAdjacentUnionOperand)]\<rparr>"



text \<open>Patterns, written as the parser and the rewriters deliver them.\<close>

definition nodeNamed :: "string \<Rightarrow> PathFactor" where
  "nodeNamed n =
     PathFactor NoQuantifier
       (ElementPatternPrimary
          (NodePattern
             (ElementPatternFiller (Some \<lparr>varName = n, varIsTemp = False, varPosition = None\<rparr>)
                None None)))"

definition edgeNamed :: "string \<Rightarrow> PathFactor" where
  "edgeNamed n =
     PathFactor NoQuantifier
       (ElementPatternPrimary
          (EdgePattern
             (ElementPatternFiller (Some \<lparr>varName = n, varIsTemp = False, varPosition = None\<rparr>)
                None None)))"

text \<open>\<open>MATCH (a) (-[b]->) (a)\<close>, the third scenario of the specification.\<close>

definition patternRepeatedNode :: PathPatternExpression where
  "patternRepeatedNode =
     PathPatternExpression
       [[nodeNamed ''a'',
         PathFactor NoQuantifier
           (ParenthesizedPathPatternExpression None WALK
              (PathPatternExpression [[edgeNamed ''b'']] Concat) None),
         nodeNamed ''a'']]
       Concat"

text \<open>\<open>MATCH ((a)-[b]->){2,3}\<close>, the fourth scenario of the specification.\<close>

definition patternQuantified :: PathPatternExpression where
  "patternQuantified =
     PathPatternExpression
       [[PathFactor (GraphPatternQuantifier 2 (Some 3))
           (ParenthesizedPathPatternExpression None WALK
              (PathPatternExpression [[nodeNamed ''a'', edgeNamed ''b'']] Concat) None)]]
       Concat"

text \<open>
  \<open>MATCH ((TEMP gql_gen_prop1) WHERE gql_gen_prop1.prop = 3)\<close>, the second scenario of the
  specification after the rewrite.
\<close>

definition patternTemporary :: PathPatternExpression where
  "patternTemporary =
     PathPatternExpression
       [[PathFactor NoQuantifier
           (ParenthesizedPathPatternExpression None WALK
              (PathPatternExpression
                 [[PathFactor NoQuantifier
                     (ElementPatternPrimary
                        (NodePattern
                           (ElementPatternFiller
                              (Some \<lparr>varName = ''gql_gen_prop1'', varIsTemp = True,
                                     varPosition = None\<rparr>)
                              None None)))]]
                 Concat)
              (Some (Comparison Equals
                       (PropertyReference (BindingVariableReference ''gql_gen_prop1'') ''prop'')
                       (OtherValueExpression ''3''))))]]
       Concat"

text \<open>The analyzer's state when it enters the path pattern expression of a \<open>MATCH\<close>.\<close>

definition stateEnteringPattern :: GraphPatternContext where
  "stateEnteringPattern = EnterPathPattern False (newGraphPatternContext False)"

text \<open>An implementation that supports every optional feature.\<close>

definition allFeatures :: "Feature \<Rightarrow> bool" where
  "allFeatures f = True"


text \<open>The names in the \<open>declaredVariables\<close> map of every auxiliary record, in creation order.\<close>

definition declaredNames :: "GraphPatternContext \<Rightarrow> string list list" where
  "declaredNames s = map (\<lambda>r. map fst (declaredVariables r)) (auxStore s)"

text \<open>The \<open>isTemp\<close> flags in the \<open>declaredVariables\<close> map of every auxiliary record.\<close>

definition declaredTemporary :: "GraphPatternContext \<Rightarrow> (string \<times> bool) list list" where
  "declaredTemporary s =
     map (\<lambda>r. map (\<lambda>e. (fst e, auxIsTemp (snd e))) (declaredVariables r)) (auxStore s)"

text \<open>The names in every frame of \<open>exposedVariables_\<close>, the top frame first.\<close>

definition exposedNames :: "GraphPatternContext \<Rightarrow> string list list" where
  "exposedNames s = map (map fst) (exposedVariables s)"

text \<open>
  The analyzer's state when it reaches the first element pattern of a path pattern: the
  record of the enclosing path factor is the current variable reference scope.
\<close>

definition stateEnteringFactor :: GraphPatternContext where
  "stateEnteringFactor = snd (VariableReferenceScope_enter stateEnteringPattern)"

text \<open>
  Programs for the rewriters. No node of them has an input position.
\<close>

definition unpositioned :: "ElementPattern \<Rightarrow> InputPosition" where
  "unpositioned e = None"

definition match :: "ElementPattern \<Rightarrow> PathPatternExpression" where
  "match e = PathPatternExpression [[PathFactor NoQuantifier (ElementPatternPrimary e)]] Concat"

text \<open>\<open>MATCH ((e) WHERE cond)\<close>: a pattern whose element pattern has been lifted.\<close>

definition matchLifted :: "ElementPattern \<Rightarrow> ValueExpression \<Rightarrow> PathPatternExpression" where
  "matchLifted e cond =
     PathPatternExpression
       [[PathFactor NoQuantifier
           (ParenthesizedPathPatternExpression None WALK (match e) (Some cond))]]
       Concat"

definition declared :: "string \<Rightarrow> ElementVariableDeclaration" where
  "declared n = \<lparr>varName = n, varIsTemp = False, varPosition = None\<rparr>"

text \<open>The node patterns \<open>(n)\<close>, \<open>(n WHERE cond)\<close> and \<open>(n {props})\<close>.\<close>

definition node :: "string \<Rightarrow> ElementPattern" where
  "node n = NodePattern (ElementPatternFiller (Some (declared n)) None None)"

definition nodeWhere :: "string \<Rightarrow> ValueExpression \<Rightarrow> ElementPattern" where
  "nodeWhere n cond =
     NodePattern (ElementPatternFiller (Some (declared n)) None
       (Some (ElementPatternWhereClause cond)))"

definition nodeProperties :: "string \<Rightarrow> (string \<times> ValueExpression) list \<Rightarrow> ElementPattern" where
  "nodeProperties n props =
     NodePattern (ElementPatternFiller (Some (declared n)) None
       (Some (ElementPropertySpecification props)))"

text \<open>The expressions \<open>v.p\<close> and \<open>v.p = value\<close>.\<close>

definition property :: "string \<Rightarrow> string \<Rightarrow> ValueExpression" where
  "property v p = PropertyReference (BindingVariableReference v) p"

definition propertyIs :: "string \<Rightarrow> string \<Rightarrow> ValueExpression \<Rightarrow> ValueExpression" where
  "propertyIs v p value = Comparison Equals (property v p) value"

text \<open>\<open>MATCH ({prop:3})\<close>, a case of rewrite_unittest.cpp.\<close>

definition programAnonymousProperty :: PathPatternExpression where
  "programAnonymousProperty =
     match (NodePattern (ElementPatternFiller None None
       (Some (ElementPropertySpecification [(''prop'', OtherValueExpression ''3'')]))))"

text \<open>\<open>MATCH (a {prop1:x.p1, prop2:y.p2, prop3:z.p3})\<close>, a case of rewrite_unittest.cpp.\<close>

definition programThreeProperties :: PathPatternExpression where
  "programThreeProperties =
     match (nodeProperties ''a''
       [(''prop1'', property ''x'' ''p1''), (''prop2'', property ''y'' ''p2''),
        (''prop3'', property ''z'' ''p3'')])"

text \<open>\<open>MATCH (a {p: EXISTS {MATCH (b {q: 1})}})\<close>.\<close>

definition programNestedProperty :: PathPatternExpression where
  "programNestedProperty =
     match (nodeProperties ''a''
       [(''p'', ExistsPredicate
                 (match (nodeProperties ''b'' [(''q'', OtherValueExpression ''1'')])))])"

text \<open>\<open>MATCH (a WHERE EXISTS {MATCH (b WHERE b.x = 1)})\<close>.\<close>

definition programNestedWhere :: PathPatternExpression where
  "programNestedWhere =
     match (nodeWhere ''a''
       (ExistsPredicate
          (match (nodeWhere ''b'' (propertyIs ''b'' ''x'' (OtherValueExpression ''1''))))))"

section \<open>Notions used in the statements and proofs\<close>

text \<open>
  The entry that \<open>ExitPathPatternUnionOperand\<close> leaves in the union's frame for a name that
  the operand exposes as \<open>v\<close>, given the entry the union had before (if any).
\<close>

definition mergedEntry :: "bool \<Rightarrow> ExposedVariable \<Rightarrow> ExposedVariable option \<Rightarrow> ExposedVariable" where
  "mergedEntry firstOperand v e =
     (case e of
        None \<Rightarrow> if \<not> firstOperand \<and> degree v = UnconditionalSingleton
                then v\<lparr>degree := ConditionalSingleton\<rparr> else v
      | Some existing \<Rightarrow> existing\<lparr>degree := mergedDegree (degree v) (degree existing)\<rparr>)"

text \<open>The variable as \<open>ExitQuantifiedPathPrimary\<close> exposes it to the enclosing frame.\<close>

definition quantified :: "bool \<Rightarrow> bool \<Rightarrow> ExposedVariable \<Rightarrow> ExposedVariable" where
  "quantified bounded restrictive v =
     v\<lparr>degree := (if degree v \<noteq> EffectivelyUnboundedGroup
                   then (if bounded \<or> restrictive then EffectivelyBoundedGroup
                         else EffectivelyUnboundedGroup)
                   else EffectivelyUnboundedGroup)\<rparr>"

text \<open>The part of \<open>ExitQuantifiedPathPrimary\<close> that follows the loop over the variables.\<close>

definition afterQuantifiedLoop :: "int \<Rightarrow> GraphPatternContext \<Rightarrow> failure + GraphPatternContext" where
  "afterQuantifiedLoop lowerBound s1 =
     (let s2 = s1\<lparr>possibleRightBoundaryVariable := None\<rparr> in
      (case minimumPathLength s2 of
         [] \<Rightarrow> Inl UndefinedBehaviour
       | m # ms \<Rightarrow>
           if m = 0 then Inl (Thrown E0006)
           else (case ms of
                   [] \<Rightarrow> Inl UndefinedBehaviour
                 | outer # ms' \<Rightarrow>
                     andThen (checkedInt (m * lowerBound)) (\<lambda>product.
                     andThen (checkedInt (outer + product)) (\<lambda>total.
                       (case nonZeroNodeCount s2 of
                          nz # nzOuter # nzs \<Rightarrow>
                            Inr (s2\<lparr>minimumPathLength := total # ms',
                                     nonZeroNodeCount :=
                                       (nzOuter \<or> (nz \<and> lowerBound > 0)) # nzs\<rparr>)
                        | _ \<Rightarrow> Inl UndefinedBehaviour))))))"

text \<open>
  The two halves of \<open>ExitPathPattern\<close>: what it does for a selective pattern first, and what
  it does for every pattern.
\<close>

definition selectivePrologue :: "GraphPatternContext \<Rightarrow> failure + GraphPatternContext" where
  "selectivePrologue s =
     (case exposedVariables s of
        [] \<Rightarrow> Inl UndefinedBehaviour
      | topFrame # _ \<Rightarrow>
          andThen (ExitVariableScope s) (\<lambda>s1.
            let s2 = s1\<lparr>searchConditionScopes :=
                       setScopeFrom (indexOfFirstSearchConditionScopeInPathPattern s1)
                         (map fst topFrame) (searchConditionScopes s1)\<rparr>
            in (case exposedVariables s2 of
                  [] \<Rightarrow> Inl UndefinedBehaviour
                | frame # rest \<Rightarrow>
                    Inr (s2\<lparr>exposedVariables :=
                      map (markStrictInterior (leftBoundaryVariable s2)
                             (possibleRightBoundaryVariable s2)) frame # rest\<rparr>))))"

definition exposeUpward ::
  "GraphPatternContext \<Rightarrow> failure + (PathPatternAuxData \<times> GraphPatternContext)" where
  "exposeUpward s3 =
     (case exposedVariables s3 of
        [] \<Rightarrow> Inl UndefinedBehaviour
      | localExposedVariables # rest \<Rightarrow>
          andThen
            (forEach (\<lambda>v. ExposeVariable (fst v) (boundedOnExit (snd v)))
               localExposedVariables (s3\<lparr>exposedVariables := rest\<rparr>))
            (\<lambda>s4. case nonZeroNodeCount s4 of
                     [] \<Rightarrow> Inl UndefinedBehaviour
                   | nz # nzs \<Rightarrow>
                       if \<not> nz then Inl (Thrown E0109)
                       else Inr (\<lparr>joinableVariables =
                                   map fst (filter (\<lambda>v. degree (snd v) =
                                     UnconditionalSingleton) localExposedVariables)\<rparr>,
                                 s4\<lparr>nonZeroNodeCount := nzs\<rparr>)))"

text \<open>
  The invariant behind C6 and C10. \<open>auxKeys\<close> are the names that occur in some
  \<open>declaredVariables\<close> map; an entry is plain when it is a Node or Edge entry with
  \<open>isTemp = false\<close>; an exposed variable is declared when it is not an element variable or
  its name is among the keys.
\<close>

definition auxKeys :: "PathVariableReferenceScopeAuxData list \<Rightarrow> string set" where
  "auxKeys store = (\<Union>r \<in> set store. fst ` set (declaredVariables r))"

definition isElement :: "GraphPatternVariableType \<Rightarrow> bool" where
  "isElement t = (t = Node \<or> t = Edge)"

definition plainEntries :: "PathVariableReferenceScopeAuxData list \<Rightarrow> bool" where
  "plainEntries store =
     (\<forall>r \<in> set store. \<forall>e \<in> set (declaredVariables r).
        \<not> auxIsTemp (snd e) \<and> isElement (auxType (snd e)))"

definition declaredIn ::
  "PathVariableReferenceScopeAuxData list \<Rightarrow> string \<times> ExposedVariable \<Rightarrow> bool" where
  "declaredIn store v = (isElement (type (snd v)) \<longrightarrow> fst v \<in> auxKeys store)"

definition wellDeclared :: "GraphPatternContext \<Rightarrow> bool" where
  "wellDeclared s =
     (plainEntries (auxStore s) \<and>
      (\<forall>frame \<in> set (exposedVariables s). \<forall>v \<in> set frame. declaredIn (auxStore s) v))"

definition sameKind :: "string \<times> ExposedVariable \<Rightarrow> string \<times> ExposedVariable \<Rightarrow> bool" where
  "sameKind w w0 = (fst w = fst w0 \<and> type (snd w) = type (snd w0))"

text \<open>An analysis step keeps the invariant when every normal return from a good state is good.\<close>

definition preserving :: "analysis \<Rightarrow> bool" where
  "preserving f = (\<forall>s s'. f s = Inr s' \<longrightarrow> wellDeclared s \<longrightarrow> wellDeclared s')"

text \<open>The parts of \<open>DeclareVariable\<close> before and after the call of \<open>ExposeNewVariable\<close>.\<close>

definition recordDeclaration ::
  "string \<Rightarrow> InputPosition \<Rightarrow> GraphPatternVariableType \<Rightarrow> GraphPatternContext \<Rightarrow>
   failure + GraphPatternContext" where
  "recordDeclaration name pos ty s =
     (let s1 = (if lastVariableDeclarationPosition s = None
                then s\<lparr>lastVariableDeclarationPosition := pos\<rparr> else s)
      in (case map_of (variableDeclarations s1) name of
            None \<Rightarrow>
              Inr (s1\<lparr>variableDeclarations := variableDeclarations s1 @
                [(name, \<lparr>declType = ty,
                          declarationOrder = int (length (variableDeclarations s1)),
                          firstDeclarationPosition = pos\<rparr>)]\<rparr>)
          | Some d \<Rightarrow>
              if declType d \<noteq> ty then Inl (Thrown E0001)
              else (case ty of
                      Path \<Rightarrow> Inl (Thrown E0002)
                    | Subpath \<Rightarrow> Inl (Thrown E0003)
                    | Node \<Rightarrow> Inr s1
                    | Edge \<Rightarrow> Inr s1)))"

definition countDeclaration :: "string \<Rightarrow> GraphPatternContext \<Rightarrow> failure + GraphPatternContext" where
  "countDeclaration name s3 =
     (case declarationsInUnions s3 of
        [] \<Rightarrow> Inl UndefinedBehaviour
      | d # ds \<Rightarrow> Inr (s3\<lparr>declarationsInUnions := addCount name 1 d # ds\<rparr>))"

text \<open>
  \<open>ensures m P\<close>: if the fallible computation \<open>m\<close> returns normally, its result satisfies
  \<open>P\<close>. It lets a property of a result be read off the nested \<open>case\<close> and \<open>if\<close> of an
  operation without inverting the equation \<open>m = Inr t\<close>.
\<close>

definition ensures :: "failure + 'a \<Rightarrow> ('a \<Rightarrow> bool) \<Rightarrow> bool" where
  "ensures m P = (case m of Inl e \<Rightarrow> True | Inr t \<Rightarrow> P t)"

text \<open>
  The element patterns that the walk of \<open>ForEachPathPrimary\<close> calls the visitor on: those
  that are not below another element pattern.
\<close>

definition optionList :: "'a list option \<Rightarrow> 'a list" where
  "optionList xs = (case xs of None \<Rightarrow> [] | Some ys \<Rightarrow> ys)"

primrec reached_ValueExpression :: "ValueExpression \<Rightarrow> ElementPattern list"
  and reached_PathPrimary :: "PathPrimary \<Rightarrow> ElementPattern list"
  and reached_PathFactor :: "PathFactor \<Rightarrow> ElementPattern list"
  and reachedElementPatterns :: "PathPatternExpression \<Rightarrow> ElementPattern list" where
  "reached_ValueExpression (BindingVariableReference n) = []"
| "reached_ValueExpression (PropertyReference element p) = reached_ValueExpression element"
| "reached_ValueExpression (Comparison c l r) =
     reached_ValueExpression l @ reached_ValueExpression r"
| "reached_ValueExpression (Binary b l r) =
     reached_ValueExpression l @ reached_ValueExpression r"
| "reached_ValueExpression (ExistsPredicate pat) = reachedElementPatterns pat"
| "reached_ValueExpression (OtherValueExpression x) = []"
| "reached_PathPrimary (ElementPatternPrimary e) = [e]"
| "reached_PathPrimary (ParenthesizedPathPatternExpression v mode pat w) =
     reachedElementPatterns pat @ optionList (map_option reached_ValueExpression w)"
| "reached_PathPrimary SimplifiedPathPatternExpression = []"
| "reached_PathFactor (PathFactor q p) = reached_PathPrimary p"
| "reachedElementPatterns (PathPatternExpression ts oper) =
     concat (map concat (map (map reached_PathFactor) ts))"

text \<open>A value expression without a path pattern inside, and a predicate without one.\<close>

primrec patternFree :: "ValueExpression \<Rightarrow> bool" where
  "patternFree (BindingVariableReference n) = True"
| "patternFree (PropertyReference element p) = patternFree element"
| "patternFree (Comparison c l r) = (patternFree l \<and> patternFree r)"
| "patternFree (Binary b l r) = (patternFree l \<and> patternFree r)"
| "patternFree (ExistsPredicate pat) = False"
| "patternFree (OtherValueExpression x) = True"

definition predicatePatternFree :: "ValueExpression ElementPatternPredicate option \<Rightarrow> bool" where
  "predicatePatternFree p =
     (case p of
        None \<Rightarrow> True
      | Some (ElementPatternWhereClause cond) \<Rightarrow> patternFree cond
      | Some (ElementPropertySpecification props) \<Rightarrow> list_all (\<lambda>prop. patternFree (snd prop)) props)"

subsection \<open>The record that a step writes\<close>

text \<open>
  \<open>declaredVariables[name] = entry\<close> in the record at index \<open>p\<close> of the store, and the names that
  a record declares.
\<close>

definition declareIn ::
  "nat \<Rightarrow> string \<Rightarrow> AuxVariable \<Rightarrow> PathVariableReferenceScopeAuxData list \<Rightarrow>
   PathVariableReferenceScopeAuxData list" where
  "declareIn p name entry store =
     store[p := (store ! p)\<lparr>declaredVariables :=
                 AList.update name entry (declaredVariables (store ! p))\<rparr>]"

definition declaredNamesOf :: "PathVariableReferenceScopeAuxData \<Rightarrow> string set" where
  "declaredNamesOf r = fst ` set (declaredVariables r)"

text \<open>
  A step from \<open>u\<close> to \<open>u'\<close> writes only into the record at index \<open>p\<close>: the current variable
  reference scope and the number of records stay, every other record stays, and the record
  at \<open>p\<close> loses no name.
\<close>

definition writesOnly :: "nat \<Rightarrow> GraphPatternContext \<Rightarrow> GraphPatternContext \<Rightarrow> bool" where
  "writesOnly p u u' =
     (currentVariableReferenceScope u' = currentVariableReferenceScope u \<and>
      length (auxStore u') = length (auxStore u) \<and>
      (\<forall>q < length (auxStore u). q \<noteq> p \<longrightarrow> auxStore u' ! q = auxStore u ! q) \<and>
      declaredNamesOf (auxStore u ! p) \<subseteq> declaredNamesOf (auxStore u' ! p))"

text \<open>A step that leaves the records and the current variable reference scope as they are.\<close>

definition keepsRecords :: "GraphPatternContext \<Rightarrow> GraphPatternContext \<Rightarrow> bool" where
  "keepsRecords s t =
     (auxStore t = auxStore s \<and>
      currentVariableReferenceScope t = currentVariableReferenceScope s)"

text \<open>
  A step after which the current variable reference scope is what it was, no record has
  gone or lost a name, and every record that was there and is not the current one is
  unchanged.
\<close>

definition extendsRecords :: "GraphPatternContext \<Rightarrow> GraphPatternContext \<Rightarrow> bool" where
  "extendsRecords s t =
     (currentVariableReferenceScope t = currentVariableReferenceScope s \<and>
      length (auxStore s) \<le> length (auxStore t) \<and>
      (\<forall>k < length (auxStore s).
         (currentVariableReferenceScope s \<noteq> Some k \<longrightarrow> auxStore t ! k = auxStore s ! k) \<and>
         declaredNamesOf (auxStore s ! k) \<subseteq> declaredNamesOf (auxStore t ! k)))"

definition extending :: "analysis \<Rightarrow> bool" where
  "extending f = (\<forall>s t. f s = Inr t \<longrightarrow> extendsRecords s t)"

text \<open>A step that only appends records and restores the current variable reference scope.\<close>

definition appendsRecords :: "GraphPatternContext \<Rightarrow> GraphPatternContext \<Rightarrow> bool" where
  "appendsRecords s t =
     (currentVariableReferenceScope t = currentVariableReferenceScope s \<and>
      take (length (auxStore s)) (auxStore t) = auxStore s)"

definition appending :: "analysis \<Rightarrow> bool" where
  "appending f = (\<forall>s t. f s = Inr t \<longrightarrow> appendsRecords s t)"

text \<open>
  The two \<open>variant_switch\<close> steps of \<open>processFactor\<close> around the analysis of the primary: the
  activation of the scope object of the quantifier, and its destructor.
\<close>

definition enterQuantifier :: "(Feature \<Rightarrow> bool) \<Rightarrow> Quantifier \<Rightarrow> analysis" where
  "enterQuantifier supported q s1 =
     (case q of
        NoQuantifier \<Rightarrow> Inr s1
      | Optional \<Rightarrow> Inr (EnterQuestionedPathPrimary s1)
      | GraphPatternQuantifier lo up \<Rightarrow>
          andThen (ThrowIfFeatureNotSupported supported (if up \<noteq> None then G060 else G061))
            (\<lambda>_. EnterQuantifiedPathPrimary (up \<noteq> None) s1))"

definition exitQuantifier :: "Quantifier \<Rightarrow> analysis" where
  "exitQuantifier q s3 =
     (case q of
        NoQuantifier \<Rightarrow> Inr s3
      | Optional \<Rightarrow> ExitQuestionedPathPrimary s3
      | GraphPatternQuantifier lo up \<Rightarrow>
          ExitQuantifiedPathPrimary (up \<noteq> None) (toInt lo) s3)"

section \<open>Basic facts about the error plumbing\<close>

lemma andThen_Inr [simp]: "andThen (Inr x) f = f x"
  by (simp add: andThen_def)

lemma andThen_Inl [simp]: "andThen (Inl e) f = Inl e"
  by (simp add: andThen_def)

lemma andThen_eq_Inr: "(andThen m f = Inr y) = (\<exists>x. m = Inr x \<and> f x = Inr y)"
  by (cases m) simp_all


lemma ensures_Inl [simp]: "ensures (Inl e) P"
  by (simp add: ensures_def)

lemma ensures_Inr [simp]: "ensures (Inr x) P = P x"
  by (simp add: ensures_def)

lemma ensures_andThen: "ensures (andThen m f) P = ensures m (\<lambda>x. ensures (f x) P)"
  by (cases m) simp_all

lemma ensuresD: "m = Inr t \<Longrightarrow> ensures m P \<Longrightarrow> P t"
  by simp

lemma ensuresI: "(\<And>t. m = Inr t \<Longrightarrow> P t) \<Longrightarrow> ensures m P"
  by (cases m) simp_all

subsection \<open>What a successful exposure does to the state\<close>

lemma ExposeVariable_Inr:
  assumes "ExposeVariable n v s = Inr s'"
  obtains (fresh) cur rest where "exposedVariables s = cur # rest" "map_of cur n = None"
      "s' = s\<lparr>exposedVariables := (cur @ [(n, v)]) # rest\<rparr>"
  | (again) cur rest e where "exposedVariables s = cur # rest" "map_of cur n = Some e"
      "degree v = UnconditionalSingleton" "degree e = UnconditionalSingleton"
      "\<not> isStrictInterior v" "\<not> isStrictInterior e" "s' = s"
  using assms
  by (auto simp add: ExposeVariable_def split: list.splits option.splits if_splits)




lemma case_list_eq_Inr:
  "(case_list (Inl e) f xs = Inr r) = (\<exists>x ys. xs = x # ys \<and> f x ys = Inr r)"
  by (cases xs) auto




lemma not_isl_obtain: "\<not> isl x \<Longrightarrow> \<exists>y. x = Inr y"
  by (cases x) simp_all


section \<open>The invariant of the declaredVariables maps\<close>

lemma forEach_preserves:
  assumes step: "\<And>x s s'. x \<in> set xs \<Longrightarrow> f x s = Inr s' \<Longrightarrow> I s \<Longrightarrow> I s'"
    and run: "forEach f xs s = Inr s'"
    and start: "I s"
  shows "I s'"
  using assms
proof (induction xs arbitrary: s)
  case Nil
  then show ?case by simp
next
  case (Cons x xs)
  from Cons.prems(2) obtain s1 where a: "f x s = Inr s1" and b: "forEach f xs s1 = Inr s'"
    by (auto simp add: andThen_eq_Inr)
  have s1: "I s1"
    using Cons.prems(1) [of x s s1] a Cons.prems(3) by simp
  have step': "\<And>y t t'. y \<in> set xs \<Longrightarrow> f y t = Inr t' \<Longrightarrow> I t \<Longrightarrow> I t'"
  proof -
    fix y t t'
    assume "y \<in> set xs" and "f y t = Inr t'" and "I t"
    then show "I t'"
      using Cons.prems(1) [of y t t'] by simp
  qed
  from Cons.IH [OF step' b s1] show ?case
    by simp
qed

lemma wellDeclared_same:
  "exposedVariables s' = exposedVariables s \<Longrightarrow> auxStore s' = auxStore s \<Longrightarrow>
   wellDeclared s' = wellDeclared s"
  by (simp add: wellDeclared_def)

lemma wellDeclared_push:
  "exposedVariables s' = [] # exposedVariables s \<Longrightarrow> auxStore s' = auxStore s \<Longrightarrow>
   wellDeclared s' = wellDeclared s"
  by (simp add: wellDeclared_def)

lemma wellDeclared_pop:
  "exposedVariables s = frame # rest \<Longrightarrow> wellDeclared s \<Longrightarrow>
   wellDeclared (s\<lparr>exposedVariables := rest\<rparr>) \<and> (\<forall>v \<in> set frame. declaredIn (auxStore s) v)"
  by (simp add: wellDeclared_def)

lemma ExposeVariable_wellDeclared:
  assumes run: "ExposeVariable n v s = Inr s'"
    and inv: "wellDeclared s"
    and decl: "declaredIn (auxStore s) (n, v)"
  shows "wellDeclared s' \<and> auxStore s' = auxStore s"
  using run
proof (cases rule: ExposeVariable_Inr)
  case (fresh cur rest)
  with inv decl show ?thesis
    by (auto simp add: wellDeclared_def)
next
  case (again cur rest e)
  with inv show ?thesis by simp
qed

lemma set_AList_update:
  "e \<in> set (AList.update k v al) \<Longrightarrow> e = (k, v) \<or> e \<in> set al"
  by (induction al) (auto split: if_splits)

lemma auxKeys_update:
  assumes "p < length store"
    and "fst ` set (declaredVariables (store ! p)) \<subseteq> fst ` set (declaredVariables r)"
  shows "auxKeys store \<subseteq> auxKeys (store[p := r])"
proof
  fix n
  assume "n \<in> auxKeys store"
  then obtain r0 where "r0 \<in> set store" and n0: "n \<in> fst ` set (declaredVariables r0)"
    unfolding auxKeys_def by blast
  then obtain q where q: "q < length store" and "store ! q = r0"
    unfolding in_set_conv_nth by blast
  with n0 have n: "n \<in> fst ` set (declaredVariables (store ! q))"
    by simp
  show "n \<in> auxKeys (store[p := r])"
  proof (cases "q = p")
    case True
    with n assms have "n \<in> fst ` set (declaredVariables r)" by blast
    moreover have "r \<in> set (store[p := r])"
      using assms(1) by (simp add: set_update_memI)
    ultimately show ?thesis
      by (auto simp add: auxKeys_def)
  next
    case False
    with q have "store[p := r] ! q = store ! q" and "q < length (store[p := r])"
      by simp_all
    then have "store ! q \<in> set (store[p := r])"
      by (metis nth_mem)
    with n show ?thesis
      by (auto simp add: auxKeys_def)
  qed
qed

lemma ExposeNewVariable_wellDeclared:
  assumes run: "ExposeNewVariable n v s = Inr s'"
    and inv: "wellDeclared s"
  shows "wellDeclared s'"
proof -
  from run obtain s1 where ev: "ExposeVariable n v s = Inr s1"
    and rest: "(if type v = Node \<or> type v = Edge then
         (case currentVariableReferenceScope s1 of
            None \<Rightarrow> Inl UndefinedBehaviour
          | Some p \<Rightarrow>
              if p < length (auxStore s1) then
                Inr (s1\<lparr>auxStore := (auxStore s1)
                  [p := (auxStore s1 ! p)\<lparr>declaredVariables :=
                     AList.update n
                       \<lparr>auxType = type v, degreeOfExposure = degree v, auxIsTemp = False\<rparr>
                       (declaredVariables (auxStore s1 ! p))\<rparr>]\<rparr>)
              else Inl UndefinedBehaviour)
       else Inr s1) = Inr s'"
    by (auto simp add: ExposeNewVariable_def andThen_eq_Inr)
  from ev have frames: "\<forall>frame \<in> set (exposedVariables s1). \<forall>w \<in> set frame.
      w = (n, v) \<or> (\<exists>frame0 \<in> set (exposedVariables s). w \<in> set frame0)"
    and a1: "auxStore s1 = auxStore s"
    by (cases rule: ExposeVariable_Inr; auto)+
  show ?thesis
  proof (cases "type v = Node \<or> type v = Edge")
    case False
    with rest have s': "s' = s1" by simp
    have "declaredIn (auxStore s) (n, v)"
      using False by (simp add: declaredIn_def isElement_def)
    with ExposeVariable_wellDeclared [OF ev inv] show ?thesis
      by (simp add: s')
  next
    case True
    with rest obtain p where p: "p < length (auxStore s1)"
      and s': "s' = s1\<lparr>auxStore := (auxStore s1)
                  [p := (auxStore s1 ! p)\<lparr>declaredVariables :=
                     AList.update n
                       \<lparr>auxType = type v, degreeOfExposure = degree v, auxIsTemp = False\<rparr>
                       (declaredVariables (auxStore s1 ! p))\<rparr>]\<rparr>"
      by (auto split: option.splits if_splits)
    let ?r = "(auxStore s1 ! p)\<lparr>declaredVariables :=
                     AList.update n
                       \<lparr>auxType = type v, degreeOfExposure = degree v, auxIsTemp = False\<rparr>
                       (declaredVariables (auxStore s1 ! p))\<rparr>"
    have store': "auxStore s' = (auxStore s)[p := ?r]"
      by (simp add: s' a1)
    have e': "exposedVariables s' = exposedVariables s1"
      by (simp add: s')
    have keys_r: "fst ` set (declaredVariables ?r) = insert n (fst ` set (declaredVariables (auxStore s ! p)))"
      by (simp add: dom_update a1)
    have grow: "auxKeys (auxStore s) \<subseteq> auxKeys (auxStore s')"
      unfolding store' using p keys_r by (intro auxKeys_update) (auto simp add: a1)
    have nin: "n \<in> auxKeys (auxStore s')"
    proof -
      have m: "?r \<in> set (auxStore s')"
        unfolding store' using p by (simp add: set_update_memI a1)
      have "n \<in> fst ` set (declaredVariables ?r)"
        unfolding keys_r by simp
      with m show ?thesis
        unfolding auxKeys_def by blast
    qed
    have plain: "plainEntries (auxStore s')"
      unfolding plainEntries_def
    proof (intro ballI)
      fix r e
      assume r: "r \<in> set (auxStore s')" and e: "e \<in> set (declaredVariables r)"
      from r have "r = ?r \<or> r \<in> set (auxStore s)"
        unfolding store' using set_update_subset_insert [of "auxStore s" p ?r] by auto
      then show "\<not> auxIsTemp (snd e) \<and> isElement (auxType (snd e))"
      proof
        assume "r = ?r"
        with e have "e \<in> set (AList.update n
                       \<lparr>auxType = type v, degreeOfExposure = degree v, auxIsTemp = False\<rparr>
                       (declaredVariables (auxStore s ! p)))"
          by (simp add: a1)
        then have "e = (n, \<lparr>auxType = type v, degreeOfExposure = degree v, auxIsTemp = False\<rparr>) \<or>
            e \<in> set (declaredVariables (auxStore s ! p))"
          by (rule set_AList_update)
        moreover have "auxStore s ! p \<in> set (auxStore s)"
          using p a1 by simp
        ultimately show ?thesis
          using inv True by (auto simp add: wellDeclared_def plainEntries_def isElement_def)
      next
        assume "r \<in> set (auxStore s)"
        with e inv show ?thesis
          by (auto simp add: wellDeclared_def plainEntries_def)
      qed
    qed
    have declared: "\<forall>frame \<in> set (exposedVariables s'). \<forall>w \<in> set frame. declaredIn (auxStore s') w"
    proof (intro ballI)
      fix frame w
      assume "frame \<in> set (exposedVariables s')" and "w \<in> set frame"
      with frames e' have "w = (n, v) \<or> (\<exists>frame0 \<in> set (exposedVariables s). w \<in> set frame0)"
        by simp
      then show "declaredIn (auxStore s') w"
      proof
        assume "w = (n, v)"
        with nin show ?thesis by (simp add: declaredIn_def)
      next
        assume "\<exists>frame0 \<in> set (exposedVariables s). w \<in> set frame0"
        with inv have "declaredIn (auxStore s) w"
          by (auto simp add: wellDeclared_def)
        with grow show ?thesis
          by (auto simp add: declaredIn_def)
      qed
    qed
    from plain declared show ?thesis
      by (simp add: wellDeclared_def)
  qed
qed

section \<open>C1: leaving a path pattern\<close>

lemma ExitPathPattern_unfold:
  "ExitPathPattern s =
     andThen (if isInsideSelectivePattern s then selectivePrologue s else Inr s) exposeUpward"
  by (simp add: ExitPathPattern_def selectivePrologue_def exposeUpward_def [abs_def])









section \<open>C2: leaving an operand of a path pattern union\<close>

lemma fst_demoteMissing [simp]: "fst (demoteMissing ev v) = fst v"
  by (simp add: demoteMissing_def)

lemma map_of_demoteMissing:
  "map_of (map (demoteMissing ev) U) k =
     map_option (\<lambda>u. if degree u = UnconditionalSingleton \<and> map_of ev k = None
                      then u\<lparr>degree := ConditionalSingleton\<rparr> else u) (map_of U k)"
proof (induction U)
  case Nil
  show ?case by simp
next
  case (Cons p U)
  obtain n u where p: "p = (n, u)" by (cases p)
  show ?case using Cons by (simp add: p demoteMissing_def)
qed

lemma map_of_mergeOperandVariable:
  "map_of (mergeOperandVariable firstOperand v U) k =
     (if k = fst v then Some (mergedEntry firstOperand (snd v) (map_of U k)) else map_of U k)"
  by (cases "map_of U (fst v)")
     (auto simp add: mergeOperandVariable_def mergedEntry_def update_conv' map_add_def
        split: option.splits)

lemma map_of_fold_mergeOperandVariable:
  "distinct (map fst ev) \<Longrightarrow>
   map_of (fold (mergeOperandVariable firstOperand) ev U) k =
     (case map_of ev k of
        None \<Rightarrow> map_of U k
      | Some v \<Rightarrow> Some (mergedEntry firstOperand v (map_of U k)))"
proof (induction ev arbitrary: U)
  case Nil
  show ?case by simp
next
  case (Cons p ev)
  obtain n v where p: "p = (n, v)" by (cases p)
  from Cons.prems have d: "distinct (map fst ev)" and nin: "n \<notin> fst ` set ev"
    by (auto simp add: p)
  have none: "map_of ev n = None"
    using nin by (simp add: map_of_eq_None_iff)
  show ?case
    using Cons.IH [OF d, of "mergeOperandVariable firstOperand p U"] none
    by (auto simp add: p map_of_mergeOperandVariable split: option.splits)
qed

lemma map_of_mergeOperand:
  "distinct (map fst ev) \<Longrightarrow>
   map_of (mergeOperand firstOperand ev U) k =
     (case map_of ev k of
        None \<Rightarrow> map_option (\<lambda>u. if degree u = UnconditionalSingleton
                                then u\<lparr>degree := ConditionalSingleton\<rparr> else u) (map_of U k)
      | Some v \<Rightarrow> Some (mergedEntry firstOperand v (map_of U k)))"
  by (auto simp add: mergeOperand_def map_of_fold_mergeOperandVariable map_of_demoteMissing
      mergedEntry_def split: option.splits)

lemma degree_mergedEntry_Some:
  "degree (mergedEntry b v (Some u)) =
     (if degree v = EffectivelyUnboundedGroup \<or> degree u = EffectivelyUnboundedGroup
      then EffectivelyUnboundedGroup
      else if degree v = EffectivelyBoundedGroup \<or> degree u = EffectivelyBoundedGroup
      then EffectivelyBoundedGroup
      else if degree v = ConditionalSingleton \<or> degree u = ConditionalSingleton
      then ConditionalSingleton
      else UnconditionalSingleton)"
  by (cases "degree u"; cases "degree v") (simp_all add: mergedEntry_def mergedDegree_def)

lemma mergedEntry_Some_update:
  "mergedEntry b v (Some u) = u\<lparr>degree := degree (mergedEntry b v (Some u))\<rparr>"
  by (simp add: mergedEntry_def)

text \<open>
  C2 as stated does not hold: only an unconditional singleton is demoted. When the analyzer
  leaves the second operand of \<open>MATCH ((a)-[b]->){1,2} | (c)\<close>, the union so far exposes \<open>a\<close> as
  an effectively bounded group and the operand does not expose \<open>a\<close>; after the exit \<open>a\<close> is
  still an effectively bounded group, not a conditional singleton.
\<close>

theorem C2_counterexample:
  "map_option degree (map_of (hd (tl (exposedVariables stateLeavingSecondOperand))) ''a'') =
     Some EffectivelyBoundedGroup \<and>
   map_of (hd (exposedVariables stateLeavingSecondOperand)) ''a'' = None \<and>
   \<not> isl (ExitPathPatternUnionOperand stateLeavingSecondOperand) \<and>
   map_option degree
     (map_of (hd (exposedVariables (projr (ExitPathPatternUnionOperand stateLeavingSecondOperand))))
        ''a'') = Some EffectivelyBoundedGroup"
  by (simp add: stateLeavingSecondOperand_def ExitPathPatternUnionOperand_def exposedAs_def
      mergeOperand_def demoteMissing_def mergeOperandVariable_def isFirstOperand_def)

text \<open>
  C2, amended. Leaving a union operand returns normally (the stacks have the frames that the
  enter calls pushed). In the union's frame afterwards:
  a variable of the union so far that the operand does not expose is demoted to
  ConditionalSingleton if it was an UnconditionalSingleton and keeps its degree otherwise;
  a variable that only the operand exposes is demoted to ConditionalSingleton if it is an
  UnconditionalSingleton and the operand is not the first, and keeps its degree otherwise;
  a name on both sides gets EffectivelyUnboundedGroup if either side has it, else
  EffectivelyBoundedGroup if either side has it, else ConditionalSingleton if either side has
  it, else UnconditionalSingleton; no other name appears.
  The outer minimum path length becomes the minimum of the outer and the operand's value, the
  outer nonZeroNodeCount the conjunction of both.
\<close>

theorem C2_union_operand_exit:
  assumes frames: "exposedVariables s = operandVars # unionVars # frames"
    and lengths: "minimumPathLength s = m # outer # ms"
    and counts: "nonZeroNodeCount s = nz # nzOuter # nzs"
    and unions: "pathPatternUnion s = currentUnion # unions"
    and decls: "declarationsInUnions s = d # dOuter # ds"
    and keys: "distinct (map fst operandVars)"
  shows "\<exists>s' unionVars'.
     ExitPathPatternUnionOperand s = Inr s' \<and>
     exposedVariables s' = unionVars' # frames \<and>
     (\<forall>n u. map_of unionVars n = Some u \<and> map_of operandVars n = None \<longrightarrow>
        map_of unionVars' n =
          Some (if degree u = UnconditionalSingleton
                then u\<lparr>degree := ConditionalSingleton\<rparr> else u)) \<and>
     (\<forall>n v. map_of operandVars n = Some v \<and> map_of unionVars n = None \<longrightarrow>
        map_of unionVars' n =
          Some (if \<not> isFirstOperand currentUnion \<and> degree v = UnconditionalSingleton
                then v\<lparr>degree := ConditionalSingleton\<rparr> else v)) \<and>
     (\<forall>n v u. map_of operandVars n = Some v \<and> map_of unionVars n = Some u \<longrightarrow>
        map_of unionVars' n =
          Some (u\<lparr>degree :=
            (if degree v = EffectivelyUnboundedGroup \<or> degree u = EffectivelyUnboundedGroup
             then EffectivelyUnboundedGroup
             else if degree v = EffectivelyBoundedGroup \<or> degree u = EffectivelyBoundedGroup
             then EffectivelyBoundedGroup
             else if degree v = ConditionalSingleton \<or> degree u = ConditionalSingleton
             then ConditionalSingleton
             else UnconditionalSingleton)\<rparr>)) \<and>
     (\<forall>n. map_of operandVars n = None \<and> map_of unionVars n = None \<longrightarrow>
        map_of unionVars' n = None) \<and>
     minimumPathLength s' = min outer m # ms \<and>
     nonZeroNodeCount s' = (nzOuter \<and> nz) # nzs"
proof -
  let ?U = "mergeOperand (isFirstOperand currentUnion) operandVars unionVars"
  have run: "ExitPathPatternUnionOperand s =
      Inr (s\<lparr>exposedVariables := ?U # frames,
              minimumPathLength := min outer m # ms,
              nonZeroNodeCount := (nz \<and> nzOuter) # nzs,
              pathPatternUnion :=
                currentUnion
                  \<lparr>indexOfFirstSearchConditionScopeInOperands :=
                     indexOfFirstSearchConditionScopeInOperands currentUnion @
                       [length (searchConditionScopes s)],
                   declarationsInOperands := declarationsInOperands currentUnion @ [d]\<rparr> # unions,
              declarationsInUnions := addCounts d dOuter # ds\<rparr>)"
    by (simp add: ExitPathPatternUnionOperand_def frames lengths counts unions decls)
  show ?thesis
    apply (rule exI [where x = "projr (ExitPathPatternUnionOperand s)"])
    apply (rule exI [where x = ?U])
    apply (simp only: run sum.sel)
    apply (intro conjI allI impI)
           apply simp
          apply simp
         apply (simp add: map_of_mergeOperand [OF keys])
        apply (simp add: map_of_mergeOperand [OF keys] mergedEntry_def)
       apply (subst map_of_mergeOperand [OF keys])
       apply (erule conjE)
       apply (simp only: option.case)
       apply (subst mergedEntry_Some_update)
       apply (simp only: degree_mergedEntry_Some)
      apply (simp add: map_of_mergeOperand [OF keys])
     apply simp
    apply (simp add: conj_commute)
    done
qed

theorem C2_union_operand_exit_witness:
  "\<exists>s'. ExitPathPatternUnionOperand stateLeavingSecondOperand = Inr s' \<and>
     map_of (hd (exposedVariables s')) ''a'' = Some (exposedAs Node EffectivelyBoundedGroup) \<and>
     map_of (hd (exposedVariables s')) ''c'' = Some (exposedAs Node ConditionalSingleton) \<and>
     map_of (hd (exposedVariables s')) ''d'' = None \<and>
     minimumPathLength s' = [0, 0] \<and>
     nonZeroNodeCount s' = [True, False, False]"
proof -
  let ?ov = "[(''c'', exposedAs Node UnconditionalSingleton)]"
  let ?uv = "[(''a'', exposedAs Node EffectivelyBoundedGroup),
              (''b'', exposedAs Edge EffectivelyBoundedGroup)]"
  let ?u = "\<lparr>indexOfFirstSearchConditionScopeInOperands = [0, 0],
             declarationsInOperands = [[(''a'', 1), (''b'', 1)]]\<rparr>"
  have 1: "exposedVariables stateLeavingSecondOperand = ?ov # ?uv # [[], [], []]"
    by (simp add: stateLeavingSecondOperand_def)
  have 2: "minimumPathLength stateLeavingSecondOperand = 0 # 1 # [0]"
    by (simp add: stateLeavingSecondOperand_def)
  have 3: "nonZeroNodeCount stateLeavingSecondOperand = True # True # [False, False]"
    by (simp add: stateLeavingSecondOperand_def)
  have 4: "pathPatternUnion stateLeavingSecondOperand = ?u # []"
    by (simp add: stateLeavingSecondOperand_def)
  have 5: "declarationsInUnions stateLeavingSecondOperand =
      [(''c'', 1)] # [(''a'', 1), (''b'', 1)] # []"
    by (simp add: stateLeavingSecondOperand_def)
  have 6: "distinct (map fst ?ov)"
    by simp
  from C2_union_operand_exit [OF 1 2 3 4 5 6]
  obtain s' U' where run: "ExitPathPatternUnionOperand stateLeavingSecondOperand = Inr s'"
    and fr: "exposedVariables s' = U' # [[], [], []]"
    and a: "\<forall>n u. map_of ?uv n = Some u \<and> map_of ?ov n = None \<longrightarrow>
        map_of U' n = Some (if degree u = UnconditionalSingleton
                            then u\<lparr>degree := ConditionalSingleton\<rparr> else u)"
    and b: "\<forall>n v. map_of ?ov n = Some v \<and> map_of ?uv n = None \<longrightarrow>
        map_of U' n = Some (if \<not> isFirstOperand ?u \<and> degree v = UnconditionalSingleton
                            then v\<lparr>degree := ConditionalSingleton\<rparr> else v)"
    and d: "\<forall>n. map_of ?ov n = None \<and> map_of ?uv n = None \<longrightarrow> map_of U' n = None"
    and ml: "minimumPathLength s' = min 1 0 # [0]"
    and nz: "nonZeroNodeCount s' = (True \<and> True) # [False, False]"
    by blast
  from a [rule_format, of "''a''" "exposedAs Node EffectivelyBoundedGroup"]
  have ra: "map_of U' ''a'' = Some (exposedAs Node EffectivelyBoundedGroup)"
    by (simp add: exposedAs_def)
  from b [rule_format, of "''c''" "exposedAs Node UnconditionalSingleton"]
  have rc: "map_of U' ''c'' = Some (exposedAs Node ConditionalSingleton)"
    by (simp add: exposedAs_def isFirstOperand_def)
  from d [rule_format, of "''d''"]
  have rd: "map_of U' ''d'' = None"
    by simp
  show ?thesis
    using run fr ra rc rd ml nz by simp
qed

section \<open>C3: leaving a quantified path primary\<close>

lemma quantifiedDegree_Inr:
  "quantifiedDegree bounded s v = Inr v' \<Longrightarrow>
   v' = quantified bounded (hd (isRestrictivePathMode s)) v"
  by (auto simp add: quantifiedDegree_def quantified_def IsInsideRestrictiveSearch_def
      andThen_eq_Inr split: if_splits list.splits)

lemma degree_quantified [simp]: "degree (quantified b r v) \<noteq> UnconditionalSingleton"
  by (simp add: quantified_def)






lemma ExitQuantifiedPathPrimary_unfold:
  "exposedVariables s = vars # rest \<Longrightarrow>
   ExitQuantifiedPathPrimary bounded lowerBound s =
     andThen
       (forEach (\<lambda>v st. andThen (quantifiedDegree bounded st (snd v))
                   (\<lambda>v'. ExposeNewVariable (fst v) v' st)) vars
          (s\<lparr>isInsideQuantifiedPathPrimary := False, exposedVariables := rest\<rparr>))
       (afterQuantifiedLoop lowerBound)"
  by (simp add: ExitQuantifiedPathPrimary_def afterQuantifiedLoop_def [abs_def])





section \<open>C4: Finalize and references into an adjacent union operand\<close>









section \<open>C5: the order of the checks in reference resolution\<close>

text \<open>
  C5 as stated (a name recorded as inaccessible always fails with the recorded reason, and
  only otherwise is it looked up) does not hold: \<open>ProcessBindingVariableReference\<close> looks the
  name up in the working record first and consults \<open>inaccessibleVariables\<close> only on a miss. In
  \<open>contextWithShadowedName\<close> the name \<open>x\<close> is recorded as inaccessible and is a field of the
  working record; the reference resolves to the field's type.
\<close>

theorem C5_counterexample:
  "HasField (workingRecord contextWithShadowedName) ''x'' = Some (''x'', 7) \<and>
   map_of (contextInaccessibleVariables contextWithShadowedName) ''x'' =
     Some ReferenceToTheAdjacentUnionOperand \<and>
   ProcessBindingVariableReference ''x'' contextWithShadowedName = Inr 7"
  by (simp add: contextWithShadowedName_def ProcessBindingVariableReference_def HasField_def)

text \<open>
  C5, amended. Resolving a variable reference returns the type of the field whenever the name
  is a field of the working record, and only then. On a miss it fails with the recorded
  reason when the name is in \<open>inaccessibleVariables\<close> (E0051 for an adjacent union operand,
  E0052 for a non-local group-degree reference, E0053 for a reference from a selective path
  pattern); otherwise with E0113 when the name is a field of the working table, and with
  E0054 when it is not.
\<close>

theorem C5_reference_resolution:
  "((\<exists>t. ProcessBindingVariableReference name context = Inr t) =
      (HasField (workingRecord context) name \<noteq> None)) \<and>
   (\<forall>field. HasField (workingRecord context) name = Some field \<longrightarrow>
      ProcessBindingVariableReference name context = Inr (snd field)) \<and>
   ((ProcessBindingVariableReference name context = Inl (Thrown E0051)) =
      (HasField (workingRecord context) name = None \<and>
       map_of (contextInaccessibleVariables context) name =
         Some ReferenceToTheAdjacentUnionOperand)) \<and>
   ((ProcessBindingVariableReference name context = Inl (Thrown E0052)) =
      (HasField (workingRecord context) name = None \<and>
       map_of (contextInaccessibleVariables context) name =
         Some NonLocalReferenceWithGroupDegreeOfReference)) \<and>
   ((ProcessBindingVariableReference name context = Inl (Thrown E0053)) =
      (HasField (workingRecord context) name = None \<and>
       map_of (contextInaccessibleVariables context) name =
         Some ReferenceFromSelectivePathPattern)) \<and>
   ((ProcessBindingVariableReference name context = Inl (Thrown E0113)) =
      (HasField (workingRecord context) name = None \<and>
       map_of (contextInaccessibleVariables context) name = None \<and>
       HasField (workingTable context) name \<noteq> None)) \<and>
   ((ProcessBindingVariableReference name context = Inl (Thrown E0054)) =
      (HasField (workingRecord context) name = None \<and>
       map_of (contextInaccessibleVariables context) name = None \<and>
       HasField (workingTable context) name = None))"
  by (cases "HasField (workingRecord context) name";
      cases "map_of (contextInaccessibleVariables context) name";
      cases "HasField (workingTable context) name")
     (simp_all add: ProcessBindingVariableReference_def split: InaccessibleReason.splits)

theorem C5_reference_resolution_witness:
  "ProcessBindingVariableReference ''a'' contextInFirstOperand = Inr 1 \<and>
   ProcessBindingVariableReference ''d'' contextInFirstOperand = Inl (Thrown E0051) \<and>
   ProcessBindingVariableReference ''t'' contextInFirstOperand = Inl (Thrown E0113) \<and>
   ProcessBindingVariableReference ''z'' contextInFirstOperand = Inl (Thrown E0054)"
proof -
  have a: "HasField (workingRecord contextInFirstOperand) ''a'' = Some (''a'', 1)"
    by (simp add: contextInFirstOperand_def HasField_def)
  have d: "HasField (workingRecord contextInFirstOperand) ''d'' = None \<and>
      map_of (contextInaccessibleVariables contextInFirstOperand) ''d'' =
        Some ReferenceToTheAdjacentUnionOperand"
    by (simp add: contextInFirstOperand_def HasField_def)
  have t: "HasField (workingRecord contextInFirstOperand) ''t'' = None \<and>
      map_of (contextInaccessibleVariables contextInFirstOperand) ''t'' = None \<and>
      HasField (workingTable contextInFirstOperand) ''t'' \<noteq> None"
    by (simp add: contextInFirstOperand_def HasField_def)
  have z: "HasField (workingRecord contextInFirstOperand) ''z'' = None \<and>
      map_of (contextInaccessibleVariables contextInFirstOperand) ''z'' = None \<and>
      HasField (workingTable contextInFirstOperand) ''z'' = None"
    by (simp add: contextInFirstOperand_def HasField_def)
  from C5_reference_resolution [of "''a''" contextInFirstOperand] a
  have ra: "ProcessBindingVariableReference ''a'' contextInFirstOperand = Inr 1"
    by simp
  from C5_reference_resolution [of "''d''" contextInFirstOperand] d
  have rd: "ProcessBindingVariableReference ''d'' contextInFirstOperand = Inl (Thrown E0051)"
    by blast
  from C5_reference_resolution [of "''t''" contextInFirstOperand] t
  have rt: "ProcessBindingVariableReference ''t'' contextInFirstOperand = Inl (Thrown E0113)"
    by blast
  from C5_reference_resolution [of "''z''" contextInFirstOperand] z
  have rz: "ProcessBindingVariableReference ''z'' contextInFirstOperand = Inl (Thrown E0054)"
    by blast
  from ra rd rt rz show ?thesis
    by simp
qed

section \<open>C7: the unbounded-quantifier check of EnterQuantifiedPathPrimary\<close>

text \<open>
  C7 as stated (every entry into an unbounded quantified path primary fails with E0005 unless
  the search is restrictive, the pattern selective or the different-edges-match mode is on)
  does not hold: the nested-quantifier guard comes first. In \<open>stateInsideQuantifier\<close>, which
  the analyzer reaches inside the outer quantifier of \<open>MATCH (((a)-[b]->)+){1,2}\<close>, none of the
  three conditions holds and the entry fails with E0004, not E0005.
\<close>

theorem C7_counterexample:
  "EnterQuantifiedPathPrimary True (EnterPathPattern False (newGraphPatternContext False)) =
     Inr stateInsideQuantifier \<and>
   isRestrictivePathMode stateInsideQuantifier = [False] \<and>
   \<not> isInsideSelectivePattern stateInsideQuantifier \<and>
   \<not> differentEdgesMatchMode stateInsideQuantifier \<and>
   EnterQuantifiedPathPrimary False stateInsideQuantifier = Inl (Thrown E0004)"
  by (simp add: stateInsideQuantifier_def EnterQuantifiedPathPrimary_def EnterPathPattern_def
      newGraphPatternContext_def EnterVariableScope_def IsInsideRestrictiveSearch_def)

text \<open>
  C7, amended: an entry into an unbounded quantified path primary that is nested in another
  quantified path primary fails with E0004. An entry that is not nested fails with E0005
  exactly when none of the three holds: an enclosing path mode is restrictive (the top of
  \<open>isRestrictivePathMode_\<close>), the primary is inside a selective path pattern, the analyzer is
  in different-edges-match mode. When one of them holds, the entry returns normally.
\<close>

theorem C7_unbounded_quantifier:
  assumes "isRestrictivePathMode s = r # rs"
  shows "(isInsideQuantifiedPathPrimary s \<longrightarrow>
            EnterQuantifiedPathPrimary False s = Inl (Thrown E0004)) \<and>
         (\<not> isInsideQuantifiedPathPrimary s \<longrightarrow>
            (EnterQuantifiedPathPrimary False s = Inl (Thrown E0005)) =
              (\<not> (r \<or> isInsideSelectivePattern s \<or> differentEdgesMatchMode s))) \<and>
         (\<not> isInsideQuantifiedPathPrimary s \<longrightarrow>
            (r \<or> isInsideSelectivePattern s \<or> differentEdgesMatchMode s) \<longrightarrow>
            (\<exists>s'. EnterQuantifiedPathPrimary False s = Inr s'))"
  using assms
  by (auto simp add: EnterQuantifiedPathPrimary_def IsInsideRestrictiveSearch_def)

theorem C7_unbounded_quantifier_witness:
  "isRestrictivePathMode (EnterPathPattern False (newGraphPatternContext False)) = [False] \<and>
   \<not> isInsideQuantifiedPathPrimary (EnterPathPattern False (newGraphPatternContext False)) \<and>
   \<not> isInsideSelectivePattern (EnterPathPattern False (newGraphPatternContext False)) \<and>
   \<not> differentEdgesMatchMode (EnterPathPattern False (newGraphPatternContext False)) \<and>
   EnterQuantifiedPathPrimary False (EnterPathPattern False (newGraphPatternContext False)) =
     Inl (Thrown E0005)"
proof -
  let ?s = "EnterPathPattern False (newGraphPatternContext False)"
  have r0: "isRestrictivePathMode ?s = False # []"
    by (simp add: EnterPathPattern_def newGraphPatternContext_def EnterVariableScope_def)
  have flags: "\<not> isInsideQuantifiedPathPrimary ?s \<and> \<not> isInsideSelectivePattern ?s \<and>
      \<not> differentEdgesMatchMode ?s"
    by (simp add: EnterPathPattern_def newGraphPatternContext_def EnterVariableScope_def)
  from C7_unbounded_quantifier [OF r0] flags
  have "EnterQuantifiedPathPrimary False ?s = Inl (Thrown E0005)"
    by blast
  with r0 flags show ?thesis
    by simp
qed

section \<open>Every operation of the analyzer keeps the invariant\<close>

lemma AppendExposedVariables_wellDeclared:
  assumes run: "AppendExposedVariables s = Inr s'"
    and inv: "wellDeclared s"
  shows "wellDeclared s'"
proof -
  from run obtain vs rest where f: "exposedVariables s = vs # rest"
    and loop: "forEach (\<lambda>v. ExposeVariable (fst v) (snd v)) vs (s\<lparr>exposedVariables := rest\<rparr>) = Inr s'"
    by (auto simp add: AppendExposedVariables_def case_list_eq_Inr)
  from wellDeclared_pop [OF f inv]
  have inv0: "wellDeclared (s\<lparr>exposedVariables := rest\<rparr>)"
    and decl: "\<forall>v \<in> set vs. declaredIn (auxStore s) v"
    by simp_all
  let ?I = "\<lambda>t. wellDeclared t \<and> auxStore t = auxStore s"
  have "?I s'"
  proof (rule forEach_preserves [where I = ?I, OF _ loop])
    fix x t t'
    assume x: "x \<in> set vs" and r: "ExposeVariable (fst x) (snd x) t = Inr t'" and i: "?I t"
    from decl x i have "declaredIn (auxStore t) (fst x, snd x)"
      by simp
    from ExposeVariable_wellDeclared [OF r _ this] i show "?I t'"
      by simp
  next
    show "?I (s\<lparr>exposedVariables := rest\<rparr>)"
      using inv0 by simp
  qed
  then show ?thesis by simp
qed

lemma ExitVariableScope_wellDeclared:
  assumes run: "ExitVariableScope s = Inr s'"
    and inv: "wellDeclared s"
  shows "wellDeclared s'"
proof -
  from run obtain sx where ap: "AppendExposedVariables sx = Inr s'"
    and e: "exposedVariables sx = exposedVariables s" and a: "auxStore sx = auxStore s"
    by (auto simp add: ExitVariableScope_def split: list.splits if_splits)
  from wellDeclared_same [OF e a] inv have "wellDeclared sx"
    by simp
  with ap show ?thesis
    by (rule AppendExposedVariables_wellDeclared)
qed

lemma EnterVariableScope_wellDeclared [simp]:
  "wellDeclared (EnterVariableScope s) = wellDeclared s"
  by (rule wellDeclared_push) (simp_all add: EnterVariableScope_def)

lemma EnterParenthesized_wellDeclared [simp]:
  "wellDeclared (EnterParenthesizedPathPatternExpression s) = wellDeclared s"
proof -
  have "wellDeclared (EnterParenthesizedPathPatternExpression s) = wellDeclared (EnterVariableScope s)"
    by (rule wellDeclared_same) (simp_all add: EnterParenthesizedPathPatternExpression_def Let_def)
  then show ?thesis by simp
qed

lemma EnterPathPatternUnion_wellDeclared [simp]:
  "wellDeclared (EnterPathPatternUnion s) = wellDeclared s"
  by (rule wellDeclared_push) (simp_all add: EnterPathPatternUnion_def)

lemma EnterPathPatternUnionOperand_wellDeclared [simp]:
  "wellDeclared (EnterPathPatternUnionOperand s) = wellDeclared s"
  by (rule wellDeclared_push) (simp_all add: EnterPathPatternUnionOperand_def)

lemma EnterQuestionedPathPrimary_wellDeclared [simp]:
  "wellDeclared (EnterQuestionedPathPrimary s) = wellDeclared s"
  by (rule wellDeclared_push) (simp_all add: EnterQuestionedPathPrimary_def)

lemma EnterQuantifiedPathPrimary_wellDeclared:
  assumes "EnterQuantifiedPathPrimary b s = Inr s'" and "wellDeclared s"
  shows "wellDeclared s'"
proof -
  from assms(1) have "exposedVariables s' = [] # exposedVariables s" and "auxStore s' = auxStore s"
    by (auto simp add: EnterQuantifiedPathPrimary_def andThen_eq_Inr split: if_splits)
  from wellDeclared_push [OF this] assms(2) show ?thesis
    by simp
qed

lemma VariableReferenceScope_enter_wellDeclared [simp]:
  "wellDeclared (snd (VariableReferenceScope_enter s)) = wellDeclared s"
  by (simp add: VariableReferenceScope_enter_def wellDeclared_def plainEntries_def
      declaredIn_def auxKeys_def)

lemma VariableReferenceScope_exit_wellDeclared [simp]:
  "wellDeclared (VariableReferenceScope_exit p s) = wellDeclared s"
  by (rule wellDeclared_same) (simp_all add: VariableReferenceScope_exit_def)

lemma simple_steps_wellDeclared:
  "EnterNodePattern s = Inr s' \<Longrightarrow> wellDeclared s' = wellDeclared s"
  "EnterEdgePattern s = Inr s' \<Longrightarrow> wellDeclared s' = wellDeclared s"
  "EnterPathMode m s = Inr s' \<Longrightarrow> wellDeclared s' = wellDeclared s"
  "ExitPathMode s = Inr s' \<Longrightarrow> wellDeclared s' = wellDeclared s"
  "AddSearchCondition c s = Inr s' \<Longrightarrow> wellDeclared s' = wellDeclared s"
  by (rule wellDeclared_same;
      auto simp add: EnterNodePattern_def EnterEdgePattern_def EnterPathMode_def ExitPathMode_def
        AddSearchCondition_def andThen_eq_Inr split: list.splits)+

lemma DeclareVariable_unfold:
  "DeclareVariable n pos ty temp s =
     andThen (recordDeclaration n pos ty s) (\<lambda>s2.
       andThen (ExposeNewVariable n
                  \<lparr>type = ty, declarationPosition = pos, isTemp = temp,
                    degree = UnconditionalSingleton, isStrictInterior = False\<rparr> s2)
         (countDeclaration n))"
  by (simp add: DeclareVariable_def recordDeclaration_def countDeclaration_def [abs_def] Let_def)

lemma recordDeclaration_Inr:
  "recordDeclaration n pos ty s = Inr s2 \<Longrightarrow>
   exposedVariables s2 = exposedVariables s \<and> auxStore s2 = auxStore s \<and>
   currentVariableReferenceScope s2 = currentVariableReferenceScope s"
  by (cases "map_of (variableDeclarations s) n"; cases ty;
      cases "lastVariableDeclarationPosition s = None")
     (auto simp add: recordDeclaration_def Let_def split: if_splits)


lemma ExitParenthesized_wellDeclared:
  assumes run: "ExitParenthesizedPathPatternExpression h s = Inr s'"
    and inv: "wellDeclared s"
  shows "wellDeclared s'"
proof -
  have "ensures (ExitParenthesizedPathPatternExpression h s) (\<lambda>t. \<exists>s1. ExitVariableScope s = Inr s1 \<and>
          exposedVariables t = exposedVariables s1 \<and> auxStore t = auxStore s1)"
    unfolding ExitParenthesizedPathPatternExpression_def ensures_andThen
    by (rule ensuresI) (simp split: list.split)
  from ensuresD [OF run this] obtain s1 where ex: "ExitVariableScope s = Inr s1"
    and e: "exposedVariables s' = exposedVariables s1" and a: "auxStore s' = auxStore s1"
    by blast
  from ExitVariableScope_wellDeclared [OF ex inv] wellDeclared_same [OF e a] show ?thesis
    by simp
qed

lemma ExitPathPatternUnion_wellDeclared:
  assumes run: "ExitPathPatternUnion s = Inr s'"
    and inv: "wellDeclared s"
  shows "wellDeclared s'"
proof -
  have "ensures (ExitPathPatternUnion s) (\<lambda>t. \<exists>s1. AppendExposedVariables s = Inr s1 \<and>
          exposedVariables t = exposedVariables s1 \<and> auxStore t = auxStore s1)"
    unfolding ExitPathPatternUnion_def ensures_andThen Let_def
    by (rule ensuresI) (simp add: ensures_andThen split: list.split prod.split, simp add: ensures_def split: sum.split)
  from ensuresD [OF run this] obtain s1 where ap: "AppendExposedVariables s = Inr s1"
    and e: "exposedVariables s' = exposedVariables s1" and a: "auxStore s' = auxStore s1"
    by blast
  from AppendExposedVariables_wellDeclared [OF ap inv] wellDeclared_same [OF e a] show ?thesis
    by simp
qed

lemma countDeclaration_Inr:
  "countDeclaration n s3 = Inr s' \<Longrightarrow>
   exposedVariables s' = exposedVariables s3 \<and> auxStore s' = auxStore s3 \<and>
   currentVariableReferenceScope s' = currentVariableReferenceScope s3"
  by (cases "declarationsInUnions s3") (auto simp add: countDeclaration_def)
lemma DeclareVariable_wellDeclared:
  assumes run: "DeclareVariable n pos ty temp s = Inr s'"
    and inv: "wellDeclared s"
  shows "wellDeclared s'"
proof -
  from run obtain s2 s3 where r: "recordDeclaration n pos ty s = Inr s2"
    and en: "ExposeNewVariable n
              \<lparr>type = ty, declarationPosition = pos, isTemp = temp,
                degree = UnconditionalSingleton, isStrictInterior = False\<rparr> s2 = Inr s3"
    and c: "countDeclaration n s3 = Inr s'"
    by (auto simp add: DeclareVariable_unfold andThen_eq_Inr)
  from recordDeclaration_Inr [OF r] inv have "wellDeclared s2"
    by (simp add: wellDeclared_def)
  from ExposeNewVariable_wellDeclared [OF en this] countDeclaration_Inr [OF c] show ?thesis
    by (simp add: wellDeclared_def)
qed

lemma Declare_wrappers_wellDeclared:
  "DeclareNodeVariable v s = Inr s' \<Longrightarrow> wellDeclared s \<Longrightarrow> wellDeclared s'"
  "DeclareEdgeVariable v s = Inr s' \<Longrightarrow> wellDeclared s \<Longrightarrow> wellDeclared s'"
  "DeclareSubpathVariable sv s = Inr s' \<Longrightarrow> wellDeclared s \<Longrightarrow> wellDeclared s'"
proof -
  assume run: "DeclareNodeVariable v s = Inr s'" and inv: "wellDeclared s"
  from run obtain s1 where d: "DeclareVariable (varName v) (varPosition v) Node (varIsTemp v) s = Inr s1"
    and e: "exposedVariables s' = exposedVariables s1" and a: "auxStore s' = auxStore s1"
    by (auto simp add: DeclareNodeVariable_def andThen_eq_Inr Let_def)
  from DeclareVariable_wellDeclared [OF d inv] wellDeclared_same [OF e a]
  show "wellDeclared s'" by simp
next
  assume "DeclareEdgeVariable v s = Inr s'" and "wellDeclared s"
  then show "wellDeclared s'"
    unfolding DeclareEdgeVariable_def by (rule DeclareVariable_wellDeclared)
next
  assume "DeclareSubpathVariable sv s = Inr s'" and "wellDeclared s"
  then show "wellDeclared s'"
    unfolding DeclareSubpathVariable_def by (rule DeclareVariable_wellDeclared)
qed


lemma ensures_checkedInt:
  "ensures (checkedInt x) P = (INT_MIN \<le> x \<and> x \<le> INT_MAX \<longrightarrow> P x)"
  by (auto simp add: checkedInt_def)

lemma ExitQuestionedPathPrimary_wellDeclared:
  assumes run: "ExitQuestionedPathPrimary s = Inr s'"
    and inv: "wellDeclared s"
  shows "wellDeclared s'"
proof (cases "exposedVariables s")
  case Nil
  with run show ?thesis
    by (simp add: ExitQuestionedPathPrimary_def)
next
  case (Cons frame rest)
  from run obtain s1 where
    loop: "forEach (\<lambda>v. ExposeNewVariable (fst v) (questionedDegree (snd v))) frame
             (s\<lparr>exposedVariables := rest\<rparr>) = Inr s1"
    unfolding ExitQuestionedPathPrimary_def Cons list.case andThen_eq_Inr by blast
  have "ensures (ExitQuestionedPathPrimary s)
          (\<lambda>t. exposedVariables t = exposedVariables s1 \<and> auxStore t = auxStore s1)"
    unfolding ExitQuestionedPathPrimary_def Cons list.case loop andThen_Inr Let_def
    by (simp split: list.split)
  from ensuresD [OF run this] have same: "wellDeclared s' = wellDeclared s1"
    by (simp add: wellDeclared_def)
  from wellDeclared_pop [OF Cons inv] have "wellDeclared (s\<lparr>exposedVariables := rest\<rparr>)"
    by simp
  with loop have "wellDeclared s1"
    by (rule forEach_preserves [rotated 1]) (rule ExposeNewVariable_wellDeclared)
  with same show ?thesis
    by simp
qed

lemma afterQuantifiedLoop_keeps:
  "ensures (afterQuantifiedLoop lowerBound s1)
     (\<lambda>t. exposedVariables t = exposedVariables s1 \<and> auxStore t = auxStore s1)"
  unfolding afterQuantifiedLoop_def Let_def
  by (simp add: ensures_andThen ensures_checkedInt split: list.split)

lemma ExitQuantifiedPathPrimary_wellDeclared:
  assumes run: "ExitQuantifiedPathPrimary bounded lowerBound s = Inr s'"
    and inv: "wellDeclared s"
  shows "wellDeclared s'"
proof (cases "exposedVariables s")
  case Nil
  with run show ?thesis
    by (simp add: ExitQuantifiedPathPrimary_def)
next
  case (Cons frame rest)
  from run obtain s1 where
    loop: "forEach (\<lambda>v st. andThen (quantifiedDegree bounded st (snd v))
                   (\<lambda>v'. ExposeNewVariable (fst v) v' st)) frame
             (s\<lparr>isInsideQuantifiedPathPrimary := False, exposedVariables := rest\<rparr>) = Inr s1"
    and tail: "afterQuantifiedLoop lowerBound s1 = Inr s'"
    unfolding ExitQuantifiedPathPrimary_unfold [OF Cons] andThen_eq_Inr by blast
  from ensuresD [OF tail afterQuantifiedLoop_keeps] have same: "wellDeclared s' = wellDeclared s1"
    by (simp add: wellDeclared_def)
  from wellDeclared_pop [OF Cons inv]
  have "wellDeclared (s\<lparr>isInsideQuantifiedPathPrimary := False, exposedVariables := rest\<rparr>)"
    by (simp add: wellDeclared_def)
  with loop have "wellDeclared s1"
  proof (rule forEach_preserves [rotated 1])
    fix x st st'
    assume "andThen (quantifiedDegree bounded st (snd x))
              (\<lambda>v'. ExposeNewVariable (fst x) v' st) = Inr st'" and "wellDeclared st"
    then show "wellDeclared st'"
      by (auto simp add: andThen_eq_Inr intro: ExposeNewVariable_wellDeclared)
  qed
  with same show ?thesis
    by simp
qed
lemma sameKind_refl [simp]: "sameKind w w"
  by (simp add: sameKind_def)

lemma sameKind_declaredIn: "sameKind w w0 \<Longrightarrow> declaredIn store w0 \<Longrightarrow> declaredIn store w"
  by (simp add: sameKind_def declaredIn_def)

lemma mergeOperandVariable_sameKind:
  assumes "w \<in> set (mergeOperandVariable firstOperand v acc)"
  shows "\<exists>w0 \<in> insert v (set acc). sameKind w w0"
proof (cases "map_of acc (fst v)")
  case None
  with assms have "w \<in> set acc \<or> sameKind w v"
    by (auto simp add: mergeOperandVariable_def sameKind_def)
  then show ?thesis
    by (auto intro: bexI [where x = w])
next
  case (Some existing)
  then have old: "(fst v, existing) \<in> set acc"
    by (rule map_of_SomeD)
  from assms Some
  have "w = (fst v, existing\<lparr>degree := mergedDegree (degree (snd v)) (degree existing)\<rparr>) \<or>
      w \<in> set acc"
    by (auto simp add: mergeOperandVariable_def dest: set_AList_update)
  then show ?thesis
  proof
    assume "w = (fst v, existing\<lparr>degree := mergedDegree (degree (snd v)) (degree existing)\<rparr>)"
    then have "sameKind w (fst v, existing)"
      by (simp add: sameKind_def)
    with old show ?thesis
      by blast
  next
    assume "w \<in> set acc"
    then show ?thesis
      by (auto intro: bexI [where x = w])
  qed
qed

lemma fold_mergeOperandVariable_sameKind:
  "w \<in> set (fold (mergeOperandVariable firstOperand) vs acc) \<Longrightarrow>
   \<exists>w0 \<in> set vs \<union> set acc. sameKind w w0"
proof (induction vs arbitrary: acc w)
  case Nil
  then show ?case
    by (auto intro: bexI [where x = w])
next
  case (Cons v vs)
  from Cons.prems have "w \<in> set (fold (mergeOperandVariable firstOperand) vs
      (mergeOperandVariable firstOperand v acc))"
    by simp
  from Cons.IH [OF this] obtain w1 where
    w1: "w1 \<in> set vs \<union> set (mergeOperandVariable firstOperand v acc)" and k1: "sameKind w w1"
    by blast
  from w1 show ?case
  proof
    assume "w1 \<in> set vs"
    with k1 show ?thesis by auto
  next
    assume "w1 \<in> set (mergeOperandVariable firstOperand v acc)"
    from mergeOperandVariable_sameKind [OF this] obtain w0 where
      "w0 \<in> insert v (set acc)" and "sameKind w1 w0"
      by blast
    with k1 have "w0 \<in> set (v # vs) \<union> set acc" and "sameKind w w0"
      by (auto simp add: sameKind_def)
    then show ?thesis
      by blast
  qed
qed

lemma mergeOperand_sameKind:
  assumes "w \<in> set (mergeOperand firstOperand operandVariables unionExposedVariables)"
  shows "\<exists>w0 \<in> set operandVariables \<union> set unionExposedVariables. sameKind w w0"
proof -
  from assms obtain w1 where
    w1: "w1 \<in> set operandVariables \<union>
           set (map (demoteMissing operandVariables) unionExposedVariables)"
    and k1: "sameKind w w1"
    unfolding mergeOperand_def by (blast dest: fold_mergeOperandVariable_sameKind)
  from w1 show ?thesis
  proof
    assume "w1 \<in> set operandVariables"
    with k1 show ?thesis by blast
  next
    assume "w1 \<in> set (map (demoteMissing operandVariables) unionExposedVariables)"
    then obtain w0 where w0: "w0 \<in> set unionExposedVariables"
      and "w1 = demoteMissing operandVariables w0"
      by auto
    then have "sameKind w1 w0"
      by (simp add: demoteMissing_def sameKind_def)
    with k1 have "sameKind w w0"
      by (simp add: sameKind_def)
    with w0 show ?thesis by blast
  qed
qed

lemma ExitPathPatternUnionOperand_wellDeclared:
  assumes run: "ExitPathPatternUnionOperand s = Inr s'"
    and inv: "wellDeclared s"
  shows "wellDeclared s'"
proof -
  have "ensures (ExitPathPatternUnionOperand s)
          (\<lambda>t. auxStore t = auxStore s \<and>
             (\<exists>ov uv frames firstOperand. exposedVariables s = ov # uv # frames \<and>
                exposedVariables t = mergeOperand firstOperand ov uv # frames))"
    unfolding ExitPathPatternUnionOperand_def
    by (simp split: list.split prod.split) blast
  from ensuresD [OF run this] obtain ov uv frames firstOperand where
    a: "auxStore s' = auxStore s" and e: "exposedVariables s = ov # uv # frames"
    and e': "exposedVariables s' = mergeOperand firstOperand ov uv # frames"
    by blast
  have "\<forall>frame \<in> set (exposedVariables s'). \<forall>w \<in> set frame. declaredIn (auxStore s') w"
  proof (intro ballI)
    fix frame w
    assume "frame \<in> set (exposedVariables s')" and w: "w \<in> set frame"
    then have "frame = mergeOperand firstOperand ov uv \<or> frame \<in> set frames"
      by (simp add: e')
    then show "declaredIn (auxStore s') w"
    proof
      assume "frame = mergeOperand firstOperand ov uv"
      with w mergeOperand_sameKind obtain w0 where "w0 \<in> set ov \<union> set uv" and k: "sameKind w w0"
        by blast
      with inv e have "declaredIn (auxStore s) w0"
        by (auto simp add: wellDeclared_def)
      with k show ?thesis
        by (simp add: a sameKind_declaredIn)
    next
      assume "frame \<in> set frames"
      with w inv e show ?thesis
        by (auto simp add: wellDeclared_def a)
    qed
  qed
  with inv show ?thesis
    by (simp add: wellDeclared_def a)
qed
lemma ensures_bind:
  "ensures m Q \<Longrightarrow> (\<And>x. Q x \<Longrightarrow> ensures (f x) P) \<Longrightarrow> ensures (andThen m f) P"
  by (cases m) simp_all

lemma ensures_bind_unit:
  "(\<And>x. ensures (f x) P) \<Longrightarrow> ensures (andThen m f) P"
  by (cases m) simp_all

lemma preservingD: "preserving f \<Longrightarrow> wellDeclared s \<Longrightarrow> ensures (f s) wellDeclared"
  by (cases "f s") (auto simp add: preserving_def)

lemma preservingI:
  assumes "\<And>s. wellDeclared s \<Longrightarrow> ensures (f s) wellDeclared"
  shows "preserving f"
  unfolding preserving_def
proof (intro allI impI)
  fix s s'
  assume "f s = Inr s'" and "wellDeclared s"
  with assms [of s] show "wellDeclared s'"
    by simp
qed

lemma forEach_preserving:
  assumes "\<And>x. x \<in> set xs \<Longrightarrow> preserving (f x)"
  shows "preserving (forEach f xs)"
proof (rule preservingI, rule ensuresI)
  fix s t
  assume start: "wellDeclared s" and run: "forEach f xs s = Inr t"
  have step: "\<And>x u u'. x \<in> set xs \<Longrightarrow> f x u = Inr u' \<Longrightarrow> wellDeclared u \<Longrightarrow> wellDeclared u'"
    using assms unfolding preserving_def by blast
  from step run start show "wellDeclared t"
    by (rule forEach_preserves)
qed

lemma processTerm_preserving:
  assumes "\<And>factor. factor \<in> set factors \<Longrightarrow> preserving factor"
  shows "preserving (processTerm unionActive factors)"
proof (rule preservingI)
  fix s
  assume inv: "wellDeclared s"
  have loop: "preserving (forEach (\<lambda>factor. factor) factors)"
    using assms by (rule forEach_preserving)
  have start: "wellDeclared (if unionActive then EnterPathPatternUnionOperand s else s)"
    using inv by simp
  have finish: "\<And>s1. wellDeclared s1 \<Longrightarrow>
      ensures (if unionActive then ExitPathPatternUnionOperand s1 else Inr s1) wellDeclared"
    by (auto intro: ensuresI ExitPathPatternUnionOperand_wellDeclared)
  show "ensures (processTerm unionActive factors s) wellDeclared"
    unfolding processTerm_def
    by (rule ensures_bind [OF preservingD [OF loop start] finish])
qed

lemma processExpression_preserving:
  assumes "\<And>factors factor. factors \<in> set termList \<Longrightarrow> factor \<in> set factors \<Longrightarrow>
      preserving factor"
  shows "preserving (processExpression supported oper termList)"
proof (rule preservingI)
  fix s
  assume inv: "wellDeclared s"
  obtain p s1 where en: "VariableReferenceScope_enter s = (p, s1)"
    by (cases "VariableReferenceScope_enter s")
  have s1: "wellDeclared s1"
    using inv VariableReferenceScope_enter_wellDeclared [of s] by (simp add: en)
  have start: "wellDeclared (if length termList > 1 then EnterPathPatternUnion s1 else s1)"
    using s1 by simp
  have loop: "preserving (forEach (processTerm (length termList > 1)) termList)"
    using assms by (intro forEach_preserving processTerm_preserving)
  have finish: "\<And>s3. wellDeclared s3 \<Longrightarrow>
      ensures (if length termList > 1 then ExitPathPatternUnion s3 else Inr s3) wellDeclared"
    by (auto intro: ensuresI ExitPathPatternUnion_wellDeclared)
  have body: "ensures
      (andThen (forEach (processTerm (length termList > 1)) termList
                  (if length termList > 1 then EnterPathPatternUnion s1 else s1)) (\<lambda>s3.
       andThen (if length termList > 1 then ExitPathPatternUnion s3 else Inr s3) (\<lambda>s4.
         Inr (VariableReferenceScope_exit p s4)))) wellDeclared"
    by (rule ensures_bind [OF preservingD [OF loop start]], rule ensures_bind [OF finish]) simp_all
  show "ensures (processExpression supported oper termList s) wellDeclared"
    unfolding processExpression_def en Let_def prod.case
    by (rule ensures_bind_unit) (rule body)
qed
lemma processFactor_preserving:
  assumes "preserving primary"
  shows "preserving (processFactor supported q primary)"
proof (rule preservingI)
  fix s
  assume inv: "wellDeclared s"
  obtain p s1 where en: "VariableReferenceScope_enter s = (p, s1)"
    by (cases "VariableReferenceScope_enter s")
  have s1: "wellDeclared s1"
    using inv VariableReferenceScope_enter_wellDeclared [of s] by (simp add: en)
  have enter: "ensures
      (case q of
         NoQuantifier \<Rightarrow> Inr s1
       | Optional \<Rightarrow> Inr (EnterQuestionedPathPrimary s1)
       | GraphPatternQuantifier lo up \<Rightarrow>
           andThen (ThrowIfFeatureNotSupported supported (if up \<noteq> None then G060 else G061))
             (\<lambda>_. EnterQuantifiedPathPrimary (up \<noteq> None) s1)) wellDeclared"
  proof (cases q)
    case (GraphPatternQuantifier lo up)
    have "ensures (EnterQuantifiedPathPrimary (up \<noteq> None) s1) wellDeclared"
      using s1 by (intro ensuresI) (rule EnterQuantifiedPathPrimary_wellDeclared)
    then show ?thesis
      unfolding GraphPatternQuantifier Quantifier.case by (intro ensures_bind_unit)
  qed (simp_all add: s1)
  have leave: "\<And>s3. wellDeclared s3 \<Longrightarrow> ensures
      (case q of
         NoQuantifier \<Rightarrow> Inr s3
       | Optional \<Rightarrow> ExitQuestionedPathPrimary s3
       | GraphPatternQuantifier lo up \<Rightarrow>
           ExitQuantifiedPathPrimary (up \<noteq> None) (toInt lo) s3) wellDeclared"
  proof -
    fix s3
    assume s3: "wellDeclared s3"
    show "ensures
      (case q of
         NoQuantifier \<Rightarrow> Inr s3
       | Optional \<Rightarrow> ExitQuestionedPathPrimary s3
       | GraphPatternQuantifier lo up \<Rightarrow>
           ExitQuantifiedPathPrimary (up \<noteq> None) (toInt lo) s3) wellDeclared"
    proof (cases q)
      case NoQuantifier
      with s3 show ?thesis by simp
    next
      case Optional
      have "ensures (ExitQuestionedPathPrimary s3) wellDeclared"
        using s3 by (intro ensuresI) (rule ExitQuestionedPathPrimary_wellDeclared)
      then show ?thesis
        by (simp add: Optional)
    next
      case (GraphPatternQuantifier lo up)
      have "ensures (ExitQuantifiedPathPrimary (up \<noteq> None) (toInt lo) s3) wellDeclared"
        using s3 by (intro ensuresI) (rule ExitQuantifiedPathPrimary_wellDeclared)
      then show ?thesis
        by (simp add: GraphPatternQuantifier)
    qed
  qed
  show "ensures (processFactor supported q primary s) wellDeclared"
    unfolding processFactor_def en Let_def prod.case
    by (rule ensures_bind [OF enter], rule ensures_bind [OF preservingD [OF assms]], assumption,
        rule ensures_bind [OF leave], assumption) simp
qed

lemma processElementPattern_preserving: "preserving (processElementPattern supported e)"
proof (rule preservingI)
  fix s
  assume inv: "wellDeclared s"
  have decl: "ensures (case v of None \<Rightarrow> Inr s1 | Some x \<Rightarrow> DeclareNodeVariable x s1) wellDeclared"
    "ensures (case v of None \<Rightarrow> Inr s1 | Some x \<Rightarrow> DeclareEdgeVariable x s1) wellDeclared"
    if s1: "wellDeclared s1" for v s1
  proof -
    have "ensures (DeclareNodeVariable x s1) wellDeclared"
      and "ensures (DeclareEdgeVariable x s1) wellDeclared" for x
      by (rule ensuresI, erule Declare_wrappers_wellDeclared, rule s1)+
    then show
      "ensures (case v of None \<Rightarrow> Inr s1 | Some x \<Rightarrow> DeclareNodeVariable x s1) wellDeclared"
      "ensures (case v of None \<Rightarrow> Inr s1 | Some x \<Rightarrow> DeclareEdgeVariable x s1) wellDeclared"
      using s1 by (simp_all split: option.split)
  qed
  have enter: "ensures (EnterNodePattern s) wellDeclared" "ensures (EnterEdgePattern s) wellDeclared"
    by (rule ensuresI, simp add: simple_steps_wellDeclared inv)+
  show "ensures (processElementPattern supported e s) wellDeclared"
  proof (cases e)
    case (NodePattern filler)
    show ?thesis
      unfolding processElementPattern_def NodePattern ElementPattern.case
      by (rule ensures_bind [OF enter(1)], rule ensures_bind [OF decl(1)], assumption,
          rule ensures_bind_unit) simp
  next
    case (EdgePattern filler)
    show ?thesis
      unfolding processElementPattern_def EdgePattern ElementPattern.case
      by (rule ensures_bind [OF enter(2)], rule ensures_bind [OF decl(2)], assumption,
          rule ensures_bind_unit) simp
  qed
qed
lemma processParenthesized_preserving:
  assumes "preserving inner"
  shows "preserving (processParenthesized supported v mode w inner)"
proof (rule preservingI)
  fix s
  assume inv: "wellDeclared s"
  have enter: "ensures
      (case v of
         None \<Rightarrow> Inr (EnterParenthesizedPathPatternExpression s)
       | Some subpath \<Rightarrow>
           DeclareSubpathVariable subpath (EnterParenthesizedPathPatternExpression s)) wellDeclared"
  proof (cases v)
    case None
    with inv show ?thesis by simp
  next
    case (Some subpath)
    have "ensures (DeclareSubpathVariable subpath (EnterParenthesizedPathPatternExpression s))
        wellDeclared"
      by (rule ensuresI, erule Declare_wrappers_wellDeclared) (simp add: inv)
    then show ?thesis
      by (simp add: Some)
  qed
  have mode: "ensures (EnterPathMode mode s1) wellDeclared"
    "ensures (ExitPathMode s1) wellDeclared"
    "ensures (case w of None \<Rightarrow> Inr s1 | Some cond \<Rightarrow> AddSearchCondition cond s1) wellDeclared"
    if s1: "wellDeclared s1" for s1
  proof -
    show "ensures (EnterPathMode mode s1) wellDeclared"
      by (rule ensuresI) (simp add: simple_steps_wellDeclared s1)
    show "ensures (ExitPathMode s1) wellDeclared"
      by (rule ensuresI) (simp add: simple_steps_wellDeclared s1)
    have "ensures (AddSearchCondition cond s1) wellDeclared" for cond
      by (rule ensuresI) (simp add: simple_steps_wellDeclared s1)
    then show
      "ensures (case w of None \<Rightarrow> Inr s1 | Some cond \<Rightarrow> AddSearchCondition cond s1) wellDeclared"
      using s1 by (simp split: option.split)
  qed
  have leave: "ensures (ExitParenthesizedPathPatternExpression (v \<noteq> None) s5) wellDeclared"
    if "wellDeclared s5" for s5
    by (rule ensuresI, erule ExitParenthesized_wellDeclared) (rule that)
  show "ensures (processParenthesized supported v mode w inner s) wellDeclared"
    unfolding processParenthesized_def Let_def
    by (rule ensures_bind_unit, rule ensures_bind_unit, rule ensures_bind_unit,
        rule ensures_bind_unit,
        rule ensures_bind [OF enter], rule ensures_bind [OF mode(1)], assumption,
        rule ensures_bind [OF preservingD [OF assms]], assumption,
        rule ensures_bind [OF mode(3)], assumption,
        rule ensures_bind [OF mode(2)], assumption,
        rule leave)
qed

lemma Process_preserving:
  "preserving (Process_PathPatternExpression supported pat)"
  "preserving (Process_PathFactor supported factor)"
  "preserving (Process_PathPrimary supported primary)"
proof -
  have "True" and "True" and "True"
    and "preserving (Process_PathPrimary supported primary)"
    and "preserving (Process_PathFactor supported factor)"
    and "preserving (Process_PathPatternExpression supported pat)"
  proof (induction
      "x1 :: ValueExpression" and "x2 :: ElementPatternFiller" and "x3 :: ElementPattern"
      and primary and factor and pat)
    case (ElementPatternPrimary e)
    show ?case
      by (simp add: processElementPattern_preserving)
  next
    case (ParenthesizedPathPatternExpression v mode pat w)
    then show ?case
      by (simp add: processParenthesized_preserving)
  next
    case SimplifiedPathPatternExpression
    show ?case
      by (simp add: preserving_def)
  next
    case (PathFactor q p)
    then show ?case
      by (simp add: processFactor_preserving)
  next
    case (PathPatternExpression ts oper)
    have "preserving (processExpression supported oper (map (map (Process_PathFactor supported)) ts))"
    proof (rule processExpression_preserving)
      fix factors factor
      assume "factors \<in> set (map (map (Process_PathFactor supported)) ts)"
        and "factor \<in> set factors"
      then obtain t f where "t \<in> set ts" and "f \<in> set t"
        and "factor = Process_PathFactor supported f"
        by auto
      with PathPatternExpression show "preserving factor"
        by simp
    qed
    then show ?case
      by simp
  qed simp_all
  then show "preserving (Process_PathPatternExpression supported pat)"
    "preserving (Process_PathFactor supported factor)"
    "preserving (Process_PathPrimary supported primary)"
    by simp_all
qed
lemma EnterPathPattern_wellDeclared [simp]:
  "wellDeclared (EnterPathPattern isSelectivePattern s) = wellDeclared s"
proof (cases isSelectivePattern)
  case True
  have "exposedVariables (EnterPathPattern True s) = [] # [] # exposedVariables s"
    and "auxStore (EnterPathPattern True s) = auxStore s"
    by (simp_all add: EnterPathPattern_def EnterVariableScope_def Let_def)
  then show ?thesis
    by (simp add: True wellDeclared_def)
next
  case False
  have "exposedVariables (EnterPathPattern False s) = [] # exposedVariables s"
    and "auxStore (EnterPathPattern False s) = auxStore s"
    by (simp_all add: EnterPathPattern_def Let_def)
  then show ?thesis
    by (simp add: False wellDeclared_def)
qed

lemma newGraphPatternContext_wellDeclared [simp]:
  "wellDeclared (newGraphPatternContext dem)"
  by (simp add: newGraphPatternContext_def EnterVariableScope_def wellDeclared_def
      plainEntries_def)

lemma selectivePrologue_wellDeclared:
  assumes inv: "wellDeclared s"
  shows "ensures (selectivePrologue s) wellDeclared"
proof (cases "exposedVariables s")
  case Nil
  then show ?thesis
    by (simp add: selectivePrologue_def)
next
  case (Cons topFrame frames)
  have marked: "wellDeclared
      (s1\<lparr>searchConditionScopes := scs, exposedVariables := map (markStrictInterior l r) frame # rest\<rparr>)"
    if s1: "wellDeclared s1" and f: "exposedVariables s1 = frame # rest" for s1 scs l r frame rest
  proof -
    have "declaredIn (auxStore s1) (markStrictInterior l r v)" if "v \<in> set frame" for v
    proof -
      from that s1 f have "declaredIn (auxStore s1) v"
        by (auto simp add: wellDeclared_def)
      moreover have "sameKind (markStrictInterior l r v) v"
        by (simp add: markStrictInterior_def sameKind_def)
      ultimately show ?thesis
        by (simp add: sameKind_declaredIn)
    qed
    with s1 f show ?thesis
      by (auto simp add: wellDeclared_def)
  qed
  have "ensures (ExitVariableScope s) wellDeclared"
    using inv by (intro ensuresI) (rule ExitVariableScope_wellDeclared)
  then show ?thesis
    unfolding selectivePrologue_def Cons list.case Let_def
    by (rule ensures_bind) (simp add: marked split: list.split)
qed

lemma exposeUpward_wellDeclared:
  assumes inv: "wellDeclared s3"
  shows "ensures (exposeUpward s3) (\<lambda>result. wellDeclared (snd result))"
proof (cases "exposedVariables s3")
  case Nil
  then show ?thesis
    by (simp add: exposeUpward_def)
next
  case (Cons frame rest)
  from wellDeclared_pop [OF Cons inv]
  have start: "wellDeclared (s3\<lparr>exposedVariables := rest\<rparr>) \<and>
      auxStore (s3\<lparr>exposedVariables := rest\<rparr>) = auxStore s3"
    and declared: "\<forall>v \<in> set frame. declaredIn (auxStore s3) v"
    by simp_all
  have loop: "ensures
      (forEach (\<lambda>v. ExposeVariable (fst v) (boundedOnExit (snd v))) frame
         (s3\<lparr>exposedVariables := rest\<rparr>)) wellDeclared"
  proof (rule ensuresI)
    fix t
    assume run: "forEach (\<lambda>v. ExposeVariable (fst v) (boundedOnExit (snd v))) frame
         (s3\<lparr>exposedVariables := rest\<rparr>) = Inr t"
    have step: "wellDeclared u' \<and> auxStore u' = auxStore s3"
      if "x \<in> set frame" and "ExposeVariable (fst x) (boundedOnExit (snd x)) u = Inr u'"
        and "wellDeclared u \<and> auxStore u = auxStore s3" for x u u'
    proof -
      from that(1) declared have "declaredIn (auxStore s3) x"
        by simp
      moreover have "sameKind (fst x, boundedOnExit (snd x)) x"
        by (simp add: sameKind_def boundedOnExit_def)
      ultimately have "declaredIn (auxStore u) (fst x, boundedOnExit (snd x))"
        using that(3) by (simp add: sameKind_declaredIn)
      with ExposeVariable_wellDeclared [OF that(2)] that(3) show ?thesis
        by simp
    qed
    from step run start have "wellDeclared t \<and> auxStore t = auxStore s3"
      by (rule forEach_preserves)
    then show "wellDeclared t"
      by simp
  qed
  have same: "wellDeclared (s4\<lparr>nonZeroNodeCount := nzs\<rparr>) = wellDeclared s4" for s4 nzs
    by (rule wellDeclared_same) simp_all
  show ?thesis
    unfolding exposeUpward_def Cons list.case
    by (rule ensures_bind [OF loop]) (simp add: same split: list.split)
qed

lemma ExitPathPattern_wellDeclared:
  assumes run: "ExitPathPattern s = Inr (aux, s')"
    and inv: "wellDeclared s"
  shows "wellDeclared s'"
proof -
  have first: "ensures (if isInsideSelectivePattern s then selectivePrologue s else Inr s)
      wellDeclared"
    using inv by (simp add: selectivePrologue_wellDeclared)
  have "ensures (ExitPathPattern s) (\<lambda>result. wellDeclared (snd result))"
    unfolding ExitPathPattern_unfold
    by (rule ensures_bind [OF first]) (rule exposeUpward_wellDeclared)
  from ensuresD [OF run this] show ?thesis
    by simp
qed

section \<open>Which auxiliary record a declaration is written to\<close>

text \<open>
  An element variable is written into the record of the current variable reference scope and
  into no other. A path factor and a path pattern expression create their own records
  behind those that exist, and leave the existing ones as they are.
\<close>

lemma ExposeVariable_records:
  assumes "ExposeVariable n v s = Inr s1"
  shows "auxStore s1 = auxStore s"
    and "currentVariableReferenceScope s1 = currentVariableReferenceScope s"
  using assms by (cases rule: ExposeVariable_Inr; simp)+

lemma ExposeNewVariable_records:
  assumes run: "ExposeNewVariable n v u = Inr u'"
  shows "currentVariableReferenceScope u' = currentVariableReferenceScope u"
    and "type v = Node \<or> type v = Edge \<Longrightarrow>
         \<exists>p. currentVariableReferenceScope u = Some p \<and> p < length (auxStore u) \<and>
             auxStore u' =
               declareIn p n
                 \<lparr>auxType = type v, degreeOfExposure = degree v, auxIsTemp = False\<rparr> (auxStore u)"
    and "\<not> (type v = Node \<or> type v = Edge) \<Longrightarrow> auxStore u' = auxStore u"
proof -
  from run obtain s1 where ev: "ExposeVariable n v u = Inr s1"
    unfolding ExposeNewVariable_def andThen_eq_Inr by blast
  note same = ExposeVariable_records [OF ev]
  have post: "ensures (ExposeNewVariable n v u)
      (\<lambda>t. currentVariableReferenceScope t = currentVariableReferenceScope s1 \<and>
           (if type v = Node \<or> type v = Edge
            then \<exists>p. currentVariableReferenceScope s1 = Some p \<and> p < length (auxStore s1) \<and>
                   auxStore t =
                     declareIn p n
                       \<lparr>auxType = type v, degreeOfExposure = degree v, auxIsTemp = False\<rparr>
                       (auxStore s1)
            else auxStore t = auxStore s1))"
    unfolding ExposeNewVariable_def ev andThen_Inr
    by (simp add: declareIn_def split: option.split)
  note result = ensuresD [OF run post]
  from result show "currentVariableReferenceScope u' = currentVariableReferenceScope u"
    by (simp add: same)
  from result show "\<exists>p. currentVariableReferenceScope u = Some p \<and> p < length (auxStore u) \<and>
             auxStore u' =
               declareIn p n
                 \<lparr>auxType = type v, degreeOfExposure = degree v, auxIsTemp = False\<rparr> (auxStore u)"
    if "type v = Node \<or> type v = Edge"
    using that by (simp add: same)
  from result show "auxStore u' = auxStore u" if "\<not> (type v = Node \<or> type v = Edge)"
    using that by (simp add: same)
qed

lemma writesOnly_refl: "writesOnly p u u"
  by (simp add: writesOnly_def)

lemma writesOnly_same:
  "auxStore u' = auxStore u \<Longrightarrow>
   currentVariableReferenceScope u' = currentVariableReferenceScope u \<Longrightarrow> writesOnly p u u'"
  by (simp add: writesOnly_def)

lemma writesOnly_trans:
  assumes "writesOnly p u t" and "writesOnly p t u'"
  shows "writesOnly p u u'"
  using assms unfolding writesOnly_def by (metis subset_trans)

lemma declaredNamesOf_declareIn:
  assumes "p < length store"
  shows "declaredNamesOf (declareIn p n a store ! p) = insert n (declaredNamesOf (store ! p))"
  using assms by (simp add: declareIn_def declaredNamesOf_def dom_update)

lemma writesOnly_declareIn:
  assumes "auxStore u' = declareIn p n a (auxStore u)"
    and "currentVariableReferenceScope u' = currentVariableReferenceScope u"
    and "p < length (auxStore u)"
  shows "writesOnly p u u'" and "n \<in> declaredNamesOf (auxStore u' ! p)"
proof -
  have names: "declaredNamesOf (auxStore u' ! p) = insert n (declaredNamesOf (auxStore u ! p))"
    by (simp add: assms(1) declaredNamesOf_declareIn [OF assms(3)])
  then show "n \<in> declaredNamesOf (auxStore u' ! p)"
    by simp
  have "length (auxStore u') = length (auxStore u)"
    and "\<forall>q < length (auxStore u). q \<noteq> p \<longrightarrow> auxStore u' ! q = auxStore u ! q"
    by (simp_all add: assms(1) declareIn_def)
  with names assms(2) show "writesOnly p u u'"
    unfolding writesOnly_def by auto
qed

lemma ExposeNewVariable_writesOnly:
  assumes run: "ExposeNewVariable n v u = Inr u'"
    and scope: "currentVariableReferenceScope u = Some p"
  shows "writesOnly p u u'"
    and "type v = Node \<or> type v = Edge \<Longrightarrow> n \<in> declaredNamesOf (auxStore u' ! p)"
proof -
  note r = ExposeNewVariable_records [OF run]
  show "writesOnly p u u'"
  proof (cases "type v = Node \<or> type v = Edge")
    case True
    from r(2) [OF True] scope have "p < length (auxStore u)"
      and "auxStore u' = declareIn p n
             \<lparr>auxType = type v, degreeOfExposure = degree v, auxIsTemp = False\<rparr> (auxStore u)"
      by auto
    from writesOnly_declareIn(1) [OF this(2) r(1) this(1)] show ?thesis .
  next
    case False
    from r(3) [OF False] r(1) show ?thesis
      by (rule writesOnly_same)
  qed
  show "n \<in> declaredNamesOf (auxStore u' ! p)" if "type v = Node \<or> type v = Edge"
  proof -
    from r(2) [OF that] scope have "p < length (auxStore u)"
      and "auxStore u' = declareIn p n
             \<lparr>auxType = type v, degreeOfExposure = degree v, auxIsTemp = False\<rparr> (auxStore u)"
      by auto
    from writesOnly_declareIn(2) [OF this(2) r(1) this(1)] show ?thesis .
  qed
qed

lemma DeclareVariable_records:
  assumes run: "DeclareVariable n pos ty temp u = Inr u'"
    and kind: "ty = Node \<or> ty = Edge"
  shows "\<exists>p. currentVariableReferenceScope u = Some p \<and> p < length (auxStore u) \<and>
           currentVariableReferenceScope u' = Some p \<and>
           auxStore u' =
             declareIn p n
               \<lparr>auxType = ty, degreeOfExposure = UnconditionalSingleton, auxIsTemp = False\<rparr>
               (auxStore u)"
proof -
  let ?v = "\<lparr>type = ty, declarationPosition = pos, isTemp = temp,
              degree = UnconditionalSingleton, isStrictInterior = False\<rparr>"
  from run obtain s2 s3 where r: "recordDeclaration n pos ty u = Inr s2"
    and en: "ExposeNewVariable n ?v s2 = Inr s3"
    and c: "countDeclaration n s3 = Inr u'"
    by (auto simp add: DeclareVariable_unfold andThen_eq_Inr)
  from kind have "type ?v = Node \<or> type ?v = Edge"
    by simp
  from ExposeNewVariable_records(2) [OF en this] ExposeNewVariable_records(1) [OF en]
    recordDeclaration_Inr [OF r] countDeclaration_Inr [OF c]
  show ?thesis
    by auto
qed

lemma reexpose_loop_writesOnly:
  assumes run: "forEach (\<lambda>v st. andThen (h st v) (\<lambda>v'. ExposeNewVariable (fst v) v' st)) vs u0 =
      Inr u1"
    and kind: "\<And>st v v'. h st v = Inr v' \<Longrightarrow> type v' = type (snd v)"
    and scope: "currentVariableReferenceScope u0 = Some p"
  shows "writesOnly p u0 u1 \<and>
         (\<forall>v \<in> set vs. type (snd v) = Node \<or> type (snd v) = Edge \<longrightarrow>
            fst v \<in> declaredNamesOf (auxStore u1 ! p))"
  using run scope
proof (induction vs arbitrary: u0)
  case Nil
  then show ?case
    by (simp add: writesOnly_refl)
next
  case (Cons x vs)
  from Cons.prems(1) obtain v' ua where h: "h u0 x = Inr v'"
    and e: "ExposeNewVariable (fst x) v' u0 = Inr ua"
    and rest: "forEach (\<lambda>v st. andThen (h st v) (\<lambda>v'. ExposeNewVariable (fst v) v' st)) vs ua =
      Inr u1"
    unfolding forEach.simps andThen_eq_Inr by blast
  note step = ExposeNewVariable_writesOnly [OF e Cons.prems(2)]
  from step(1) Cons.prems(2) have scope_a: "currentVariableReferenceScope ua = Some p"
    by (simp add: writesOnly_def)
  from Cons.IH [OF rest scope_a] have later: "writesOnly p ua u1"
    and names: "\<forall>v \<in> set vs. type (snd v) = Node \<or> type (snd v) = Edge \<longrightarrow>
            fst v \<in> declaredNamesOf (auxStore u1 ! p)"
    by simp_all
  have "fst x \<in> declaredNamesOf (auxStore u1 ! p)" if "type (snd x) = Node \<or> type (snd x) = Edge"
  proof -
    from that kind [OF h] have "type v' = Node \<or> type v' = Edge"
      by simp
    from step(2) [OF this] later show ?thesis
      by (auto simp add: writesOnly_def)
  qed
  with names writesOnly_trans [OF step(1) later] show ?case
    by simp
qed

lemma afterQuantifiedLoop_scope:
  "ensures (afterQuantifiedLoop lowerBound s1)
     (\<lambda>t. currentVariableReferenceScope t = currentVariableReferenceScope s1)"
  unfolding afterQuantifiedLoop_def Let_def
  by (simp add: ensures_andThen ensures_checkedInt split: list.split)

lemma ExitQuantifiedPathPrimary_writesOnly:
  assumes run: "ExitQuantifiedPathPrimary bounded lowerBound u = Inr u'"
    and frames: "exposedVariables u = frame # rest"
    and scope: "currentVariableReferenceScope u = Some p"
  shows "writesOnly p u u' \<and>
         (\<forall>v \<in> set frame. type (snd v) = Node \<or> type (snd v) = Edge \<longrightarrow>
            fst v \<in> declaredNamesOf (auxStore u' ! p))"
proof -
  let ?u0 = "u\<lparr>isInsideQuantifiedPathPrimary := False, exposedVariables := rest\<rparr>"
  from run obtain s1 where
    loop: "forEach (\<lambda>v st. andThen (quantifiedDegree bounded st (snd v))
                   (\<lambda>v'. ExposeNewVariable (fst v) v' st)) frame ?u0 = Inr s1"
    and tail: "afterQuantifiedLoop lowerBound s1 = Inr u'"
    unfolding ExitQuantifiedPathPrimary_unfold [OF frames] andThen_eq_Inr by blast
  have kind: "type v' = type (snd v)" if "quantifiedDegree bounded st (snd v) = Inr v'"
    for st v' and v :: "string \<times> ExposedVariable"
    using quantifiedDegree_Inr [OF that] by (simp add: quantified_def)
  have "currentVariableReferenceScope ?u0 = Some p"
    by (simp add: scope)
  from reexpose_loop_writesOnly [where h = "\<lambda>st v. quantifiedDegree bounded st (snd v)",
      OF loop kind this]
  have w: "writesOnly p ?u0 s1"
    and names: "\<forall>v \<in> set frame. type (snd v) = Node \<or> type (snd v) = Edge \<longrightarrow>
            fst v \<in> declaredNamesOf (auxStore s1 ! p)"
    by simp_all
  from ensuresD [OF tail afterQuantifiedLoop_keeps] ensuresD [OF tail afterQuantifiedLoop_scope]
  have same: "auxStore u' = auxStore s1"
    "currentVariableReferenceScope u' = currentVariableReferenceScope s1"
    by simp_all
  have "writesOnly p u ?u0"
    by (rule writesOnly_same) simp_all
  from writesOnly_trans [OF this w] writesOnly_same [OF same] have "writesOnly p u u'"
    by (rule writesOnly_trans)
  with names show ?thesis
    by (simp add: same)
qed

lemma ExitQuestionedPathPrimary_writesOnly:
  assumes run: "ExitQuestionedPathPrimary u = Inr u'"
    and frames: "exposedVariables u = frame # rest"
    and scope: "currentVariableReferenceScope u = Some p"
  shows "writesOnly p u u' \<and>
         (\<forall>v \<in> set frame. type (snd v) = Node \<or> type (snd v) = Edge \<longrightarrow>
            fst v \<in> declaredNamesOf (auxStore u' ! p))"
proof -
  let ?u0 = "u\<lparr>exposedVariables := rest\<rparr>"
  from run obtain s1 where
    loop: "forEach (\<lambda>v. ExposeNewVariable (fst v) (questionedDegree (snd v))) frame ?u0 = Inr s1"
    unfolding ExitQuestionedPathPrimary_def frames list.case andThen_eq_Inr by blast
  have "ensures (ExitQuestionedPathPrimary u)
          (\<lambda>t. auxStore t = auxStore s1 \<and>
               currentVariableReferenceScope t = currentVariableReferenceScope s1)"
    unfolding ExitQuestionedPathPrimary_def frames list.case loop andThen_Inr Let_def
    by (simp split: list.split)
  from ensuresD [OF run this]
  have same: "auxStore u' = auxStore s1"
    "currentVariableReferenceScope u' = currentVariableReferenceScope s1"
    by simp_all
  have loop': "forEach (\<lambda>v st. andThen (Inr (questionedDegree (snd v)))
                   (\<lambda>v'. ExposeNewVariable (fst v) v' st)) frame ?u0 = Inr s1"
    using loop by simp
  have kind: "type v' = type (snd v)" if "Inr (questionedDegree (snd v)) = Inr v'"
    for st :: GraphPatternContext and v' and v :: "string \<times> ExposedVariable"
    using that by (auto simp add: questionedDegree_def split: VariableDegreeOfExposure.splits)
  have "currentVariableReferenceScope ?u0 = Some p"
    by (simp add: scope)
  from reexpose_loop_writesOnly [where h = "\<lambda>st v. Inr (questionedDegree (snd v))",
      OF loop' kind this]
  have w: "writesOnly p ?u0 s1"
    and names: "\<forall>v \<in> set frame. type (snd v) = Node \<or> type (snd v) = Edge \<longrightarrow>
            fst v \<in> declaredNamesOf (auxStore s1 ! p)"
    by simp_all
  have "writesOnly p u ?u0"
    by (rule writesOnly_same) simp_all
  from writesOnly_trans [OF this w] writesOnly_same [OF same] have "writesOnly p u u'"
    by (rule writesOnly_trans)
  with names show ?thesis
    by (simp add: same)
qed

lemma keepsRecords_refl [simp]: "keepsRecords s s"
  by (simp add: keepsRecords_def)

lemma keepsRecords_trans: "keepsRecords s t \<Longrightarrow> keepsRecords t u \<Longrightarrow> keepsRecords s u"
  by (simp add: keepsRecords_def)

lemma AppendExposedVariables_keeps:
  assumes run: "AppendExposedVariables s = Inr t"
  shows "keepsRecords s t"
proof -
  from run obtain vs rest where
    loop: "forEach (\<lambda>v. ExposeVariable (fst v) (snd v)) vs (s\<lparr>exposedVariables := rest\<rparr>) = Inr t"
    by (auto simp add: AppendExposedVariables_def case_list_eq_Inr)
  have step: "keepsRecords s u'"
    if "x \<in> set vs" and "ExposeVariable (fst x) (snd x) u = Inr u'" and "keepsRecords s u"
    for x u u'
    using ExposeVariable_records [OF that(2)] that(3) by (simp add: keepsRecords_def)
  have "keepsRecords s (s\<lparr>exposedVariables := rest\<rparr>)"
    by (simp add: keepsRecords_def)
  with step loop show ?thesis
    by (rule forEach_preserves)
qed

lemma ExitVariableScope_keeps:
  assumes run: "ExitVariableScope s = Inr t"
  shows "keepsRecords s t"
proof -
  have "ensures (ExitVariableScope s) (\<lambda>t. \<exists>sx. AppendExposedVariables sx = Inr t \<and> keepsRecords s sx)"
    unfolding ExitVariableScope_def
    by (rule ensuresI) (auto simp add: keepsRecords_def split: list.splits if_splits)
  from ensuresD [OF run this] obtain sx where "AppendExposedVariables sx = Inr t"
    and "keepsRecords s sx"
    by blast
  with AppendExposedVariables_keeps show ?thesis
    by (blast intro: keepsRecords_trans)
qed

lemma ExitParenthesized_keeps:
  assumes run: "ExitParenthesizedPathPatternExpression h s = Inr t"
  shows "keepsRecords s t"
proof -
  have "ensures (ExitParenthesizedPathPatternExpression h s)
      (\<lambda>t. \<exists>s1. ExitVariableScope s = Inr s1 \<and> keepsRecords s1 t)"
    unfolding ExitParenthesizedPathPatternExpression_def ensures_andThen
    by (rule ensuresI) (simp add: keepsRecords_def split: list.split)
  from ensuresD [OF run this] obtain s1 where "ExitVariableScope s = Inr s1"
    and "keepsRecords s1 t"
    by blast
  with ExitVariableScope_keeps show ?thesis
    by (blast intro: keepsRecords_trans)
qed

lemma ExitPathPatternUnion_keeps:
  assumes run: "ExitPathPatternUnion s = Inr t"
  shows "keepsRecords s t"
proof -
  have "ensures (ExitPathPatternUnion s)
      (\<lambda>t. \<exists>s1. AppendExposedVariables s = Inr s1 \<and> keepsRecords s1 t)"
    unfolding ExitPathPatternUnion_def ensures_andThen Let_def
    by (rule ensuresI)
       (simp add: ensures_andThen ensures_checkedInt keepsRecords_def split: list.split prod.split)
  from ensuresD [OF run this] obtain s1 where "AppendExposedVariables s = Inr s1"
    and "keepsRecords s1 t"
    by blast
  with AppendExposedVariables_keeps show ?thesis
    by (blast intro: keepsRecords_trans)
qed

lemma simple_steps_keep:
  "ensures (ExitPathPatternUnionOperand s) (keepsRecords s)"
  "ensures (EnterPathMode mode s) (keepsRecords s)"
  "ensures (ExitPathMode s) (keepsRecords s)"
  "ensures (AddSearchCondition cond s) (keepsRecords s)"
  "ensures (EnterNodePattern s) (keepsRecords s)"
  "ensures (EnterEdgePattern s) (keepsRecords s)"
  "ensures (EnterQuantifiedPathPrimary bounded s) (keepsRecords s)"
  "keepsRecords s (EnterQuestionedPathPrimary s)"
  "keepsRecords s (EnterPathPatternUnion s)"
  "keepsRecords s (EnterPathPatternUnionOperand s)"
  "keepsRecords s (EnterParenthesizedPathPatternExpression s)"
  by (simp_all add: ExitPathPatternUnionOperand_def EnterPathMode_def ExitPathMode_def
      AddSearchCondition_def EnterNodePattern_def EnterEdgePattern_def
      EnterQuantifiedPathPrimary_def IsInsideRestrictiveSearch_def EnterQuestionedPathPrimary_def
      EnterPathPatternUnion_def EnterPathPatternUnionOperand_def
      EnterParenthesizedPathPatternExpression_def EnterVariableScope_def Let_def
      keepsRecords_def ensures_andThen ensures_checkedInt split: list.split prod.split)

lemma DeclareSubpathVariable_keeps:
  assumes run: "DeclareSubpathVariable v s = Inr t"
  shows "keepsRecords s t"
proof -
  let ?v = "\<lparr>type = Subpath, declarationPosition = subpathPosition v, isTemp = False,
              degree = UnconditionalSingleton, isStrictInterior = False\<rparr>"
  from run obtain s2 s3 where r: "recordDeclaration (subpathName v) (subpathPosition v) Subpath s = Inr s2"
    and en: "ExposeNewVariable (subpathName v) ?v s2 = Inr s3"
    and c: "countDeclaration (subpathName v) s3 = Inr t"
    by (auto simp add: DeclareSubpathVariable_def DeclareVariable_unfold andThen_eq_Inr)
  have "\<not> (type ?v = Node \<or> type ?v = Edge)"
    by simp
  from ExposeNewVariable_records(3) [OF en this] ExposeNewVariable_records(1) [OF en]
    recordDeclaration_Inr [OF r] countDeclaration_Inr [OF c]
  show ?thesis
    by (simp add: keepsRecords_def)
qed

lemma extendsRecords_refl [simp]: "extendsRecords s s"
  by (simp add: extendsRecords_def)

lemma extendsRecords_trans:
  assumes "extendsRecords s t" and "extendsRecords t u"
  shows "extendsRecords s u"
  unfolding extendsRecords_def
proof (intro conjI allI impI)
  show "currentVariableReferenceScope u = currentVariableReferenceScope s"
    using assms by (simp add: extendsRecords_def)
  show "length (auxStore s) \<le> length (auxStore u)"
    using assms by (simp add: extendsRecords_def)
next
  fix k
  assume k: "k < length (auxStore s)"
  with assms(1) have kt: "k < length (auxStore t)"
    by (simp add: extendsRecords_def)
  show "auxStore u ! k = auxStore s ! k" if "currentVariableReferenceScope s \<noteq> Some k"
    using assms k kt that by (simp add: extendsRecords_def)
  show "declaredNamesOf (auxStore s ! k) \<subseteq> declaredNamesOf (auxStore u ! k)"
    using assms k kt unfolding extendsRecords_def by (meson subset_trans)
qed

lemma extendsRecords_keeps: "keepsRecords s t \<Longrightarrow> extendsRecords s t"
  by (simp add: keepsRecords_def extendsRecords_def)

lemma extendsRecords_writes:
  "writesOnly p s t \<Longrightarrow> currentVariableReferenceScope s = Some p \<Longrightarrow> extendsRecords s t"
  unfolding writesOnly_def extendsRecords_def by (metis order_refl)

lemma extendsRecords_appends: "appendsRecords s t \<Longrightarrow> extendsRecords s t"
proof -
  assume a: "appendsRecords s t"
  then have len: "length (auxStore s) \<le> length (auxStore t)"
    unfolding appendsRecords_def by (metis length_take min.cobounded1)
  have "auxStore t ! k = auxStore s ! k" if "k < length (auxStore s)" for k
    using a that unfolding appendsRecords_def by (metis nth_take)
  with a len show ?thesis
    by (simp add: appendsRecords_def extendsRecords_def)
qed

lemma scope_bracket:
  assumes enter: "VariableReferenceScope_enter s = (outer, s1)"
    and inner: "extendsRecords s1 s4"
  shows "appendsRecords s (VariableReferenceScope_exit outer s4)"
proof -
  from enter have outer: "outer = currentVariableReferenceScope s"
    and store1: "auxStore s1 = auxStore s @ [\<lparr>declaredVariables = []\<rparr>]"
    and scope1: "currentVariableReferenceScope s1 = Some (length (auxStore s))"
    by (auto simp add: VariableReferenceScope_enter_def)
  from inner store1 have len: "length (auxStore s) \<le> length (auxStore s4)"
    by (simp add: extendsRecords_def)
  have same: "auxStore s4 ! k = auxStore s ! k" if "k < length (auxStore s)" for k
  proof -
    from that have "k < length (auxStore s1)" and "currentVariableReferenceScope s1 \<noteq> Some k"
      by (simp_all add: store1 scope1)
    with inner have "auxStore s4 ! k = auxStore s1 ! k"
      by (simp add: extendsRecords_def)
    with that show ?thesis
      by (simp add: store1 nth_append)
  qed
  have "take (length (auxStore s)) (auxStore s4) = auxStore s"
    using len same by (intro nth_equalityI) simp_all
  then show ?thesis
    by (simp add: appendsRecords_def VariableReferenceScope_exit_def outer)
qed

lemma extendingD: "extending f \<Longrightarrow> ensures (f s) (extendsRecords s)"
  by (cases "f s") (simp_all add: extending_def)

lemma extends_then:
  assumes "extendsRecords s x" and "ensures m (extendsRecords x)"
  shows "ensures m (extendsRecords s)"
  using assms by (cases m) (auto intro: extendsRecords_trans)

lemma keeps_then:
  assumes "extendsRecords s x" and "ensures m (keepsRecords x)"
  shows "ensures m (extendsRecords s)"
  using assms by (cases m) (auto intro: extendsRecords_trans extendsRecords_keeps)

lemma forEach_extending:
  assumes "\<And>x. x \<in> set xs \<Longrightarrow> extending (f x)"
  shows "extending (forEach f xs)"
  unfolding extending_def
proof (intro allI impI)
  fix s t
  assume run: "forEach f xs s = Inr t"
  have step: "extendsRecords s u'"
    if "x \<in> set xs" and "f x u = Inr u'" and "extendsRecords s u" for x u u'
  proof -
    from assms [OF that(1)] that(2) have "extendsRecords u u'"
      by (simp add: extending_def)
    with that(3) show ?thesis
      by (rule extendsRecords_trans)
  qed
  have "extendsRecords s s"
    by simp
  with step run show "extendsRecords s t"
    by (rule forEach_preserves)
qed

lemma appendingI:
  assumes "\<And>s. ensures (f s) (appendsRecords s)"
  shows "appending f"
  unfolding appending_def
proof (intro allI impI)
  fix s t
  assume "f s = Inr t"
  with assms [of s] show "appendsRecords s t"
    by simp
qed

lemma extendingI:
  assumes "\<And>s. ensures (f s) (extendsRecords s)"
  shows "extending f"
  unfolding extending_def
proof (intro allI impI)
  fix s t
  assume "f s = Inr t"
  with assms [of s] show "extendsRecords s t"
    by simp
qed

lemma appending_extending: "appending f \<Longrightarrow> extending f"
  by (simp add: appending_def extending_def extendsRecords_appends)

lemma processTerm_extending:
  assumes "\<And>factor. factor \<in> set factors \<Longrightarrow> extending factor"
  shows "extending (processTerm unionActive factors)"
proof (rule extendingI)
  fix s
  have loop: "extending (forEach (\<lambda>factor. factor) factors)"
    using assms by (rule forEach_extending)
  have start: "extendsRecords s (if unionActive then EnterPathPatternUnionOperand s else s)"
    by (simp add: extendsRecords_keeps simple_steps_keep)
  have first: "ensures
      (forEach (\<lambda>factor. factor) factors
         (if unionActive then EnterPathPatternUnionOperand s else s)) (extendsRecords s)"
    using start extendingD [OF loop] by (rule extends_then)
  have finish: "ensures (if unionActive then ExitPathPatternUnionOperand s1 else Inr s1)
      (extendsRecords s)" if "extendsRecords s s1" for s1
    using that by (rule keeps_then) (simp add: simple_steps_keep)
  show "ensures (processTerm unionActive factors s) (extendsRecords s)"
    unfolding processTerm_def
    by (rule ensures_bind [OF first finish])
qed

lemma processExpression_appending:
  assumes "\<And>factors factor. factors \<in> set termList \<Longrightarrow> factor \<in> set factors \<Longrightarrow>
      extending factor"
  shows "appending (processExpression supported oper termList)"
proof (rule appendingI)
  fix s
  obtain outer s1 where en: "VariableReferenceScope_enter s = (outer, s1)"
    by (cases "VariableReferenceScope_enter s")
  have start: "extendsRecords s1 (if length termList > 1 then EnterPathPatternUnion s1 else s1)"
    by (simp add: extendsRecords_keeps simple_steps_keep)
  have loop: "extending (forEach (processTerm (length termList > 1)) termList)"
    using assms by (intro forEach_extending processTerm_extending)
  have first: "ensures
      (forEach (processTerm (length termList > 1)) termList
         (if length termList > 1 then EnterPathPatternUnion s1 else s1)) (extendsRecords s1)"
    using start extendingD [OF loop] by (rule extends_then)
  have finish: "ensures (if length termList > 1 then ExitPathPatternUnion s3 else Inr s3)
      (extendsRecords s1)" if "extendsRecords s1 s3" for s3
  proof -
    have "ensures (ExitPathPatternUnion s3) (keepsRecords s3)"
      by (rule ensuresI) (rule ExitPathPatternUnion_keeps)
    then have "ensures (if length termList > 1 then ExitPathPatternUnion s3 else Inr s3)
        (keepsRecords s3)"
      by simp
    with that show ?thesis
      by (rule keeps_then)
  qed
  have body: "ensures
      (andThen (forEach (processTerm (length termList > 1)) termList
                  (if length termList > 1 then EnterPathPatternUnion s1 else s1)) (\<lambda>s3.
       andThen (if length termList > 1 then ExitPathPatternUnion s3 else Inr s3) (\<lambda>s4.
         Inr (VariableReferenceScope_exit outer s4)))) (appendsRecords s)"
    by (rule ensures_bind [OF first], rule ensures_bind [OF finish], assumption)
       (simp add: scope_bracket [OF en])
  show "ensures (processExpression supported oper termList s) (appendsRecords s)"
    unfolding processExpression_def en Let_def prod.case
    by (rule ensures_bind_unit) (rule body)
qed

lemma processFactor_appending:
  assumes "extending primary"
  shows "appending (processFactor supported q primary)"
proof (rule appendingI)
  fix s
  obtain outer s1 where en: "VariableReferenceScope_enter s = (outer, s1)"
    by (cases "VariableReferenceScope_enter s")
  have enter: "ensures
      (case q of
         NoQuantifier \<Rightarrow> Inr s1
       | Optional \<Rightarrow> Inr (EnterQuestionedPathPrimary s1)
       | GraphPatternQuantifier lo up \<Rightarrow>
           andThen (ThrowIfFeatureNotSupported supported (if up \<noteq> None then G060 else G061))
             (\<lambda>_. EnterQuantifiedPathPrimary (up \<noteq> None) s1)) (extendsRecords s1)"
  proof (cases q)
    case (GraphPatternQuantifier lo up)
    have "ensures (EnterQuantifiedPathPrimary (up \<noteq> None) s1) (extendsRecords s1)"
      by (rule keeps_then [OF extendsRecords_refl]) (rule simple_steps_keep)
    then show ?thesis
      unfolding GraphPatternQuantifier Quantifier.case by (intro ensures_bind_unit)
  qed (simp_all add: extendsRecords_keeps simple_steps_keep)
  have inner: "ensures (primary s2) (extendsRecords s1)" if "extendsRecords s1 s2" for s2
    using that extendingD [OF assms] by (rule extends_then)
  have leave: "ensures
      (case q of
         NoQuantifier \<Rightarrow> Inr s3
       | Optional \<Rightarrow> ExitQuestionedPathPrimary s3
       | GraphPatternQuantifier lo up \<Rightarrow>
           ExitQuantifiedPathPrimary (up \<noteq> None) (toInt lo) s3) (extendsRecords s1)"
    if s3: "extendsRecords s1 s3" for s3
  proof -
    have scope3: "currentVariableReferenceScope s3 = Some (length (auxStore s))"
      using s3 en by (auto simp add: extendsRecords_def VariableReferenceScope_enter_def)
    have questioned: "ensures (ExitQuestionedPathPrimary s3) (extendsRecords s3)"
    proof (rule ensuresI)
      fix t
      assume x: "ExitQuestionedPathPrimary s3 = Inr t"
      then obtain frame rest where "exposedVariables s3 = frame # rest"
        by (cases "exposedVariables s3") (simp_all add: ExitQuestionedPathPrimary_def)
      from ExitQuestionedPathPrimary_writesOnly [OF x this scope3]
      have "writesOnly (length (auxStore s)) s3 t"
        by simp
      then show "extendsRecords s3 t"
        using scope3 by (rule extendsRecords_writes)
    qed
    have quantified: "ensures (ExitQuantifiedPathPrimary bounded lowerBound s3) (extendsRecords s3)"
      for bounded lowerBound
    proof (rule ensuresI)
      fix t
      assume x: "ExitQuantifiedPathPrimary bounded lowerBound s3 = Inr t"
      then obtain frame rest where "exposedVariables s3 = frame # rest"
        by (cases "exposedVariables s3") (simp_all add: ExitQuantifiedPathPrimary_def)
      from ExitQuantifiedPathPrimary_writesOnly [OF x this scope3]
      have "writesOnly (length (auxStore s)) s3 t"
        by simp
      then show "extendsRecords s3 t"
        using scope3 by (rule extendsRecords_writes)
    qed
    have "ensures
      (case q of
         NoQuantifier \<Rightarrow> Inr s3
       | Optional \<Rightarrow> ExitQuestionedPathPrimary s3
       | GraphPatternQuantifier lo up \<Rightarrow>
           ExitQuantifiedPathPrimary (up \<noteq> None) (toInt lo) s3) (extendsRecords s3)"
      using questioned quantified by (cases q) simp_all
    with s3 show ?thesis
      by (rule extends_then)
  qed
  show "ensures (processFactor supported q primary s) (appendsRecords s)"
    unfolding processFactor_def en Let_def prod.case
    by (rule ensures_bind [OF enter], rule ensures_bind [OF inner], assumption,
        rule ensures_bind [OF leave], assumption) (simp add: scope_bracket [OF en])
qed

lemma DeclareElementVariable_writesOnly:
  "DeclareNodeVariable v s = Inr s' \<Longrightarrow>
   \<exists>p. currentVariableReferenceScope s = Some p \<and> writesOnly p s s' \<and>
       varName v \<in> declaredNamesOf (auxStore s' ! p)"
  "DeclareEdgeVariable v s = Inr s' \<Longrightarrow>
   \<exists>p. currentVariableReferenceScope s = Some p \<and> writesOnly p s s' \<and>
       varName v \<in> declaredNamesOf (auxStore s' ! p)"
proof -
  have declared: "\<exists>p. currentVariableReferenceScope s = Some p \<and> writesOnly p s t \<and>
      varName v \<in> declaredNamesOf (auxStore t ! p)"
    if run: "DeclareVariable (varName v) (varPosition v) ty (varIsTemp v) s = Inr t"
      and kind: "ty = Node \<or> ty = Edge" for ty t
  proof -
    from DeclareVariable_records [OF run kind] obtain p where
      scope: "currentVariableReferenceScope s = Some p"
      and len: "p < length (auxStore s)"
      and sc: "currentVariableReferenceScope t = currentVariableReferenceScope s"
      and store: "auxStore t = declareIn p (varName v)
          \<lparr>auxType = ty, degreeOfExposure = UnconditionalSingleton, auxIsTemp = False\<rparr>
          (auxStore s)"
      by auto
    from writesOnly_declareIn [OF store sc len] scope show ?thesis
      by simp
  qed
  show "\<exists>p. currentVariableReferenceScope s = Some p \<and> writesOnly p s s' \<and>
       varName v \<in> declaredNamesOf (auxStore s' ! p)"
    if run: "DeclareNodeVariable v s = Inr s'"
  proof -
    have "ensures (DeclareNodeVariable v s)
        (\<lambda>t. \<exists>s1. DeclareVariable (varName v) (varPosition v) Node (varIsTemp v) s = Inr s1 \<and>
           auxStore t = auxStore s1 \<and>
           currentVariableReferenceScope t = currentVariableReferenceScope s1)"
      unfolding DeclareNodeVariable_def ensures_andThen Let_def
      by (rule ensuresI) simp
    from ensuresD [OF run this] obtain s1 where
      d: "DeclareVariable (varName v) (varPosition v) Node (varIsTemp v) s = Inr s1"
      and same: "auxStore s' = auxStore s1"
        "currentVariableReferenceScope s' = currentVariableReferenceScope s1"
      by blast
    from declared [OF d] obtain p where "currentVariableReferenceScope s = Some p"
      and "writesOnly p s s1" and "varName v \<in> declaredNamesOf (auxStore s1 ! p)"
      by auto
    with writesOnly_same [OF same, of p] show ?thesis
      by (auto intro: writesOnly_trans simp add: same)
  qed
  show "\<exists>p. currentVariableReferenceScope s = Some p \<and> writesOnly p s s' \<and>
       varName v \<in> declaredNamesOf (auxStore s' ! p)"
    if "DeclareEdgeVariable v s = Inr s'"
  proof -
    from that have "DeclareVariable (varName v) (varPosition v) Edge (varIsTemp v) s = Inr s'"
      by (simp add: DeclareEdgeVariable_def)
    then show ?thesis
      by (rule declared) simp
  qed
qed

lemma processElementPattern_writesOnly:
  assumes run: "processElementPattern supported e s = Inr s'"
    and v: "var (fillerOf e) = Some v"
  shows "\<exists>p. currentVariableReferenceScope s = Some p \<and> writesOnly p s s' \<and>
           varName v \<in> declaredNamesOf (auxStore s' ! p)"
proof -
  have "\<exists>s1. keepsRecords s s1 \<and>
      (DeclareNodeVariable v s1 = Inr s' \<or> DeclareEdgeVariable v s1 = Inr s')"
  proof (cases e)
    case (NodePattern filler)
    with v have "var filler = Some v"
      by (simp add: fillerOf_def)
    with run obtain s1 where enter: "EnterNodePattern s = Inr s1"
      and "DeclareNodeVariable v s1 = Inr s'"
      unfolding processElementPattern_def NodePattern ElementPattern.case andThen_eq_Inr
      by auto
    with ensuresD [OF enter simple_steps_keep(5)] show ?thesis
      by blast
  next
    case (EdgePattern filler)
    with v have "var filler = Some v"
      by (simp add: fillerOf_def)
    with run obtain s1 where enter: "EnterEdgePattern s = Inr s1"
      and "DeclareEdgeVariable v s1 = Inr s'"
      unfolding processElementPattern_def EdgePattern ElementPattern.case andThen_eq_Inr
      by auto
    with ensuresD [OF enter simple_steps_keep(6)] show ?thesis
      by blast
  qed
  then obtain s1 where k: "keepsRecords s s1"
    and d: "DeclareNodeVariable v s1 = Inr s' \<or> DeclareEdgeVariable v s1 = Inr s'"
    by blast
  from d DeclareElementVariable_writesOnly obtain p where
    scope1: "currentVariableReferenceScope s1 = Some p" and w1: "writesOnly p s1 s'"
    and name: "varName v \<in> declaredNamesOf (auxStore s' ! p)"
    by blast
  from k have w0: "writesOnly p s s1"
    by (simp add: keepsRecords_def writesOnly_same)
  from k scope1 have "currentVariableReferenceScope s = Some p"
    by (simp add: keepsRecords_def)
  with writesOnly_trans [OF w0 w1] name show ?thesis
    by blast
qed

lemma processElementPattern_extending: "extending (processElementPattern supported e)"
  unfolding extending_def
proof (intro allI impI)
  fix s t
  assume run: "processElementPattern supported e s = Inr t"
  show "extendsRecords s t"
  proof (cases "var (fillerOf e)")
    case None
    have "ensures (processElementPattern supported e s) (keepsRecords s)"
    proof (cases e)
      case (NodePattern filler)
      with None have none: "var filler = None"
        by (simp add: fillerOf_def)
      show ?thesis
        unfolding processElementPattern_def NodePattern ElementPattern.case
        by (rule ensures_bind [OF simple_steps_keep(5)])
           (simp add: none, rule ensures_bind_unit, simp)
    next
      case (EdgePattern filler)
      with None have none: "var filler = None"
        by (simp add: fillerOf_def)
      show ?thesis
        unfolding processElementPattern_def EdgePattern ElementPattern.case
        by (rule ensures_bind [OF simple_steps_keep(6)])
           (simp add: none, rule ensures_bind_unit, simp)
    qed
    from ensuresD [OF run this] show ?thesis
      by (rule extendsRecords_keeps)
  next
    case (Some v)
    from processElementPattern_writesOnly [OF run Some] show ?thesis
      by (auto intro: extendsRecords_writes)
  qed
qed

lemma processParenthesized_extending:
  assumes "extending inner"
  shows "extending (processParenthesized supported v mode w inner)"
proof (rule extendingI)
  fix s
  let ?s0 = "EnterParenthesizedPathPatternExpression s"
  have s0: "extendsRecords s ?s0"
    by (simp add: extendsRecords_keeps simple_steps_keep)
  have enter: "ensures (case v of None \<Rightarrow> Inr ?s0 | Some subpath \<Rightarrow> DeclareSubpathVariable subpath ?s0)
      (extendsRecords s)"
  proof -
    have "ensures (DeclareSubpathVariable subpath ?s0) (keepsRecords ?s0)" for subpath
      by (rule ensuresI) (rule DeclareSubpathVariable_keeps)
    then have "ensures (case v of None \<Rightarrow> Inr ?s0 | Some subpath \<Rightarrow> DeclareSubpathVariable subpath ?s0)
        (keepsRecords ?s0)"
      by (simp split: option.split)
    with s0 show ?thesis
      by (rule keeps_then)
  qed
  have steps: "ensures (EnterPathMode mode s1) (extendsRecords s)"
    "ensures (ExitPathMode s1) (extendsRecords s)"
    "ensures (case w of None \<Rightarrow> Inr s1 | Some cond \<Rightarrow> AddSearchCondition cond s1) (extendsRecords s)"
    "ensures (inner s1) (extendsRecords s)"
    "ensures (ExitParenthesizedPathPatternExpression (v \<noteq> None) s1) (extendsRecords s)"
    if s1: "extendsRecords s s1" for s1
  proof -
    show "ensures (EnterPathMode mode s1) (extendsRecords s)"
      using s1 by (rule keeps_then) (rule simple_steps_keep)
    show "ensures (ExitPathMode s1) (extendsRecords s)"
      using s1 by (rule keeps_then) (rule simple_steps_keep)
    have "ensures (case w of None \<Rightarrow> Inr s1 | Some cond \<Rightarrow> AddSearchCondition cond s1)
        (keepsRecords s1)"
      by (simp add: simple_steps_keep split: option.split)
    with s1 show "ensures (case w of None \<Rightarrow> Inr s1 | Some cond \<Rightarrow> AddSearchCondition cond s1)
        (extendsRecords s)"
      by (rule keeps_then)
    show "ensures (inner s1) (extendsRecords s)"
      using s1 extendingD [OF assms] by (rule extends_then)
    have "ensures (ExitParenthesizedPathPatternExpression (v \<noteq> None) s1) (keepsRecords s1)"
      by (rule ensuresI) (rule ExitParenthesized_keeps)
    with s1 show "ensures (ExitParenthesizedPathPatternExpression (v \<noteq> None) s1) (extendsRecords s)"
      by (rule keeps_then)
  qed
  show "ensures (processParenthesized supported v mode w inner s) (extendsRecords s)"
    unfolding processParenthesized_def Let_def
    by (rule ensures_bind_unit, rule ensures_bind_unit, rule ensures_bind_unit,
        rule ensures_bind_unit,
        rule ensures_bind [OF enter], rule ensures_bind [OF steps(1)], assumption,
        rule ensures_bind [OF steps(4)], assumption,
        rule ensures_bind [OF steps(3)], assumption,
        rule ensures_bind [OF steps(2)], assumption,
        rule steps(5))
qed

lemma Process_records:
  "appending (Process_PathPatternExpression supported pat)"
  "appending (Process_PathFactor supported factor)"
  "extending (Process_PathPrimary supported primary)"
proof -
  have "True" and "True" and "True"
    and "extending (Process_PathPrimary supported primary)"
    and "appending (Process_PathFactor supported factor)"
    and "appending (Process_PathPatternExpression supported pat)"
  proof (induction
      "x1 :: ValueExpression" and "x2 :: ElementPatternFiller" and "x3 :: ElementPattern"
      and primary and factor and pat)
    case (ElementPatternPrimary e)
    show ?case
      by (simp add: processElementPattern_extending)
  next
    case (ParenthesizedPathPatternExpression v mode pat w)
    then show ?case
      by (simp add: processParenthesized_extending appending_extending)
  next
    case SimplifiedPathPatternExpression
    show ?case
      by (simp add: extending_def)
  next
    case (PathFactor q p)
    then show ?case
      by (simp add: processFactor_appending)
  next
    case (PathPatternExpression ts oper)
    have "appending (processExpression supported oper (map (map (Process_PathFactor supported)) ts))"
    proof (rule processExpression_appending)
      fix factors factor
      assume "factors \<in> set (map (map (Process_PathFactor supported)) ts)"
        and "factor \<in> set factors"
      then obtain t f where "t \<in> set ts" and "f \<in> set t"
        and "factor = Process_PathFactor supported f"
        by auto
      with PathPatternExpression show "extending factor"
        by (simp add: appending_extending)
    qed
    then show ?case
      by simp
  qed simp_all
  then show "appending (Process_PathPatternExpression supported pat)"
    "appending (Process_PathFactor supported factor)"
    "extending (Process_PathPrimary supported primary)"
    by simp_all
qed

lemma processFactor_unfold:
  "processFactor supported q primary s =
     andThen (enterQuantifier supported q (snd (VariableReferenceScope_enter s))) (\<lambda>s2.
     andThen (primary s2) (\<lambda>s3.
     andThen (exitQuantifier q s3) (\<lambda>s4.
       Inr (VariableReferenceScope_exit (fst (VariableReferenceScope_enter s)) s4))))"
  by (cases "VariableReferenceScope_enter s")
     (simp add: processFactor_def enterQuantifier_def [abs_def] exitQuantifier_def [abs_def])

lemma enterQuantifier_keeps: "ensures (enterQuantifier supported q s1) (keepsRecords s1)"
proof (cases q)
  case (GraphPatternQuantifier lo up)
  show ?thesis
    unfolding enterQuantifier_def GraphPatternQuantifier Quantifier.case
    by (rule ensures_bind_unit) (rule simple_steps_keep)
qed (simp_all add: enterQuantifier_def simple_steps_keep)

lemma exitQuantifier_writesOnly:
  assumes run: "exitQuantifier q s3 = Inr s4"
    and scope: "currentVariableReferenceScope s3 = Some p"
  shows "writesOnly p s3 s4"
    and "q \<noteq> NoQuantifier \<Longrightarrow> exposedVariables s3 = frame # rest \<Longrightarrow>
         \<forall>v \<in> set frame. type (snd v) = Node \<or> type (snd v) = Edge \<longrightarrow>
           fst v \<in> declaredNamesOf (auxStore s4 ! p)"
proof -
  have both: "writesOnly p s3 s4 \<and>
      (q \<noteq> NoQuantifier \<longrightarrow> exposedVariables s3 = frame # rest \<longrightarrow>
         (\<forall>v \<in> set frame. type (snd v) = Node \<or> type (snd v) = Edge \<longrightarrow>
           fst v \<in> declaredNamesOf (auxStore s4 ! p)))"
  proof (cases q)
    case NoQuantifier
    with run show ?thesis
      by (simp add: exitQuantifier_def writesOnly_refl)
  next
    case Optional
    with run have x: "ExitQuestionedPathPrimary s3 = Inr s4"
      by (simp add: exitQuantifier_def)
    then obtain frame' rest' where f: "exposedVariables s3 = frame' # rest'"
      by (cases "exposedVariables s3") (simp_all add: ExitQuestionedPathPrimary_def)
    from ExitQuestionedPathPrimary_writesOnly [OF x f scope] f show ?thesis
      by auto
  next
    case (GraphPatternQuantifier lo up)
    with run have x: "ExitQuantifiedPathPrimary (up \<noteq> None) (toInt lo) s3 = Inr s4"
      by (simp add: exitQuantifier_def)
    then obtain frame' rest' where f: "exposedVariables s3 = frame' # rest'"
      by (cases "exposedVariables s3") (simp_all add: ExitQuantifiedPathPrimary_def)
    from ExitQuantifiedPathPrimary_writesOnly [OF x f scope] f show ?thesis
      by auto
  qed
  from both show "writesOnly p s3 s4"
    by simp
  from both show "\<forall>v \<in> set frame. type (snd v) = Node \<or> type (snd v) = Edge \<longrightarrow>
           fst v \<in> declaredNamesOf (auxStore s4 ! p)"
    if "q \<noteq> NoQuantifier" and "exposedVariables s3 = frame # rest"
    using that by simp
qed

lemma factor_record:
  assumes enter: "enterQuantifier supported q (snd (VariableReferenceScope_enter u)) = Inr s2"
    and inner: "primary s2 = Inr s3"
    and ext: "extending primary"
    and leave: "exitQuantifier q s3 = Inr s4"
  shows "currentVariableReferenceScope s3 = Some (length (auxStore u))"
    and "\<exists>r new. auxStore s4 = auxStore u @ r # new \<and>
           declaredNamesOf (auxStore s3 ! length (auxStore u)) \<subseteq> declaredNamesOf r \<and>
           (q \<noteq> NoQuantifier \<longrightarrow> (\<forall>frame rest. exposedVariables s3 = frame # rest \<longrightarrow>
              (\<forall>v \<in> set frame. type (snd v) = Node \<or> type (snd v) = Edge \<longrightarrow>
                 fst v \<in> declaredNamesOf r)))"
proof -
  let ?p = "length (auxStore u)"
  let ?s1 = "snd (VariableReferenceScope_enter u)"
  have store1: "auxStore ?s1 = auxStore u @ [\<lparr>declaredVariables = []\<rparr>]"
    and scope1: "currentVariableReferenceScope ?s1 = Some ?p"
    by (simp_all add: VariableReferenceScope_enter_def)
  from ensuresD [OF enter enterQuantifier_keeps] have k2: "keepsRecords ?s1 s2" .
  from ext inner have e3: "extendsRecords s2 s3"
    by (simp add: extending_def)
  from k2 scope1 have scope2: "currentVariableReferenceScope s2 = Some ?p"
    by (simp add: keepsRecords_def)
  with e3 show scope3: "currentVariableReferenceScope s3 = Some ?p"
    by (simp add: extendsRecords_def)
  note w = exitQuantifier_writesOnly [OF leave scope3]
  from k2 store1 have len2: "length (auxStore s2) = Suc ?p"
    by (simp add: keepsRecords_def)
  with e3 have len3: "Suc ?p \<le> length (auxStore s3)"
    by (simp add: extendsRecords_def)
  with w(1) have len4: "?p < length (auxStore s4)"
    by (simp add: writesOnly_def)
  have same: "auxStore s4 ! k = auxStore u ! k" if "k < ?p" for k
  proof -
    from that len2 scope2 e3 have "auxStore s3 ! k = auxStore s2 ! k"
      by (simp add: extendsRecords_def)
    moreover from that len3 w(1) have "auxStore s4 ! k = auxStore s3 ! k"
      by (simp add: writesOnly_def)
    moreover from that k2 have "auxStore s2 ! k = auxStore u ! k"
      by (simp add: keepsRecords_def store1 nth_append)
    ultimately show ?thesis
      by simp
  qed
  have "take ?p (auxStore s4) = auxStore u"
    using len4 same by (intro nth_equalityI) simp_all
  with id_take_nth_drop [OF len4]
  have split: "auxStore s4 = auxStore u @ (auxStore s4 ! ?p) # drop (Suc ?p) (auxStore s4)"
    by simp
  have grow: "declaredNamesOf (auxStore s3 ! ?p) \<subseteq> declaredNamesOf (auxStore s4 ! ?p)"
    using w(1) by (simp add: writesOnly_def)
  have names: "\<forall>frame rest. exposedVariables s3 = frame # rest \<longrightarrow>
      (\<forall>v \<in> set frame. type (snd v) = Node \<or> type (snd v) = Edge \<longrightarrow>
         fst v \<in> declaredNamesOf (auxStore s4 ! ?p))" if "q \<noteq> NoQuantifier"
    using w(2) [OF that] by blast
  from split grow names
  show "\<exists>r new. auxStore s4 = auxStore u @ r # new \<and>
           declaredNamesOf (auxStore s3 ! length (auxStore u)) \<subseteq> declaredNamesOf r \<and>
           (q \<noteq> NoQuantifier \<longrightarrow> (\<forall>frame rest. exposedVariables s3 = frame # rest \<longrightarrow>
              (\<forall>v \<in> set frame. type (snd v) = Node \<or> type (snd v) = Edge \<longrightarrow>
                 fst v \<in> declaredNamesOf r)))"
    by blast
qed

lemma Process_PathFactor_element:
  assumes run: "Process_PathFactor supported (PathFactor q (ElementPatternPrimary e)) u = Inr u'"
    and v: "var (fillerOf e) = Some v"
  shows "\<exists>r. auxStore u' = auxStore u @ [r] \<and> varName v \<in> declaredNamesOf r"
proof -
  let ?p = "length (auxStore u)"
  from run obtain s2 s3 s4 where
    enter: "enterQuantifier supported q (snd (VariableReferenceScope_enter u)) = Inr s2"
    and element: "processElementPattern supported e s2 = Inr s3"
    and leave: "exitQuantifier q s3 = Inr s4"
    and u': "u' = VariableReferenceScope_exit (fst (VariableReferenceScope_enter u)) s4"
    unfolding Process_PathFactor.simps Process_PathPrimary.simps processFactor_unfold
      andThen_eq_Inr
    by blast
  have store1: "auxStore (snd (VariableReferenceScope_enter u)) =
      auxStore u @ [\<lparr>declaredVariables = []\<rparr>]"
    by (simp add: VariableReferenceScope_enter_def)
  from ensuresD [OF enter enterQuantifier_keeps] store1
  have len2: "length (auxStore s2) = Suc ?p"
    by (simp add: keepsRecords_def)
  note f = factor_record [OF enter element processElementPattern_extending leave]
  from processElementPattern_writesOnly [OF element v] f(1) obtain p where
    "currentVariableReferenceScope s2 = Some p" and w3: "writesOnly p s2 s3"
    and name3: "varName v \<in> declaredNamesOf (auxStore s3 ! p)"
    by blast
  with f(1) have p: "p = ?p"
    by (simp add: writesOnly_def)
  from w3 len2 have len3: "length (auxStore s3) = Suc ?p"
    by (simp add: writesOnly_def)
  from exitQuantifier_writesOnly(1) [OF leave f(1)] len3
  have len4: "length (auxStore s4) = Suc ?p"
    by (simp add: writesOnly_def)
  from f(2) obtain r new where split: "auxStore s4 = auxStore u @ r # new"
    and grow: "declaredNamesOf (auxStore s3 ! ?p) \<subseteq> declaredNamesOf r"
    by blast
  from split len4 have "new = []"
    by simp
  with split grow name3 p have "auxStore s4 = auxStore u @ [r]" and "varName v \<in> declaredNamesOf r"
    by auto
  then show ?thesis
    by (auto simp add: u' VariableReferenceScope_exit_def)
qed


section \<open>C6: the records that declare an exposed element variable\<close>

text \<open>
  C6 as stated (every exposed Node or Edge variable is in the \<open>declaredVariables\<close> map of
  exactly one auxiliary record) does not hold. In \<open>MATCH (a) (-[b]->) (a)\<close> each of the two
  node patterns is a path factor with a record of its own, and \<open>ExposeNewVariable\<close> writes
  \<open>a\<close> into the record of the factor being analysed each time \<open>a\<close> is declared: after the
  analysis \<open>a\<close> is in the second and in the sixth record. The header of the auxiliary data
  says so: an unconditional singleton variable may be declared several times.
\<close>

theorem C6_counterexample:
  "map_sum id exposedNames
     (Process_PathPatternExpression allFeatures patternRepeatedNode stateEnteringPattern) =
     Inr [[''a'', ''b''], [], []] \<and>
   map_sum id declaredNames
     (Process_PathPatternExpression allFeatures patternRepeatedNode stateEnteringPattern) =
     Inr [[], [''a''], [], [], [''b''], [''a'']]"
  by code_simp

text \<open>
  C6, amended: when the analysis of a path pattern returns normally, every variable of kind
  Node or Edge in a frame of \<open>exposedVariables_\<close> is a key of the \<open>declaredVariables\<close> map of
  at least one auxiliary record, and every entry of every \<open>declaredVariables\<close> map is of kind
  Node or Edge, so that Path and Subpath variables are in none. This holds after the path
  pattern expression has been processed (\<open>s1\<close>) and after \<open>ExitPathPattern\<close> (\<open>s'\<close>), from a
  state \<open>s\<close> with the same properties and no temporary flag in a record, as the state of a
  new \<open>GraphPatternContext\<close> is. The record that is written is the following.

  \<^item> A successful declaration of a Node or Edge variable, new or declared before, sets the
    entry of its name in the record of the current variable reference scope, and changes
    no other record and no other entry.

  \<^item> The path factor of an element pattern with a variable appends exactly one record,
    its own, and the variable is declared in it.

  \<^item> A quantified or questioned path factor appends its own record \<open>r\<close> first, then those
    of its primary. When the quantifier or the question mark is left (\<open>exitQuantifier\<close>),
    every Node or Edge variable that the primary exposed, that is every variable of the
    top frame of \<open>exposedVariables_\<close> in \<open>s3\<close>, is declared in \<open>r\<close>. \<open>processFactor_unfold\<close>
    shows that these are the steps of a path factor.

  \<^item> A path factor and a path pattern expression restore the current variable reference
    scope and keep every record that existed when they were entered as it was: their
    declarations are in records behind it.
\<close>

theorem C6_declared_variables:
  assumes "wellDeclared s"
    and "Process_PathPatternExpression supported pat (EnterPathPattern isSelectivePattern s) =
           Inr s1"
    and "ExitPathPattern s1 = Inr (aux, s')"
  shows "(\<forall>t \<in> {s1, s'}.
           (\<forall>frame \<in> set (exposedVariables t). \<forall>v \<in> set frame.
              type (snd v) = Node \<or> type (snd v) = Edge \<longrightarrow>
              (\<exists>r \<in> set (auxStore t). fst v \<in> fst ` set (declaredVariables r))) \<and>
           (\<forall>r \<in> set (auxStore t). \<forall>e \<in> set (declaredVariables r).
              auxType (snd e) = Node \<or> auxType (snd e) = Edge)) \<and>
         (\<forall>n pos ty temp u u'.
            DeclareVariable n pos ty temp u = Inr u' \<and> (ty = Node \<or> ty = Edge) \<longrightarrow>
            (\<exists>p. currentVariableReferenceScope u = Some p \<and> p < length (auxStore u) \<and>
                 currentVariableReferenceScope u' = Some p \<and>
                 auxStore u' =
                   declareIn p n
                     \<lparr>auxType = ty, degreeOfExposure = UnconditionalSingleton,
                       auxIsTemp = False\<rparr>
                     (auxStore u))) \<and>
         (\<forall>features q e v u u'.
            Process_PathFactor features (PathFactor q (ElementPatternPrimary e)) u = Inr u' \<and>
            var (fillerOf e) = Some v \<longrightarrow>
            (\<exists>r. auxStore u' = auxStore u @ [r] \<and> varName v \<in> declaredNamesOf r)) \<and>
         (\<forall>features q primary u s2 s3 s4.
            q \<noteq> NoQuantifier \<and>
            enterQuantifier features q (snd (VariableReferenceScope_enter u)) = Inr s2 \<and>
            Process_PathPrimary features primary s2 = Inr s3 \<and>
            exitQuantifier q s3 = Inr s4 \<longrightarrow>
            (\<exists>r new. auxStore s4 = auxStore u @ r # new \<and>
               (\<forall>frame rest. exposedVariables s3 = frame # rest \<longrightarrow>
                  (\<forall>v \<in> set frame. type (snd v) = Node \<or> type (snd v) = Edge \<longrightarrow>
                     fst v \<in> declaredNamesOf r)))) \<and>
         (\<forall>features factor expression u u'.
            Process_PathFactor features factor u = Inr u' \<or>
            Process_PathPatternExpression features expression u = Inr u' \<longrightarrow>
            currentVariableReferenceScope u' = currentVariableReferenceScope u \<and>
            take (length (auxStore u)) (auxStore u') = auxStore u)"
proof (intro conjI)
  have "wellDeclared (EnterPathPattern isSelectivePattern s)"
    using assms(1) by simp
  with Process_preserving(1) assms(2) have s1: "wellDeclared s1"
    unfolding preserving_def by blast
  with assms(3) have s': "wellDeclared s'"
    by (rule ExitPathPattern_wellDeclared)
  have unfolded: "(\<forall>frame \<in> set (exposedVariables t). \<forall>v \<in> set frame.
              type (snd v) = Node \<or> type (snd v) = Edge \<longrightarrow>
              (\<exists>r \<in> set (auxStore t). fst v \<in> fst ` set (declaredVariables r))) \<and>
           (\<forall>r \<in> set (auxStore t). \<forall>e \<in> set (declaredVariables r).
              auxType (snd e) = Node \<or> auxType (snd e) = Edge)"
    if "wellDeclared t" for t
    using that unfolding wellDeclared_def plainEntries_def declaredIn_def auxKeys_def isElement_def
    by blast
  from unfolded [OF s1] unfolded [OF s']
  show "\<forall>t \<in> {s1, s'}.
           (\<forall>frame \<in> set (exposedVariables t). \<forall>v \<in> set frame.
              type (snd v) = Node \<or> type (snd v) = Edge \<longrightarrow>
              (\<exists>r \<in> set (auxStore t). fst v \<in> fst ` set (declaredVariables r))) \<and>
           (\<forall>r \<in> set (auxStore t). \<forall>e \<in> set (declaredVariables r).
              auxType (snd e) = Node \<or> auxType (snd e) = Edge)"
    by blast
next
  show "\<forall>n pos ty temp u u'.
            DeclareVariable n pos ty temp u = Inr u' \<and> (ty = Node \<or> ty = Edge) \<longrightarrow>
            (\<exists>p. currentVariableReferenceScope u = Some p \<and> p < length (auxStore u) \<and>
                 currentVariableReferenceScope u' = Some p \<and>
                 auxStore u' =
                   declareIn p n
                     \<lparr>auxType = ty, degreeOfExposure = UnconditionalSingleton,
                       auxIsTemp = False\<rparr>
                     (auxStore u))"
    using DeclareVariable_records by blast
next
  show "\<forall>features q e v u u'.
            Process_PathFactor features (PathFactor q (ElementPatternPrimary e)) u = Inr u' \<and>
            var (fillerOf e) = Some v \<longrightarrow>
            (\<exists>r. auxStore u' = auxStore u @ [r] \<and> varName v \<in> declaredNamesOf r)"
    using Process_PathFactor_element by blast
next
  show "\<forall>features q primary u s2 s3 s4.
            q \<noteq> NoQuantifier \<and>
            enterQuantifier features q (snd (VariableReferenceScope_enter u)) = Inr s2 \<and>
            Process_PathPrimary features primary s2 = Inr s3 \<and>
            exitQuantifier q s3 = Inr s4 \<longrightarrow>
            (\<exists>r new. auxStore s4 = auxStore u @ r # new \<and>
               (\<forall>frame rest. exposedVariables s3 = frame # rest \<longrightarrow>
                  (\<forall>v \<in> set frame. type (snd v) = Node \<or> type (snd v) = Edge \<longrightarrow>
                     fst v \<in> declaredNamesOf r)))"
  proof (intro allI impI, elim conjE)
    fix features q primary u s2 s3 s4
    assume q: "q \<noteq> NoQuantifier"
      and enter: "enterQuantifier features q (snd (VariableReferenceScope_enter u)) = Inr s2"
      and inner: "Process_PathPrimary features primary s2 = Inr s3"
      and leave: "exitQuantifier q s3 = Inr s4"
    from factor_record(2) [OF enter inner Process_records(3) leave] q
    show "\<exists>r new. auxStore s4 = auxStore u @ r # new \<and>
               (\<forall>frame rest. exposedVariables s3 = frame # rest \<longrightarrow>
                  (\<forall>v \<in> set frame. type (snd v) = Node \<or> type (snd v) = Edge \<longrightarrow>
                     fst v \<in> declaredNamesOf r))"
      by blast
  qed
next
  show "\<forall>features factor expression u u'.
            Process_PathFactor features factor u = Inr u' \<or>
            Process_PathPatternExpression features expression u = Inr u' \<longrightarrow>
            currentVariableReferenceScope u' = currentVariableReferenceScope u \<and>
            take (length (auxStore u)) (auxStore u') = auxStore u"
    using Process_records(1,2) unfolding appending_def appendsRecords_def by blast
qed

theorem C6_declared_variables_witness:
  "wellDeclared (newGraphPatternContext False) \<and>
   (\<exists>s1 aux s'.
      Process_PathPatternExpression allFeatures patternRepeatedNode
        (EnterPathPattern False (newGraphPatternContext False)) = Inr s1 \<and>
      ExitPathPattern s1 = Inr (aux, s') \<and>
      (\<forall>t \<in> {s1, s'}.
         (\<forall>frame \<in> set (exposedVariables t). \<forall>v \<in> set frame.
            type (snd v) = Node \<or> type (snd v) = Edge \<longrightarrow>
            (\<exists>r \<in> set (auxStore t). fst v \<in> fst ` set (declaredVariables r))) \<and>
         (\<forall>r \<in> set (auxStore t). \<forall>e \<in> set (declaredVariables r).
            auxType (snd e) = Node \<or> auxType (snd e) = Edge))) \<and>
   (\<exists>u' p.
      DeclareVariable ''y'' None Edge False stateEnteringFactor = Inr u' \<and>
      currentVariableReferenceScope stateEnteringFactor = Some p \<and>
      p < length (auxStore stateEnteringFactor) \<and>
      currentVariableReferenceScope u' = Some p \<and>
      auxStore u' =
        declareIn p ''y''
          \<lparr>auxType = Edge, degreeOfExposure = UnconditionalSingleton, auxIsTemp = False\<rparr>
          (auxStore stateEnteringFactor)) \<and>
   (\<exists>u' r.
      Process_PathFactor allFeatures (nodeNamed ''a'') stateEnteringFactor = Inr u' \<and>
      auxStore u' = auxStore stateEnteringFactor @ [r] \<and> ''a'' \<in> declaredNamesOf r \<and>
      currentVariableReferenceScope u' = currentVariableReferenceScope stateEnteringFactor \<and>
      take (length (auxStore stateEnteringFactor)) (auxStore u') = auxStore stateEnteringFactor) \<and>
   (\<exists>s2 s3 s4 r new.
      enterQuantifier allFeatures (GraphPatternQuantifier 2 (Some 3))
        (snd (VariableReferenceScope_enter stateEnteringFactor)) = Inr s2 \<and>
      Process_PathPrimary allFeatures
        (ParenthesizedPathPatternExpression None WALK
           (PathPatternExpression [[nodeNamed ''a'', edgeNamed ''b'']] Concat) None) s2 = Inr s3 \<and>
      exitQuantifier (GraphPatternQuantifier 2 (Some 3)) s3 = Inr s4 \<and>
      (\<exists>frame rest. exposedVariables s3 = frame # rest \<and> map fst frame = [''a'', ''b'']) \<and>
      auxStore s4 = auxStore stateEnteringFactor @ r # new \<and>
      ''a'' \<in> declaredNamesOf r \<and> ''b'' \<in> declaredNamesOf r)"
proof -
  let ?q = "GraphPatternQuantifier 2 (Some 3)"
  let ?primary = "ParenthesizedPathPatternExpression None WALK
           (PathPatternExpression [[nodeNamed ''a'', edgeNamed ''b'']] Concat) None"
  have start: "wellDeclared (newGraphPatternContext False)"
    by simp
  have "\<not> isl (andThen
      (Process_PathPatternExpression allFeatures patternRepeatedNode
         (EnterPathPattern False (newGraphPatternContext False))) ExitPathPattern)"
    by code_simp
  then obtain result where "andThen
      (Process_PathPatternExpression allFeatures patternRepeatedNode
         (EnterPathPattern False (newGraphPatternContext False))) ExitPathPattern = Inr result"
    using not_isl_obtain by blast
  then obtain s1 aux s' where
    run: "Process_PathPatternExpression allFeatures patternRepeatedNode
            (EnterPathPattern False (newGraphPatternContext False)) = Inr s1"
    and exit: "ExitPathPattern s1 = Inr (aux, s')"
    unfolding andThen_eq_Inr by (cases result) blast
  note c6 = C6_declared_variables [OF start run exit]
  from c6 have invariant: "\<forall>t \<in> {s1, s'}.
         (\<forall>frame \<in> set (exposedVariables t). \<forall>v \<in> set frame.
            type (snd v) = Node \<or> type (snd v) = Edge \<longrightarrow>
            (\<exists>r \<in> set (auxStore t). fst v \<in> fst ` set (declaredVariables r))) \<and>
         (\<forall>r \<in> set (auxStore t). \<forall>e \<in> set (declaredVariables r).
            auxType (snd e) = Node \<or> auxType (snd e) = Edge)"
    by (rule conjunct1)
  from c6 have written: "\<forall>n pos ty temp u u'.
            DeclareVariable n pos ty temp u = Inr u' \<and> (ty = Node \<or> ty = Edge) \<longrightarrow>
            (\<exists>p. currentVariableReferenceScope u = Some p \<and> p < length (auxStore u) \<and>
                 currentVariableReferenceScope u' = Some p \<and>
                 auxStore u' =
                   declareIn p n
                     \<lparr>auxType = ty, degreeOfExposure = UnconditionalSingleton,
                       auxIsTemp = False\<rparr>
                     (auxStore u))"
    by (rule conjunct1 [OF conjunct2])
  from c6 have element: "\<forall>features q e v u u'.
            Process_PathFactor features (PathFactor q (ElementPatternPrimary e)) u = Inr u' \<and>
            var (fillerOf e) = Some v \<longrightarrow>
            (\<exists>r. auxStore u' = auxStore u @ [r] \<and> varName v \<in> declaredNamesOf r)"
    by (rule conjunct1 [OF conjunct2 [OF conjunct2]])
  from c6 have quantifier: "\<forall>features q primary u s2 s3 s4.
            q \<noteq> NoQuantifier \<and>
            enterQuantifier features q (snd (VariableReferenceScope_enter u)) = Inr s2 \<and>
            Process_PathPrimary features primary s2 = Inr s3 \<and>
            exitQuantifier q s3 = Inr s4 \<longrightarrow>
            (\<exists>r new. auxStore s4 = auxStore u @ r # new \<and>
               (\<forall>frame rest. exposedVariables s3 = frame # rest \<longrightarrow>
                  (\<forall>v \<in> set frame. type (snd v) = Node \<or> type (snd v) = Edge \<longrightarrow>
                     fst v \<in> declaredNamesOf r)))"
    by (rule conjunct1 [OF conjunct2 [OF conjunct2 [OF conjunct2]]])
  from c6 have appended: "\<forall>features factor expression u u'.
            Process_PathFactor features factor u = Inr u' \<or>
            Process_PathPatternExpression features expression u = Inr u' \<longrightarrow>
            currentVariableReferenceScope u' = currentVariableReferenceScope u \<and>
            take (length (auxStore u)) (auxStore u') = auxStore u"
    by (rule conjunct2 [OF conjunct2 [OF conjunct2 [OF conjunct2]]])
  have first: "\<exists>s1 aux s'.
      Process_PathPatternExpression allFeatures patternRepeatedNode
        (EnterPathPattern False (newGraphPatternContext False)) = Inr s1 \<and>
      ExitPathPattern s1 = Inr (aux, s') \<and>
      (\<forall>t \<in> {s1, s'}.
         (\<forall>frame \<in> set (exposedVariables t). \<forall>v \<in> set frame.
            type (snd v) = Node \<or> type (snd v) = Edge \<longrightarrow>
            (\<exists>r \<in> set (auxStore t). fst v \<in> fst ` set (declaredVariables r))) \<and>
         (\<forall>r \<in> set (auxStore t). \<forall>e \<in> set (declaredVariables r).
            auxType (snd e) = Node \<or> auxType (snd e) = Edge))"
    using run exit invariant by blast
  have "\<not> isl (DeclareVariable ''y'' None Edge False stateEnteringFactor)"
    by code_simp
  then obtain uy where declare_y: "DeclareVariable ''y'' None Edge False stateEnteringFactor = Inr uy"
    using not_isl_obtain by blast
  with written have second: "\<exists>u' p.
      DeclareVariable ''y'' None Edge False stateEnteringFactor = Inr u' \<and>
      currentVariableReferenceScope stateEnteringFactor = Some p \<and>
      p < length (auxStore stateEnteringFactor) \<and>
      currentVariableReferenceScope u' = Some p \<and>
      auxStore u' =
        declareIn p ''y''
          \<lparr>auxType = Edge, degreeOfExposure = UnconditionalSingleton, auxIsTemp = False\<rparr>
          (auxStore stateEnteringFactor)"
    by blast
  have "\<not> isl (Process_PathFactor allFeatures (nodeNamed ''a'') stateEnteringFactor)"
    by code_simp
  then obtain ua where factor_a: "Process_PathFactor allFeatures (nodeNamed ''a'') stateEnteringFactor = Inr ua"
    using not_isl_obtain by blast
  let ?e = "NodePattern (ElementPatternFiller
      (Some \<lparr>varName = ''a'', varIsTemp = False, varPosition = None\<rparr>) None None)"
  have shape: "nodeNamed ''a'' = PathFactor NoQuantifier (ElementPatternPrimary ?e)"
    and var: "var (fillerOf ?e) = Some \<lparr>varName = ''a'', varIsTemp = False, varPosition = None\<rparr>"
    by (simp_all add: nodeNamed_def fillerOf_def)
  from element [rule_format, of allFeatures NoQuantifier ?e stateEnteringFactor ua] factor_a var
  obtain r where "auxStore ua = auxStore stateEnteringFactor @ [r]" and "''a'' \<in> declaredNamesOf r"
    by (auto simp add: shape)
  moreover from appended [rule_format, of allFeatures "nodeNamed ''a''" stateEnteringFactor ua]
    factor_a
  have "currentVariableReferenceScope ua = currentVariableReferenceScope stateEnteringFactor \<and>
      take (length (auxStore stateEnteringFactor)) (auxStore ua) = auxStore stateEnteringFactor"
    by blast
  ultimately have third: "\<exists>u' r.
      Process_PathFactor allFeatures (nodeNamed ''a'') stateEnteringFactor = Inr u' \<and>
      auxStore u' = auxStore stateEnteringFactor @ [r] \<and> ''a'' \<in> declaredNamesOf r \<and>
      currentVariableReferenceScope u' = currentVariableReferenceScope stateEnteringFactor \<and>
      take (length (auxStore stateEnteringFactor)) (auxStore u') = auxStore stateEnteringFactor"
    using factor_a by blast
  let ?enter = "enterQuantifier allFeatures ?q
      (snd (VariableReferenceScope_enter stateEnteringFactor))"
  let ?inner = "andThen ?enter (Process_PathPrimary allFeatures ?primary)"
  have exit_eq: "exitQuantifier ?q = ExitQuantifiedPathPrimary True 2"
    by (simp add: exitQuantifier_def toInt_def fun_eq_iff)
  have "\<not> isl (andThen ?inner (ExitQuantifiedPathPrimary True 2))"
    by code_simp
  then obtain s4 where "andThen ?inner (exitQuantifier ?q) = Inr s4"
    unfolding exit_eq using not_isl_obtain by blast
  then obtain s2 s3 where enter: "?enter = Inr s2"
    and inner: "Process_PathPrimary allFeatures ?primary s2 = Inr s3"
    and leave: "exitQuantifier ?q s3 = Inr s4"
    unfolding andThen_eq_Inr by blast
  from enter inner have reached: "?inner = Inr s3"
    by (simp add: andThen_eq_Inr)
  have "map_sum id
      (\<lambda>t. map (map (\<lambda>v. (fst v, type (snd v)))) (take 1 (exposedVariables t))) ?inner =
      Inr [[(''a'', Node), (''b'', Edge)]]"
    by code_simp
  then have "map (map (\<lambda>v. (fst v, type (snd v)))) (take 1 (exposedVariables s3)) =
      [[(''a'', Node), (''b'', Edge)]]"
    unfolding reached by simp
  then obtain frame rest where frame: "exposedVariables s3 = frame # rest"
    and exposed: "map (\<lambda>v. (fst v, type (snd v))) frame = [(''a'', Node), (''b'', Edge)]"
    by (cases "exposedVariables s3") auto
  from exposed have names: "map fst frame = [''a'', ''b'']"
    and members: "\<exists>va vb. (''a'', va) \<in> set frame \<and> (''b'', vb) \<in> set frame"
    and elements: "\<forall>v \<in> set frame. type (snd v) = Node \<or> type (snd v) = Edge"
    by (auto simp add: map_eq_Cons_conv)
  from quantifier [rule_format, of ?q allFeatures stateEnteringFactor s2 ?primary s3 s4]
    enter inner leave
  obtain r new where "auxStore s4 = auxStore stateEnteringFactor @ r # new"
    and "\<forall>frame rest. exposedVariables s3 = frame # rest \<longrightarrow>
      (\<forall>v \<in> set frame. type (snd v) = Node \<or> type (snd v) = Edge \<longrightarrow>
         fst v \<in> declaredNamesOf r)"
    by auto
  with frame elements members have "auxStore s4 = auxStore stateEnteringFactor @ r # new"
    and "''a'' \<in> declaredNamesOf r" and "''b'' \<in> declaredNamesOf r"
    by force+
  with enter inner leave names frame have fourth: "\<exists>s2 s3 s4 r new.
      enterQuantifier allFeatures ?q (snd (VariableReferenceScope_enter stateEnteringFactor)) =
        Inr s2 \<and>
      Process_PathPrimary allFeatures ?primary s2 = Inr s3 \<and>
      exitQuantifier ?q s3 = Inr s4 \<and>
      (\<exists>frame rest. exposedVariables s3 = frame # rest \<and> map fst frame = [''a'', ''b'']) \<and>
      auxStore s4 = auxStore stateEnteringFactor @ r # new \<and>
      ''a'' \<in> declaredNamesOf r \<and> ''b'' \<in> declaredNamesOf r"
    by - (intro exI conjI, assumption+)
  from start first second third fourth show ?thesis
    by (intro conjI)
qed


section \<open>C10: the temporary flag\<close>

lemma variables_loop:
  assumes "forEach
      (\<lambda>d result.
         case map_of topFrame (fst d) of
           None \<Rightarrow> Inl UndefinedBehaviour
         | Some varDef \<Rightarrow>
             Inr (AList.update (fst d)
                    \<lparr>type = declType (snd d),
                      declarationPosition = firstDeclarationPosition (snd d),
                      isTemp = isTemp varDef, degree = degree varDef\<rparr> result))
      ds acc = Inr vs"
    and "map_of vs n = Some v"
  shows "map_of acc n = Some v \<or> (\<exists>e. map_of topFrame n = Some e \<and> isTemp v = isTemp e)"
  using assms
proof (induction ds arbitrary: acc)
  case Nil
  then show ?case by simp
next
  case (Cons d ds)
  let ?body = "\<lambda>d result.
         case map_of topFrame (fst d) of
           None \<Rightarrow> Inl UndefinedBehaviour
         | Some varDef \<Rightarrow>
             Inr (AList.update (fst d)
                    \<lparr>type = declType (snd d),
                      declarationPosition = firstDeclarationPosition (snd d),
                      isTemp = isTemp varDef, degree = degree varDef\<rparr> result)"
  from Cons.prems(1) obtain acc' where head: "?body d acc = Inr acc'"
    and rest: "forEach ?body ds acc' = Inr vs"
    unfolding forEach.simps andThen_eq_Inr by blast
  from head obtain e0 where e0: "map_of topFrame (fst d) = Some e0"
    and acc': "acc' = AList.update (fst d)
                    \<lparr>type = declType (snd d),
                      declarationPosition = firstDeclarationPosition (snd d),
                      isTemp = isTemp e0, degree = degree e0\<rparr> acc"
    by (cases "map_of topFrame (fst d)") simp_all
  from Cons.IH [OF rest Cons.prems(2)]
  show ?case
  proof
    assume "map_of acc' n = Some v"
    then show ?thesis
      using e0 by (cases "n = fst d") (auto simp add: acc' update_conv')
  next
    assume "\<exists>e. map_of topFrame n = Some e \<and> isTemp v = isTemp e"
    then show ?thesis ..
  qed
qed

lemma variables_isTemp:
  assumes "variables s = Inr vs" and "map_of vs n = Some v"
  shows "\<exists>frame rest e. exposedVariables s = frame # rest \<and> map_of frame n = Some e \<and>
           isTemp v = isTemp e"
proof (cases "exposedVariables s")
  case Nil
  with assms(1) show ?thesis
    by (simp add: variables_def)
next
  case (Cons frame rest)
  from assms(1) have "forEach
      (\<lambda>d result.
         case map_of frame (fst d) of
           None \<Rightarrow> Inl UndefinedBehaviour
         | Some varDef \<Rightarrow>
             Inr (AList.update (fst d)
                    \<lparr>type = declType (snd d),
                      declarationPosition = firstDeclarationPosition (snd d),
                      isTemp = isTemp varDef, degree = degree varDef\<rparr> result))
      (variableDeclarations s) [] = Inr vs"
    by (simp add: variables_def Cons)
  from variables_loop [OF this assms(2)] Cons show ?thesis
    by simp
qed

lemma DeclareVariable_fresh:
  assumes run: "DeclareVariable n pos ty temp s = Inr s'"
    and frame: "exposedVariables s = cur # rest"
    and fresh: "map_of cur n = None"
  shows "exposedVariables s' =
           (cur @ [(n, \<lparr>type = ty, declarationPosition = pos, isTemp = temp,
                        degree = UnconditionalSingleton, isStrictInterior = False\<rparr>)]) # rest"
    and "ty = Node \<or> ty = Edge \<Longrightarrow>
         \<exists>p. currentVariableReferenceScope s' = Some p \<and> p < length (auxStore s') \<and>
             map_of (declaredVariables (auxStore s' ! p)) n =
               Some \<lparr>auxType = ty, degreeOfExposure = UnconditionalSingleton, auxIsTemp = False\<rparr>"
proof -
  let ?v = "\<lparr>type = ty, declarationPosition = pos, isTemp = temp,
              degree = UnconditionalSingleton, isStrictInterior = False\<rparr>"
  from run obtain s2 s3 where r: "recordDeclaration n pos ty s = Inr s2"
    and en: "ExposeNewVariable n ?v s2 = Inr s3"
    and c: "countDeclaration n s3 = Inr s'"
    by (auto simp add: DeclareVariable_unfold andThen_eq_Inr)
  from recordDeclaration_Inr [OF r] frame have f2: "exposedVariables s2 = cur # rest"
    by simp
  from en obtain s2' where ev: "ExposeVariable n ?v s2 = Inr s2'"
    and tail: "(if type ?v = Node \<or> type ?v = Edge then
         (case currentVariableReferenceScope s2' of
            None \<Rightarrow> Inl UndefinedBehaviour
          | Some p \<Rightarrow>
              if p < length (auxStore s2') then
                Inr (s2'\<lparr>auxStore := (auxStore s2')
                  [p := (auxStore s2' ! p)\<lparr>declaredVariables :=
                     AList.update n
                       \<lparr>auxType = type ?v, degreeOfExposure = degree ?v, auxIsTemp = False\<rparr>
                       (declaredVariables (auxStore s2' ! p))\<rparr>]\<rparr>)
              else Inl UndefinedBehaviour)
       else Inr s2') = Inr s3"
    unfolding ExposeNewVariable_def andThen_eq_Inr by blast
  have f2': "exposedVariables s2' = (cur @ [(n, ?v)]) # rest"
    using ev f2 fresh by (auto simp add: ExposeVariable_def)
  have "ensures (ExposeNewVariable n ?v s2) (\<lambda>t. exposedVariables t = exposedVariables s2')"
    unfolding ExposeNewVariable_def ev andThen_Inr
    by (simp split: option.split)
  from ensuresD [OF en this] f2' have f3: "exposedVariables s3 = (cur @ [(n, ?v)]) # rest"
    by simp
  with countDeclaration_Inr [OF c]
  show "exposedVariables s' = (cur @ [(n, ?v)]) # rest"
    by simp
  show "\<exists>p. currentVariableReferenceScope s' = Some p \<and> p < length (auxStore s') \<and>
             map_of (declaredVariables (auxStore s' ! p)) n =
               Some \<lparr>auxType = ty, degreeOfExposure = UnconditionalSingleton, auxIsTemp = False\<rparr>"
    if "ty = Node \<or> ty = Edge"
  proof -
    from tail that obtain p where p: "currentVariableReferenceScope s2' = Some p"
      and len: "p < length (auxStore s2')"
      and s3: "s3 = s2'\<lparr>auxStore := (auxStore s2')
                  [p := (auxStore s2' ! p)\<lparr>declaredVariables :=
                     AList.update n
                       \<lparr>auxType = ty, degreeOfExposure = UnconditionalSingleton,
                         auxIsTemp = False\<rparr>
                       (declaredVariables (auxStore s2' ! p))\<rparr>]\<rparr>"
      by (cases "currentVariableReferenceScope s2'") (auto split: if_splits)
    have "currentVariableReferenceScope s3 = Some p" and "p < length (auxStore s3)"
      and "map_of (declaredVariables (auxStore s3 ! p)) n =
        Some \<lparr>auxType = ty, degreeOfExposure = UnconditionalSingleton, auxIsTemp = False\<rparr>"
      using p len by (simp_all add: s3 update_conv')
    with countDeclaration_Inr [OF c] show ?thesis
      by simp
  qed
qed

text \<open>
  C10. Every entry of a \<open>declaredVariables\<close> map has \<open>isTemp = false\<close> once the analysis of a
  path pattern has returned normally, after the path pattern expression has been processed
  (\<open>s1\<close>) and after \<open>ExitPathPattern\<close> (\<open>s'\<close>), when no entry had the flag before, as in the
  state of a new \<open>GraphPatternContext\<close>. The flag of a declaration is kept in the frame of
  exposed variables instead: a declaration of a Node or Edge variable that the current frame
  does not hold yet puts the variable into the frame with the declaration's \<open>isTemp\<close>, and
  into the record of the current variable reference scope with \<open>isTemp = false\<close>; and every
  variable in the map returned by \<open>variables()\<close> has the \<open>isTemp\<close> of the variable of that name
  in the top frame.
\<close>

theorem C10_temporary_flag:
  assumes "wellDeclared s"
    and "Process_PathPatternExpression supported pat (EnterPathPattern isSelectivePattern s) =
           Inr s1"
    and "ExitPathPattern s1 = Inr (aux, s')"
  shows "(\<forall>t \<in> {s1, s'}. \<forall>r \<in> set (auxStore t). \<forall>e \<in> set (declaredVariables r).
            \<not> auxIsTemp (snd e)) \<and>
         (\<forall>n pos ty temp u u' cur rest.
            DeclareVariable n pos ty temp u = Inr u' \<and> exposedVariables u = cur # rest \<and>
            map_of cur n = None \<and> (ty = Node \<or> ty = Edge) \<longrightarrow>
            exposedVariables u' =
              (cur @ [(n, \<lparr>type = ty, declarationPosition = pos, isTemp = temp,
                           degree = UnconditionalSingleton, isStrictInterior = False\<rparr>)]) # rest \<and>
            (\<exists>p. currentVariableReferenceScope u' = Some p \<and> p < length (auxStore u') \<and>
                 map_of (declaredVariables (auxStore u' ! p)) n =
                   Some \<lparr>auxType = ty, degreeOfExposure = UnconditionalSingleton,
                         auxIsTemp = False\<rparr>)) \<and>
         (\<forall>vs n v. variables s' = Inr vs \<and> map_of vs n = Some v \<longrightarrow>
            (\<exists>frame rest e. exposedVariables s' = frame # rest \<and> map_of frame n = Some e \<and>
               isTemp v = isTemp e))"
proof (intro conjI)
  have "wellDeclared (EnterPathPattern isSelectivePattern s)"
    using assms(1) by simp
  with Process_preserving(1) assms(2) have s1: "wellDeclared s1"
    unfolding preserving_def by blast
  with assms(3) have s': "wellDeclared s'"
    by (rule ExitPathPattern_wellDeclared)
  from s1 s' show "\<forall>t \<in> {s1, s'}. \<forall>r \<in> set (auxStore t). \<forall>e \<in> set (declaredVariables r).
      \<not> auxIsTemp (snd e)"
    unfolding wellDeclared_def plainEntries_def by blast
next
  show "\<forall>n pos ty temp u u' cur rest.
            DeclareVariable n pos ty temp u = Inr u' \<and> exposedVariables u = cur # rest \<and>
            map_of cur n = None \<and> (ty = Node \<or> ty = Edge) \<longrightarrow>
            exposedVariables u' =
              (cur @ [(n, \<lparr>type = ty, declarationPosition = pos, isTemp = temp,
                           degree = UnconditionalSingleton, isStrictInterior = False\<rparr>)]) # rest \<and>
            (\<exists>p. currentVariableReferenceScope u' = Some p \<and> p < length (auxStore u') \<and>
                 map_of (declaredVariables (auxStore u' ! p)) n =
                   Some \<lparr>auxType = ty, degreeOfExposure = UnconditionalSingleton,
                         auxIsTemp = False\<rparr>)"
    using DeclareVariable_fresh by blast
next
  show "\<forall>vs n v. variables s' = Inr vs \<and> map_of vs n = Some v \<longrightarrow>
            (\<exists>frame rest e. exposedVariables s' = frame # rest \<and> map_of frame n = Some e \<and>
               isTemp v = isTemp e)"
    using variables_isTemp by blast
qed

theorem C10_temporary_flag_witness:
  "wellDeclared (newGraphPatternContext False) \<and>
   (\<exists>s1 aux s' vs v.
      Process_PathPatternExpression allFeatures patternTemporary
        (EnterPathPattern False (newGraphPatternContext False)) = Inr s1 \<and>
      ExitPathPattern s1 = Inr (aux, s') \<and>
      declaredTemporary s' = [[], [], [], [(''gql_gen_prop1'', False)]] \<and>
      (\<forall>t \<in> {s1, s'}. \<forall>r \<in> set (auxStore t). \<forall>e \<in> set (declaredVariables r).
         \<not> auxIsTemp (snd e)) \<and>
      variables s' = Inr vs \<and> map_of vs ''gql_gen_prop1'' = Some v \<and> isTemp v \<and>
      (\<exists>frame rest e. exposedVariables s' = frame # rest \<and>
         map_of frame ''gql_gen_prop1'' = Some e \<and> isTemp v = isTemp e)) \<and>
   (\<exists>u'. DeclareVariable ''x'' None Node True stateEnteringFactor = Inr u' \<and>
      exposedVariables u' =
        [(''x'', \<lparr>type = Node, declarationPosition = None, isTemp = True,
                  degree = UnconditionalSingleton, isStrictInterior = False\<rparr>)] # [[], []] \<and>
      (\<exists>p. currentVariableReferenceScope u' = Some p \<and> p < length (auxStore u') \<and>
         map_of (declaredVariables (auxStore u' ! p)) ''x'' =
           Some \<lparr>auxType = Node, degreeOfExposure = UnconditionalSingleton,
                 auxIsTemp = False\<rparr>))"
proof -
  let ?run = "andThen
      (Process_PathPatternExpression allFeatures patternTemporary
         (EnterPathPattern False (newGraphPatternContext False))) ExitPathPattern"
  have start: "wellDeclared (newGraphPatternContext False)"
    by simp
  have "\<not> isl ?run"
    by code_simp
  then obtain result where result: "?run = Inr result"
    using not_isl_obtain by blast
  then obtain s1 aux s' where
    run: "Process_PathPatternExpression allFeatures patternTemporary
            (EnterPathPattern False (newGraphPatternContext False)) = Inr s1"
    and exit: "ExitPathPattern s1 = Inr (aux, s')" and r: "result = (aux, s')"
    unfolding andThen_eq_Inr by (cases result) auto
  have "map_sum id (\<lambda>result. declaredTemporary (snd result)) ?run =
      Inr [[], [], [], [(''gql_gen_prop1'', False)]]"
    by code_simp
  then have records: "declaredTemporary s' = [[], [], [], [(''gql_gen_prop1'', False)]]"
    unfolding result r by simp
  have "map_sum id (map (\<lambda>entry. (fst entry, isTemp (snd entry))))
      (andThen ?run (\<lambda>result. variables (snd result))) = Inr [(''gql_gen_prop1'', True)]"
    by code_simp
  then have "map_sum id (map (\<lambda>entry. (fst entry, isTemp (snd entry)))) (variables s') =
      Inr [(''gql_gen_prop1'', True)]"
    unfolding result r by simp
  then obtain vs where vs: "variables s' = Inr vs"
    and flags: "map (\<lambda>entry. (fst entry, isTemp (snd entry))) vs = [(''gql_gen_prop1'', True)]"
    by (cases "variables s'") auto
  from flags obtain v where "vs = [(''gql_gen_prop1'', v)]" and temp: "isTemp v"
    by (auto simp add: map_eq_Cons_conv)
  then have v: "map_of vs ''gql_gen_prop1'' = Some v"
    by simp
  have "\<not> isl (DeclareVariable ''x'' None Node True stateEnteringFactor)"
    by code_simp
  then obtain u' where declare_x: "DeclareVariable ''x'' None Node True stateEnteringFactor = Inr u'"
    using not_isl_obtain by blast
  have frames: "exposedVariables stateEnteringFactor = [] # [[], []]"
    by code_simp
  have fresh: "map_of [] ''x'' = None"
    by simp
  from C10_temporary_flag [OF start run exit]
  have records_plain: "\<forall>t \<in> {s1, s'}. \<forall>r \<in> set (auxStore t). \<forall>e \<in> set (declaredVariables r).
         \<not> auxIsTemp (snd e)"
    and declared: "exposedVariables u' =
        ([] @ [(''x'', \<lparr>type = Node, declarationPosition = None, isTemp = True,
                  degree = UnconditionalSingleton, isStrictInterior = False\<rparr>)]) # [[], []] \<and>
      (\<exists>p. currentVariableReferenceScope u' = Some p \<and> p < length (auxStore u') \<and>
         map_of (declaredVariables (auxStore u' ! p)) ''x'' =
           Some \<lparr>auxType = Node, degreeOfExposure = UnconditionalSingleton,
                 auxIsTemp = False\<rparr>)"
    and exposed: "\<exists>frame rest e. exposedVariables s' = frame # rest \<and>
         map_of frame ''gql_gen_prop1'' = Some e \<and> isTemp v = isTemp e"
    using declare_x frames fresh vs v by blast+
  from declared have declared': "exposedVariables u' =
        [(''x'', \<lparr>type = Node, declarationPosition = None, isTemp = True,
                  degree = UnconditionalSingleton, isStrictInterior = False\<rparr>)] # [[], []] \<and>
      (\<exists>p. currentVariableReferenceScope u' = Some p \<and> p < length (auxStore u') \<and>
         map_of (declaredVariables (auxStore u' ! p)) ''x'' =
           Some \<lparr>auxType = Node, degreeOfExposure = UnconditionalSingleton,
                 auxIsTemp = False\<rparr>)"
    by simp
  from start run exit records records_plain vs v temp exposed declare_x declared'
  show ?thesis
    by blast
qed

section \<open>C8: the rewrite of element property specifications\<close>

text \<open>
  What \<open>RewriteElementPropertyPredicate\<close> does to two cases of rewrite_unittest.cpp:
  \<open>MATCH ({prop:3})\<close> becomes \<open>MATCH ((TEMP gql_gen_prop1) WHERE gql_gen_prop1.prop = 3)\<close>, and
  the three properties of \<open>MATCH (a {prop1:x.p1, prop2:y.p2, prop3:z.p3})\<close> are joined from
  the left in the order they are written.
\<close>

lemma RewriteElementPropertyPredicate_examples:
  "RewriteElementPropertyPredicate unpositioned defaultExpression programAnonymousProperty =
     patternTemporary"
  "RewriteElementPropertyPredicate inputPosition defaultExpression programThreeProperties =
     matchLifted (node ''a'')
       (Binary BoolAnd
          (Binary BoolAnd (propertyIs ''a'' ''prop1'' (property ''x'' ''p1''))
             (propertyIs ''a'' ''prop2'' (property ''y'' ''p2'')))
          (propertyIs ''a'' ''prop3'' (property ''z'' ''p3'')))"
  by code_simp+

text \<open>
  C8 (for every element pattern with a property specification, the rewrite removes the
  specification and wraps the element pattern) fails on the code for an element pattern
  inside the property value of another one. On \<open>MATCH (a {p: EXISTS {MATCH (b {q: 1})}})\<close>
  the visitor rewrites the pattern of \<open>a\<close> and answers \<open>kSkipChildren\<close>, so the traversal
  never reaches the pattern of \<open>b\<close>: the result is
  \<open>MATCH ((a) WHERE a.p = EXISTS {MATCH (b {q: 1})})\<close>, where \<open>b\<close> still has its property
  specification.
\<close>

theorem C8_nested_property_specification:
  "RewriteElementPropertyPredicate inputPosition defaultExpression programNestedProperty =
     matchLifted (node ''a'')
       (propertyIs ''a'' ''p''
          (ExistsPredicate
             (match (nodeProperties ''b'' [(''q'', OtherValueExpression ''1'')]))))"
  by code_simp

section \<open>C9: running a rewrite twice\<close>

text \<open>
  What does hold. A second walk with the same visitor changes nothing of the result of the
  first when it changes nothing of what the visitor returned for the element patterns the
  first walk reached.
\<close>

lemma walkMap_apply: "walkMap f m st = (f (fst (m st)), snd (m st))"
  by (simp add: walkMap_def split: prod.split)

lemma walkMap2_apply:
  "walkMap2 f m1 m2 st =
     (f (fst (m1 st)) (fst (m2 (snd (m1 st)))), snd (m2 (snd (m1 st))))"
  by (simp add: walkMap2_def split: prod.split)

lemma walkAll_settled:
  assumes "\<And>x n m. x \<in> set xs \<Longrightarrow> g (fst (g x n)) m = (fst (g x n), m)"
  shows "walkAll (map g (fst (walkAll (map g xs) n))) m = (fst (walkAll (map g xs) n), m)"
  using assms
proof (induction xs arbitrary: n)
  case Nil
  then show ?case
    by (simp add: walkReturn_def)
next
  case (Cons x xs)
  have head: "g (fst (g x n)) m = (fst (g x n), m)"
    using Cons.prems by simp
  have tail: "walkAll (map g (fst (walkAll (map g xs) (snd (g x n))))) m =
      (fst (walkAll (map g xs) (snd (g x n))), m)"
    using Cons.prems by (intro Cons.IH) simp
  show ?case
    by (simp add: walkMap2_apply head tail)
qed

lemma ForEachPathPrimary_settled:
  fixes f :: "ElementPattern \<Rightarrow> (PathPrimary, 'st) walk"
  shows "(\<And>e n m. e \<in> set (reached_ValueExpression v) \<Longrightarrow>
            ForEachPathPrimary_PathPrimary f (fst (f e n)) m = (fst (f e n), m)) \<Longrightarrow>
         ForEachPathPrimary_ValueExpression f
           (fst (ForEachPathPrimary_ValueExpression f v n)) m =
           (fst (ForEachPathPrimary_ValueExpression f v n), m)"
    and "True" and "True"
    and "(\<And>e n m. e \<in> set (reached_PathPrimary p) \<Longrightarrow>
            ForEachPathPrimary_PathPrimary f (fst (f e n)) m = (fst (f e n), m)) \<Longrightarrow>
         ForEachPathPrimary_PathPrimary f
           (fst (ForEachPathPrimary_PathPrimary f p n)) m =
           (fst (ForEachPathPrimary_PathPrimary f p n), m)"
    and "(\<And>e n m. e \<in> set (reached_PathFactor factor) \<Longrightarrow>
            ForEachPathPrimary_PathPrimary f (fst (f e n)) m = (fst (f e n), m)) \<Longrightarrow>
         ForEachPathPrimary_PathFactor f
           (fst (ForEachPathPrimary_PathFactor f factor n)) m =
           (fst (ForEachPathPrimary_PathFactor f factor n), m)"
    and "(\<And>e n m. e \<in> set (reachedElementPatterns pat) \<Longrightarrow>
            ForEachPathPrimary_PathPrimary f (fst (f e n)) m = (fst (f e n), m)) \<Longrightarrow>
         ForEachPathPrimary f (fst (ForEachPathPrimary f pat n)) m =
           (fst (ForEachPathPrimary f pat n), m)"
proof (induction v and "x2 :: ElementPatternFiller" and "x3 :: ElementPattern"
    and p and factor and pat arbitrary: n m and and and n m and n m and n m)
  case (BindingVariableReference x)
  show ?case
    by (simp add: walkReturn_def)
next
  case (PropertyReference v x2a)
  have "ForEachPathPrimary_ValueExpression f
      (fst (ForEachPathPrimary_ValueExpression f v n)) m =
      (fst (ForEachPathPrimary_ValueExpression f v n), m)"
    using PropertyReference.prems by (intro PropertyReference.IH) simp
  then show ?case
    by (simp add: walkMap_apply)
next
  case (Comparison c l r)
  have "ForEachPathPrimary_ValueExpression f
      (fst (ForEachPathPrimary_ValueExpression f l n)) m =
      (fst (ForEachPathPrimary_ValueExpression f l n), m)"
    using Comparison.prems by (intro Comparison.IH(1)) simp
  moreover have "ForEachPathPrimary_ValueExpression f
      (fst (ForEachPathPrimary_ValueExpression f r n')) m =
      (fst (ForEachPathPrimary_ValueExpression f r n'), m)" for n'
    using Comparison.prems by (intro Comparison.IH(2)) simp
  ultimately show ?case
    by (simp add: walkMap2_apply)
next
  case (Binary b l r)
  have "ForEachPathPrimary_ValueExpression f
      (fst (ForEachPathPrimary_ValueExpression f l n)) m =
      (fst (ForEachPathPrimary_ValueExpression f l n), m)"
    using Binary.prems by (intro Binary.IH(1)) simp
  moreover have "ForEachPathPrimary_ValueExpression f
      (fst (ForEachPathPrimary_ValueExpression f r n')) m =
      (fst (ForEachPathPrimary_ValueExpression f r n'), m)" for n'
    using Binary.prems by (intro Binary.IH(2)) simp
  ultimately show ?case
    by (simp add: walkMap2_apply)
next
  case (ExistsPredicate pat)
  have "ForEachPathPrimary f (fst (ForEachPathPrimary f pat n)) m =
      (fst (ForEachPathPrimary f pat n), m)"
    using ExistsPredicate.prems by (intro ExistsPredicate.IH) simp
  then show ?case
    by (simp add: walkMap_apply)
next
  case (OtherValueExpression x)
  show ?case
    by (simp add: walkReturn_def)
next
  case (ElementPatternPrimary e)
  then show ?case
    by simp
next
  case (ParenthesizedPathPatternExpression v mode pat w)
  have inner: "ForEachPathPrimary f (fst (ForEachPathPrimary f pat n)) m =
      (fst (ForEachPathPrimary f pat n), m)"
    using ParenthesizedPathPatternExpression.prems
    by (intro ParenthesizedPathPatternExpression.IH(1)) simp
  show ?case
  proof (cases w)
    case None
    with inner show ?thesis
      by (simp add: walkMap2_apply walkOption_def walkReturn_def)
  next
    case (Some cond)
    have "ForEachPathPrimary_ValueExpression f
        (fst (ForEachPathPrimary_ValueExpression f cond n')) m =
        (fst (ForEachPathPrimary_ValueExpression f cond n'), m)" for n'
      using ParenthesizedPathPatternExpression.prems Some
      by (intro ParenthesizedPathPatternExpression.IH(2)) (simp_all add: optionList_def)
    with inner show ?thesis
      by (simp add: Some walkMap2_apply walkOption_def walkMap_apply)
  qed
next
  case SimplifiedPathPatternExpression
  show ?case
    by (simp add: walkReturn_def)
next
  case (PathFactor q p)
  have "ForEachPathPrimary_PathPrimary f (fst (ForEachPathPrimary_PathPrimary f p n)) m =
      (fst (ForEachPathPrimary_PathPrimary f p n), m)"
    using PathFactor.prems by (intro PathFactor.IH) simp
  then show ?case
    by (simp add: walkMap_apply)
next
  case (PathPatternExpression ts oper)
  let ?walk = "\<lambda>factors. walkAll (map (ForEachPathPrimary_PathFactor f) factors)"
  have factors: "ForEachPathPrimary_PathFactor f
      (fst (ForEachPathPrimary_PathFactor f factor n')) m' =
      (fst (ForEachPathPrimary_PathFactor f factor n'), m')"
    if "factors \<in> set ts" and "factor \<in> set factors" for factors factor n' m'
  proof (rule PathPatternExpression.IH [OF that])
    fix e k l
    assume "e \<in> set (reached_PathFactor factor)"
    with that have "e \<in> set (reachedElementPatterns (PathPatternExpression ts oper))"
      by auto
    then show "ForEachPathPrimary_PathPrimary f (fst (f e k)) l = (fst (f e k), l)"
      by (rule PathPatternExpression.prems)
  qed
  have operands: "?walk (fst (?walk factors n')) m' = (fst (?walk factors n'), m')"
    if "factors \<in> set ts" for factors n' m'
    using factors [OF that] by (rule walkAll_settled)
  have "walkAll (map ?walk (fst (walkAll (map ?walk ts) n))) m =
      (fst (walkAll (map ?walk ts) n), m)"
    using operands by (rule walkAll_settled)
  then show ?case
    by (simp add: walkMap_apply comp_def)
qed simp_all

lemma patternFree_settled:
  "patternFree v \<Longrightarrow> ForEachPathPrimary_ValueExpression f v m = (v, m)"
  and "True" and "True" and "True" and "True" and "True"
proof (induction v and "x2 :: ElementPatternFiller" and "x3 :: ElementPattern"
    and "x4 :: PathPrimary" and "x5 :: PathFactor" and "x6 :: PathPatternExpression"
    arbitrary: m)
  case (BindingVariableReference x)
  show ?case by (simp add: walkReturn_def)
next
  case (PropertyReference v x2a)
  then show ?case by (simp add: walkMap_apply)
next
  case (Comparison c l r)
  then show ?case by (simp add: walkMap2_apply)
next
  case (Binary b l r)
  then show ?case by (simp add: walkMap2_apply)
next
  case (ExistsPredicate pat)
  then show ?case by simp
next
  case (OtherValueExpression x)
  show ?case by (simp add: walkReturn_def)
qed simp_all

lemma fillerOf_withFiller [simp]: "fillerOf (withFiller e filler) = filler"
  by (cases e) (simp_all add: fillerOf_def withFiller_def)

lemma parenthesized_settled:
  assumes "f e m = (ElementPatternPrimary e, m)"
    and "ForEachPathPrimary_ValueExpression f cond m = (cond, m)"
  shows "ForEachPathPrimary_PathPrimary f (parenthesized e cond) m = (parenthesized e cond, m)"
  using assms
  by (simp add: parenthesized_def walkMap2_apply walkMap_apply walkOption_def walkReturn_def)

lemma liftWhereClause_settled:
  assumes "predicatePatternFree (predicate (fillerOf e))"
  shows "ForEachPathPrimary_PathPrimary (\<lambda>e. walkReturn (liftWhereClause e))
           (fst (walkReturn (liftWhereClause e) n)) m =
         (fst (walkReturn (liftWhereClause e) n), m)"
proof (cases "predicate (fillerOf e)")
  case None
  then show ?thesis
    by (simp add: walkReturn_def liftWhereClause_def)
next
  case (Some pred)
  show ?thesis
  proof (cases pred)
    case (ElementPatternWhereClause cond)
    with assms Some have "patternFree cond"
      by (simp add: predicatePatternFree_def)
    then have cond: "ForEachPathPrimary_ValueExpression (\<lambda>e. walkReturn (liftWhereClause e))
        cond m = (cond, m)"
      by (rule patternFree_settled(1))
    let ?e = "withFiller e (ElementPatternFiller (var (fillerOf e)) (labelExpr (fillerOf e)) None)"
    have lifted: "liftWhereClause e = parenthesized ?e cond"
      by (simp add: liftWhereClause_def Some ElementPatternWhereClause)
    have inner: "walkReturn (liftWhereClause ?e) m = (ElementPatternPrimary ?e, m)"
      by (simp add: walkReturn_def liftWhereClause_def)
    have "ForEachPathPrimary_PathPrimary (\<lambda>e. walkReturn (liftWhereClause e))
        (parenthesized ?e cond) m = (parenthesized ?e cond, m)"
      using inner cond by (rule parenthesized_settled)
    then show ?thesis
      by (simp add: walkReturn_def lifted)
  next
    case (ElementPropertySpecification props)
    then show ?thesis
      by (simp add: walkReturn_def liftWhereClause_def Some)
  qed
qed

lemma patternFree_conjunction:
  assumes "patternFree defaultExpression"
    and "list_all (\<lambda>prop. patternFree (snd prop)) props"
  shows "patternFree (conjunction defaultExpression v props)"
proof (cases props)
  case Nil
  with assms(1) show ?thesis
    by (simp add: conjunction_def)
next
  case (Cons firstProperty rest)
  have "patternFree (foldl (\<lambda>expr prop'. Binary BoolAnd expr (propertyEquals v prop')) acc rest')"
    if "patternFree acc" and "list_all (\<lambda>prop. patternFree (snd prop)) rest'" for acc rest'
    using that by (induction rest' arbitrary: acc) (simp_all add: propertyEquals_def)
  with assms(2) show ?thesis
    by (simp add: conjunction_def Cons propertyEquals_def)
qed

lemma liftPropertySpecification_settled:
  assumes "predicatePatternFree (predicate (fillerOf e))"
    and "patternFree defaultExpression"
  shows "ForEachPathPrimary_PathPrimary (liftPropertySpecification inputPosition defaultExpression)
           (fst (liftPropertySpecification inputPosition defaultExpression e n)) m =
         (fst (liftPropertySpecification inputPosition defaultExpression e n), m)"
proof (cases "predicate (fillerOf e)")
  case None
  then show ?thesis
    by (simp add: liftPropertySpecification_def)
next
  case (Some pred)
  show ?thesis
  proof (cases pred)
    case (ElementPatternWhereClause cond)
    then show ?thesis
      by (simp add: liftPropertySpecification_def Some)
  next
    case (ElementPropertySpecification props)
    with assms Some have props: "list_all (\<lambda>prop. patternFree (snd prop)) props"
      by (simp add: predicatePatternFree_def)
    have settled: "ForEachPathPrimary_PathPrimary
        (liftPropertySpecification inputPosition defaultExpression)
        (parenthesized (withFiller e filler) (conjunction defaultExpression v props)) m =
        (parenthesized (withFiller e filler) (conjunction defaultExpression v props), m)"
      if "predicate filler = None" for filler v
    proof (rule parenthesized_settled)
      show "liftPropertySpecification inputPosition defaultExpression (withFiller e filler) m =
          (ElementPatternPrimary (withFiller e filler), m)"
        using that by (simp add: liftPropertySpecification_def)
      show "ForEachPathPrimary_ValueExpression
          (liftPropertySpecification inputPosition defaultExpression)
          (conjunction defaultExpression v props) m = (conjunction defaultExpression v props, m)"
        using assms(2) props by (intro patternFree_settled(1) patternFree_conjunction)
    qed
    show ?thesis
      by (cases "var (fillerOf e)")
         (simp_all add: liftPropertySpecification_def [of _ _ e] Some ElementPropertySpecification
           generateId_def settled)
  qed
qed

text \<open>
  So both rewriters are idempotent on a program in which no element pattern that the walk
  reaches has a path pattern in its predicate. For the property specifications the
  default-constructed value expression, which is the condition when there is no property,
  is to hold no path pattern either.
\<close>

lemma rewrite_settled:
  assumes "\<forall>e \<in> set (reachedElementPatterns program). predicatePatternFree (predicate (fillerOf e))"
  shows "RewriteElementPatternWhereClause (RewriteElementPatternWhereClause program) =
           RewriteElementPatternWhereClause program"
    and "patternFree defaultExpression \<Longrightarrow>
         RewriteElementPropertyPredicate inputPosition defaultExpression
           (RewriteElementPropertyPredicate inputPosition defaultExpression program) =
         RewriteElementPropertyPredicate inputPosition defaultExpression program"
proof -
  have "ForEachPathPrimary (\<lambda>e. walkReturn (liftWhereClause e))
      (fst (ForEachPathPrimary (\<lambda>e. walkReturn (liftWhereClause e)) program ())) () =
      (fst (ForEachPathPrimary (\<lambda>e. walkReturn (liftWhereClause e)) program ()), ())"
    using assms by (intro ForEachPathPrimary_settled(6) liftWhereClause_settled) simp
  then show "RewriteElementPatternWhereClause (RewriteElementPatternWhereClause program) =
           RewriteElementPatternWhereClause program"
    by (simp add: RewriteElementPatternWhereClause_def)
next
  assume d: "patternFree defaultExpression"
  have "ForEachPathPrimary (liftPropertySpecification inputPosition defaultExpression)
      (fst (ForEachPathPrimary (liftPropertySpecification inputPosition defaultExpression)
              program 0)) 0 =
      (fst (ForEachPathPrimary (liftPropertySpecification inputPosition defaultExpression)
              program 0), 0)"
    using assms d by (intro ForEachPathPrimary_settled(6) liftPropertySpecification_settled) simp_all
  then show "RewriteElementPropertyPredicate inputPosition defaultExpression
           (RewriteElementPropertyPredicate inputPosition defaultExpression program) =
         RewriteElementPropertyPredicate inputPosition defaultExpression program"
    by (simp add: RewriteElementPropertyPredicate_def)
qed

text \<open>
  C9 (a rewrite applied to its own result changes nothing) fails on the code for the two
  rewriters at hand, for the reason C8 fails. On
  \<open>MATCH (a WHERE EXISTS {MATCH (b WHERE b.x = 1)})\<close> the first run of
  \<open>RewriteElementPatternWhereClause\<close> lifts the condition of \<open>a\<close> and skips what is below,
  which leaves \<open>MATCH ((a) WHERE EXISTS {MATCH (b WHERE b.x = 1)})\<close>; the second run goes
  through the parenthesized expression and its condition, and lifts the condition of \<open>b\<close>.
  \<open>RewriteElementPropertyPredicate\<close> does the same on
  \<open>MATCH (a {p: EXISTS {MATCH (b {q: 1})}})\<close>.
\<close>

theorem C9_second_pass:
  "RewriteElementPatternWhereClause programNestedWhere =
     matchLifted (node ''a'')
       (ExistsPredicate
          (match (nodeWhere ''b'' (propertyIs ''b'' ''x'' (OtherValueExpression ''1''))))) \<and>
   RewriteElementPatternWhereClause (RewriteElementPatternWhereClause programNestedWhere) =
     matchLifted (node ''a'')
       (ExistsPredicate
          (matchLifted (node ''b'') (propertyIs ''b'' ''x'' (OtherValueExpression ''1'')))) \<and>
   RewriteElementPatternWhereClause (RewriteElementPatternWhereClause programNestedWhere) \<noteq>
     RewriteElementPatternWhereClause programNestedWhere \<and>
   RewriteElementPropertyPredicate inputPosition defaultExpression
       (RewriteElementPropertyPredicate inputPosition defaultExpression programNestedProperty) =
     matchLifted (node ''a'')
       (propertyIs ''a'' ''p''
          (ExistsPredicate
             (matchLifted (node ''b'') (propertyIs ''b'' ''q'' (OtherValueExpression ''1''))))) \<and>
   RewriteElementPropertyPredicate inputPosition defaultExpression
       (RewriteElementPropertyPredicate inputPosition defaultExpression programNestedProperty) \<noteq>
     RewriteElementPropertyPredicate inputPosition defaultExpression programNestedProperty"
  by code_simp

end
